(* ===== verification/Prelude.thy ===== *)
theory Prelude
  imports Main "HOL-Library.AList" "HOL-Library.Word"
begin

text \<open>
  Shared vocabulary of the development: the types the Go sources use, the fact collections the
  component theories fill, and the generic lemmas on association lists and folds.

  \<^item> A Go \<open>int\<close> or \<open>int64\<close> that counts, numbers or measures something is an \<open>int\<close>; a bound that
    keeps a product or sum below \<open>2 ^ 63\<close> is proved where the code multiplies such numbers. A
    \<open>uint32\<close> or \<open>uint64\<close> whose wrap-around the code relies on is a word.
  \<^item> A \<open>time.Time\<close> is an \<open>int\<close>: the nanoseconds since Go's zero time, so \<open>IsZero\<close> is \<open>t = 0\<close> and
    \<open>Before\<close> is \<open><\<close>.
  \<^item> A Go map is an association list with distinct keys. The list's order is one possible iteration
    order: a fact proved for every such list holds for every order the runtime may choose.
\<close>

type_synonym gtime = int
type_synonym u32 = "32 word"
type_synonym u64 = "64 word"
type_synonym ('k, 'v) gomap = "('k \<times> 'v) list"

abbreviation IsZero :: "gtime \<Rightarrow> bool" where
  "IsZero t \<equiv> t = 0"

abbreviation gomap_ok :: "('k, 'v) gomap \<Rightarrow> bool" where
  "gomap_ok m \<equiv> distinct (map fst m)"

named_theorems go_defs \<open>unfolding equations of the small helpers of the Go sources\<close>
named_theorems go_inv \<open>preservation of a component's invariant by its operations\<close>
named_theorems go_frame \<open>what an operation leaves unchanged\<close>

subsection \<open>Association lists as Go maps\<close>

lemma gomap_ok_update [simp, intro]: "gomap_ok m \<Longrightarrow> gomap_ok (AList.update k v m)"
  by (rule AList.distinct_update)

lemma gomap_ok_delete [simp, intro]: "gomap_ok m \<Longrightarrow> gomap_ok (AList.delete k m)"
  by (rule AList.distinct_delete)

lemma gomap_ok_map_snd [simp]: "gomap_ok (map (\<lambda>(k, v). (k, f k v)) m) = gomap_ok m"
  by (induction m) (auto simp: image_iff split_beta)

lemma map_fst_map_snd [simp]: "map (fst \<circ> (\<lambda>(k, v). (k, f k v))) m = map fst m"
  by (induction m) auto

lemma map_of_map_snd: "map_of (map (\<lambda>(k, v). (k, f k v)) m) x = map_option (f x) (map_of m x)"
  by (induction m) auto

lemma set_update_subset: "set (AList.update k v m) \<subseteq> insert (k, v) (set m)"
  by (induction m) auto

lemma set_update_iff:
  assumes "gomap_ok m"
  shows "x \<in> set (AList.update k v m) \<longleftrightarrow> x = (k, v) \<or> (x \<in> set m \<and> fst x \<noteq> k)"
  using assms by (induction m) force+

lemma in_set_delete_iff: "x \<in> set (AList.delete k m) \<longleftrightarrow> x \<in> set m \<and> fst x \<noteq> k"
  by (auto simp: AList.delete_eq)

lemma map_of_delete_gomap: "map_of (AList.delete k m) x = (if x = k then None else map_of m x)"
  by (simp add: AList.delete_conv)

lemma map_of_update_gomap: "map_of (AList.update k v m) x = (if x = k then Some v else map_of m x)"
  by (simp add: AList.update_conv')

lemma gomap_lookup_iff: "gomap_ok m \<Longrightarrow> map_of m k = Some v \<longleftrightarrow> (k, v) \<in> set m"
  by (rule map_of_eq_Some_iff)

lemma length_delete_present:
  assumes "gomap_ok m" "map_of m k = Some v"
  shows "Suc (length (AList.delete k m)) = length m"
  using assms
proof (induction m)
  case Nil
  then show ?case by simp
next
  case (Cons p m)
  then show ?case
    by (cases "fst p = k") (auto simp: map_of_eq_None_iff AList.delete_id split: if_splits)
qed

lemma update_eq_Nil_iff [simp]: "AList.update k v m \<noteq> []"
  by (cases m) auto

lemmas gomap_simps = map_of_update_gomap map_of_delete_gomap in_set_delete_iff

subsection \<open>Lists\<close>

lemma drop_of_le: "n \<le> m \<Longrightarrow> drop (m - n) (drop n xs) = drop m xs"
  by simp

lemma nth_drop_int:
  "\<lbrakk>0 \<le> i; nat i \<le> length xs\<rbrakk> \<Longrightarrow> length (drop (nat i) xs) = length xs - nat i"
  by simp

text \<open>Updating one position of a list: the frame facts the store of a component needs.\<close>

lemma nth_list_update_iff:
  "i < length xs \<Longrightarrow> xs[i := x] ! j = (if j = i then x else xs ! j)"
  by (cases "i = j") auto

lemma sum_list_nonneg_int: "(\<And>x. x \<in> set xs \<Longrightarrow> 0 \<le> x) \<Longrightarrow> 0 \<le> sum_list (xs :: int list)"
  by (induction xs) auto

subsection \<open>Reachable states and invariants\<close>

text \<open>
  The step relations of the concurrent components share this notion of reachability. A component
  that proves its invariant interprets \<open>invariant_of\<close> on its own initial states and steps and gets
  the invariant for every reachable state.
\<close>

inductive reach :: "('s \<Rightarrow> bool) \<Rightarrow> ('s \<Rightarrow> 's \<Rightarrow> bool) \<Rightarrow> 's \<Rightarrow> bool"
  for start :: "'s \<Rightarrow> bool" and step :: "'s \<Rightarrow> 's \<Rightarrow> bool"
where
  reach_start: "start s \<Longrightarrow> reach start step s"
| reach_step: "reach start step s \<Longrightarrow> step s t \<Longrightarrow> reach start step t"

locale invariant_of =
  fixes start :: "'s \<Rightarrow> bool"
    and step :: "'s \<Rightarrow> 's \<Rightarrow> bool"
    and inv :: "'s \<Rightarrow> bool"
  assumes inv_start: "start s \<Longrightarrow> inv s"
    and inv_step: "inv s \<Longrightarrow> step s t \<Longrightarrow> inv t"
begin

lemma inv_reach: "reach start step s \<Longrightarrow> inv s"
  by (induction rule: reach.induct) (auto intro: inv_start inv_step)

lemma inv_steps: "step\<^sup>*\<^sup>* s t \<Longrightarrow> inv s \<Longrightarrow> inv t"
  by (induction rule: rtranclp_induct) (auto intro: inv_step)

end

end
