(* ===== verification/Go_Strings.thy ===== *)
theory Go_Strings
  imports Prelude
begin

text \<open>
  The parts of Go's \<open>strings\<close>, \<open>unicode/utf8\<close>, \<open>strconv\<close> and \<open>time\<close> packages the sources use, over
  byte strings: a Go string is a sequence of bytes and an Isabelle \<open>char\<close> is a byte, so \<open>length\<close> is
  Go's \<open>len\<close>. The main results are that \<open>TrimSpace\<close> is idempotent and that its result is a
  contiguous part of its argument, which every normalisation of an identifier rests on.
\<close>

subsection \<open>TrimSpace\<close>

text \<open>
  The UTF-8 encodings of the runes \<open>unicode.IsSpace\<close> accepts. Decoding a rune at the start or at
  the end of a string yields a space exactly when the string starts or ends with one of these, so
  trimming on the left removes such prefixes and trimming on the right such suffixes.
\<close>

definition space_encodings :: "string list" where
  "space_encodings =
     [[CHR 0x09], [CHR 0x0A], [CHR 0x0B], [CHR 0x0C], [CHR 0x0D], [CHR 0x20],
      [CHR 0xC2, CHR 0x85], [CHR 0xC2, CHR 0xA0], [CHR 0xE1, CHR 0x9A, CHR 0x80],
      [CHR 0xE2, CHR 0x80, CHR 0x80], [CHR 0xE2, CHR 0x80, CHR 0x81], [CHR 0xE2, CHR 0x80, CHR 0x82],
      [CHR 0xE2, CHR 0x80, CHR 0x83], [CHR 0xE2, CHR 0x80, CHR 0x84], [CHR 0xE2, CHR 0x80, CHR 0x85],
      [CHR 0xE2, CHR 0x80, CHR 0x86], [CHR 0xE2, CHR 0x80, CHR 0x87], [CHR 0xE2, CHR 0x80, CHR 0x88],
      [CHR 0xE2, CHR 0x80, CHR 0x89], [CHR 0xE2, CHR 0x80, CHR 0x8A], [CHR 0xE2, CHR 0x80, CHR 0xA8],
      [CHR 0xE2, CHR 0x80, CHR 0xA9], [CHR 0xE2, CHR 0x80, CHR 0xAF], [CHR 0xE2, CHR 0x81, CHR 0x9F],
      [CHR 0xE3, CHR 0x80, CHR 0x80]]"

fun has_prefix :: "string \<Rightarrow> string \<Rightarrow> bool" where
  "has_prefix s [] = True"
| "has_prefix [] (c # cs) = False"
| "has_prefix (x # xs) (c # cs) = (x = c \<and> has_prefix xs cs)"

fun trim_once :: "string list \<Rightarrow> string \<Rightarrow> string option" where
  "trim_once [] s = None"
| "trim_once (e # es) s =
     (if e \<noteq> [] \<and> has_prefix s e then Some (drop (length e) s) else trim_once es s)"

lemma has_prefix_iff: "has_prefix s p \<longleftrightarrow> (\<exists>t. s = p @ t)"
  by (induction s p rule: has_prefix.induct) auto

lemma trim_once_shorter: "trim_once es s = Some t \<Longrightarrow> length t < length s"
  by (induction es) (auto simp: has_prefix_iff split: if_splits)

function trim_with :: "string list \<Rightarrow> string \<Rightarrow> string" where
  "trim_with es s = (case trim_once es s of None \<Rightarrow> s | Some t \<Rightarrow> trim_with es t)"
  by pat_completeness auto
termination
  by (relation "measure (\<lambda>(es, s). length s)") (auto dest: trim_once_shorter)

declare trim_with.simps [simp del]

definition trim_left :: "string \<Rightarrow> string" where
  "trim_left s = trim_with space_encodings s"

definition trim_right :: "string \<Rightarrow> string" where
  "trim_right s = rev (trim_with (map rev space_encodings) (rev s))"

definition TrimSpace :: "string \<Rightarrow> string" where
  "TrimSpace s = trim_right (trim_left s)"

subsection \<open>Other string functions\<close>

fun strings_Contains :: "string \<Rightarrow> string \<Rightarrow> bool" where
  "strings_Contains [] p = has_prefix [] p"
| "strings_Contains (x # xs) p = (has_prefix (x # xs) p \<or> strings_Contains xs p)"

text \<open>\<open>strings.Index\<close>: the first position of \<open>p\<close>, \<open>None\<close> for Go's -1.\<close>

fun strings_Index :: "string \<Rightarrow> string \<Rightarrow> nat option" where
  "strings_Index [] p = (if has_prefix [] p then Some 0 else None)"
| "strings_Index (x # xs) p =
     (if has_prefix (x # xs) p then Some 0 else map_option Suc (strings_Index xs p))"

definition count_newlines :: "string \<Rightarrow> int" where
  "count_newlines s = int (length (filter (\<lambda>c. c = CHR 0x0A) s))"

text \<open>
  \<open>strings.ToLower\<close> where the caller compares the result with ASCII text only: the ASCII capitals
  and the two non-ASCII runes whose lower case is ASCII (U+0130 gives \<open>i\<close>, U+212A gives \<open>k\<close>). Every
  other non-ASCII rune has a non-ASCII lower case, so no comparison with ASCII text can tell the
  byte kept here from the one Go writes.
\<close>

definition lower_char :: "char \<Rightarrow> char" where
  "lower_char c =
     (let n = of_char c :: nat in if 65 \<le> n \<and> n \<le> 90 then char_of (n + 32) else c)"

fun ToLower :: "string \<Rightarrow> string" where
  "ToLower [] = []"
| "ToLower (a # xs) =
     (if has_prefix (a # xs) [CHR 0xC4, CHR 0xB0] then CHR ''i'' # ToLower (drop 1 xs)
      else if has_prefix (a # xs) [CHR 0xE2, CHR 0x84, CHR 0xAA] then CHR ''k'' # ToLower (drop 2 xs)
      else lower_char a # ToLower xs)"

text \<open>\<open>utf8.RuneCountInString\<close>: a valid encoding is one rune, any other byte is one rune.\<close>

definition byte_in :: "nat \<Rightarrow> nat \<Rightarrow> char \<Rightarrow> bool" where
  "byte_in lo hi c \<longleftrightarrow> lo \<le> (of_char c :: nat) \<and> of_char c \<le> hi"

abbreviation cont_byte :: "char \<Rightarrow> bool" where
  "cont_byte \<equiv> byte_in 0x80 0xBF"

fun rune_size :: "string \<Rightarrow> nat" where
  "rune_size (a # b # c # d # r) =
     (if byte_in 0xC2 0xDF a \<and> cont_byte b then 2
      else if (byte_in 0xE0 0xE0 a \<and> byte_in 0xA0 0xBF b \<or> byte_in 0xE1 0xEC a \<and> cont_byte b \<or>
               byte_in 0xED 0xED a \<and> byte_in 0x80 0x9F b \<or> byte_in 0xEE 0xEF a \<and> cont_byte b) \<and>
              cont_byte c then 3
      else if (byte_in 0xF0 0xF0 a \<and> byte_in 0x90 0xBF b \<or> byte_in 0xF1 0xF3 a \<and> cont_byte b \<or>
               byte_in 0xF4 0xF4 a \<and> byte_in 0x80 0x8F b) \<and> cont_byte c \<and> cont_byte d then 4
      else 1)"
| "rune_size [a, b, c] =
     (if byte_in 0xC2 0xDF a \<and> cont_byte b then 2
      else if (byte_in 0xE0 0xE0 a \<and> byte_in 0xA0 0xBF b \<or> byte_in 0xE1 0xEC a \<and> cont_byte b \<or>
               byte_in 0xED 0xED a \<and> byte_in 0x80 0x9F b \<or> byte_in 0xEE 0xEF a \<and> cont_byte b) \<and>
              cont_byte c then 3
      else 1)"
| "rune_size [a, b] = (if byte_in 0xC2 0xDF a \<and> cont_byte b then 2 else 1)"
| "rune_size s = 1"

lemma rune_size_pos [simp]: "0 < rune_size s"
  by (cases s rule: rune_size.cases) auto

function RuneCount :: "string \<Rightarrow> nat" where
  "RuneCount [] = 0"
| "RuneCount (x # xs) = Suc (RuneCount (drop (rune_size (x # xs)) (x # xs)))"
  by pat_completeness auto
termination
  by (relation "measure length") (auto simp: Suc_le_eq)

text \<open>Decimal printing of an integer, as \<open>fmt\<close>'s \<open>%d\<close>.\<close>

definition digit_char :: "nat \<Rightarrow> char" where
  "digit_char d = char_of (48 + d)"

function show_nat :: "nat \<Rightarrow> string" where
  "show_nat n = (if n < 10 then [digit_char n] else show_nat (n div 10) @ [digit_char (n mod 10)])"
  by pat_completeness auto
termination
  by (relation "measure id") auto

declare show_nat.simps [simp del]

definition show_int :: "int \<Rightarrow> string" where
  "show_int i = (if i < 0 then CHR ''-'' # show_nat (nat (- i)) else show_nat (nat i))"

text \<open>\<open>firstNonEmpty\<close> of \<open>broker.go\<close>: the first value that is not blank, trimmed.\<close>

fun firstNonEmpty :: "string list \<Rightarrow> string" where
  "firstNonEmpty [] = ''''"
| "firstNonEmpty (v # vs) = (if TrimSpace v \<noteq> '''' then TrimSpace v else firstNonEmpty vs)"

subsection \<open>Facts about TrimSpace\<close>

lemma trim_once_None_iff:
  "trim_once es s = None \<longleftrightarrow> (\<forall>e \<in> set es. e \<noteq> [] \<longrightarrow> \<not> has_prefix s e)"
  by (induction es) auto

lemma trim_once_suffix: "trim_once es s = Some t \<Longrightarrow> \<exists>p. s = p @ t"
  by (induction es) (auto simp: has_prefix_iff split: if_splits)

lemma trim_with_stuck: "trim_once es (trim_with es s) = None"
  by (induction es s rule: trim_with.induct)
    (subst trim_with.simps, auto split: option.split)

lemma trim_with_fixed: "trim_once es s = None \<Longrightarrow> trim_with es s = s"
  by (subst trim_with.simps) simp

lemma trim_with_idem [simp]: "trim_with es (trim_with es s) = trim_with es s"
  by (rule trim_with_fixed) (rule trim_with_stuck)

lemma trim_with_suffix: "\<exists>p. s = p @ trim_with es s"
proof (induction es s rule: trim_with.induct)
  case (1 es s)
  show ?case
  proof (cases "trim_once es s")
    case None
    then show ?thesis by (simp add: trim_with_fixed)
  next
    case (Some t)
    obtain p where p: "t = p @ trim_with es t"
      using "1.IH" [OF Some] by blast
    obtain q where q: "s = q @ t"
      using trim_once_suffix [OF Some] by blast
    have "trim_with es s = trim_with es t"
      by (subst trim_with.simps) (simp add: Some)
    then show ?thesis using p q by (metis append.assoc)
  qed
qed

lemma trim_right_prefix: "\<exists>q. s = trim_right s @ q"
proof -
  obtain p where "rev s = p @ trim_with (map rev space_encodings) (rev s)"
    using trim_with_suffix by blast
  then have "s = rev (p @ trim_with (map rev space_encodings) (rev s))"
    by (metis rev_rev_ident)
  then show ?thesis by (simp add: trim_right_def) blast
qed

lemma trim_left_trim_right:
  assumes "trim_left s = s"
  shows "trim_left (trim_right s) = trim_right s"
proof -
  obtain q where q: "s = trim_right s @ q"
    using trim_right_prefix by blast
  have "trim_once space_encodings s = None"
    using trim_with_stuck [of space_encodings s] assms by (simp add: trim_left_def)
  then have "trim_once space_encodings (trim_right s) = None"
    using q by (metis (no_types, lifting) append.assoc has_prefix_iff trim_once_None_iff)
  then show ?thesis by (simp add: trim_left_def trim_with_fixed)
qed

lemma TrimSpace_idem [simp]: "TrimSpace (TrimSpace s) = TrimSpace s"
proof -
  have "trim_left (trim_left s) = trim_left s"
    by (simp add: trim_left_def)
  then have "trim_left (trim_right (trim_left s)) = trim_right (trim_left s)"
    by (rule trim_left_trim_right)
  then show ?thesis by (simp add: TrimSpace_def) (simp add: trim_right_def)
qed

lemma TrimSpace_infix: "\<exists>p q. s = p @ TrimSpace s @ q"
proof -
  obtain p where "s = p @ trim_left s"
    unfolding trim_left_def using trim_with_suffix by blast
  moreover obtain q where "trim_left s = trim_right (trim_left s) @ q"
    using trim_right_prefix by blast
  ultimately show ?thesis unfolding TrimSpace_def by metis
qed

lemma length_TrimSpace [simp]: "length (TrimSpace s) \<le> length s"
proof -
  obtain p q where "s = p @ TrimSpace s @ q"
    using TrimSpace_infix by blast
  then show ?thesis by (metis length_append le_add2 le_add1 le_trans)
qed

lemma TrimSpace_Nil [simp]: "TrimSpace [] = []"
  using length_TrimSpace [of "[]"] by simp

lemma TrimSpace_nonblank [simp]: "TrimSpace s \<noteq> [] \<Longrightarrow> s \<noteq> []"
  by auto

lemma firstNonEmpty_trimmed [simp]: "TrimSpace (firstNonEmpty vs) = firstNonEmpty vs"
  by (induction vs) auto

lemma firstNonEmpty_eq_Nil_iff: "firstNonEmpty vs = [] \<longleftrightarrow> (\<forall>v \<in> set vs. TrimSpace v = [])"
  by (induction vs) auto

lemma RuneCount_pos: "s \<noteq> [] \<Longrightarrow> 0 < RuneCount s"
  by (cases s) auto

lemma RuneCount_le_length: "RuneCount s \<le> length s"
proof (induction s rule: RuneCount.induct)
  case 1
  then show ?case by simp
next
  case (2 x xs)
  have "Suc (length xs) - rune_size (x # xs) \<le> length xs"
    using rune_size_pos [of "x # xs"] by arith
  with "2" show ?case by simp
qed

end
