(* ===== verification/Append_Seq.thy ===== *)
theory Append_Seq
  imports Go_Strings
begin

text \<open>
  The append-sequence tracker of \<open>internal/backend/forwarder/append_seq.go\<close>: the upstream calls of
  one request carry a sequence number and must be processed one at a time and in order, while
  the calls themselves arrive concurrently and out of order.

  A state is a cell of a heap, since tickets keep pointers to cells the tracker may drop. A critical
  section of \<open>acquire\<close> (one turn of its loop) is \<open>aq_acquire\<close>. The \<open>ready\<close> channel is its generation
  number: \<open>close\<close> followed by \<open>make\<close> moves the cell to the next generation, so the channel a waiter
  holds is closed exactly when its generation is behind the cell's. The callers are the clients of
  the step relation \<open>aq_step\<close>, which interleaves their critical sections in every order.
\<close>

subsection \<open>Data\<close>

record appendSequenceState =
  aq_next :: int
  aq_processing :: bool
  aq_ready :: "nat option"
  aq_updatedAt :: gtime

record appendSequenceTracker =
  tr_states :: "(string, nat) gomap"
  tr_heap :: "appendSequenceState list"

text \<open>The outcome of one turn of the loop in \<open>acquire\<close>.\<close>

datatype acquire_result = AcqStale | AcqGranted | AcqWait nat

definition appendSequenceRetention :: gtime where
  "appendSequenceRetention = 10 * 60 * 1000000000"

subsection \<open>Operations\<close>

definition newAppendSequenceTracker :: appendSequenceTracker where
  "newAppendSequenceTracker = \<lparr>tr_states = [], tr_heap = []\<rparr>"

definition aq_expired :: "appendSequenceState \<Rightarrow> gtime \<Rightarrow> bool" where
  "aq_expired st cutoff =
     (if aq_processing st then False
      else \<not> IsZero (aq_updatedAt st) \<and> aq_updatedAt st < cutoff)"

definition aq_touch :: "appendSequenceState \<Rightarrow> gtime \<Rightarrow> appendSequenceState" where
  "aq_touch st now = st\<lparr>aq_updatedAt := now\<rparr>"

definition heap_get :: "appendSequenceState list \<Rightarrow> nat \<Rightarrow> appendSequenceState option" where
  "heap_get h a = (if a < length h then Some (h ! a) else None)"

text \<open>The sweep of \<open>tracker.state\<close>: entries whose cell is nil or expired are deleted.\<close>

definition sweep_states :: "appendSequenceState list \<Rightarrow> gtime \<Rightarrow> (string, nat) gomap \<Rightarrow> (string, nat) gomap" where
  "sweep_states h cutoff m =
     filter (\<lambda>(k, a). case heap_get h a of None \<Rightarrow> False | Some st \<Rightarrow> \<not> aq_expired st cutoff) m"

definition tracker_state :: "appendSequenceTracker \<Rightarrow> string \<Rightarrow> gtime \<Rightarrow> nat \<times> appendSequenceTracker" where
  "tracker_state tr requestID now =
     (let cutoff = now - appendSequenceRetention;
          m = sweep_states (tr_heap tr) cutoff (tr_states tr)
      in case map_of m requestID of
           Some a \<Rightarrow>
             (a, tr\<lparr>tr_states := m, tr_heap := (tr_heap tr)[a := aq_touch (tr_heap tr ! a) now]\<rparr>)
         | None \<Rightarrow>
             (let a = length (tr_heap tr);
                  st = \<lparr>aq_next = 1, aq_processing = False, aq_ready = Some 0, aq_updatedAt = now\<rparr>
              in (a, tr\<lparr>tr_states := AList.update requestID a m, tr_heap := tr_heap tr @ [st]\<rparr>)))"

definition aq_acquire :: "appendSequenceState \<Rightarrow> int \<Rightarrow> gtime \<Rightarrow> acquire_result \<times> appendSequenceState" where
  "aq_acquire st0 appendSeq now =
     (let st1 = (if aq_next st0 \<le> 0 then st0\<lparr>aq_next := 1\<rparr> else st0);
          st2 = (if aq_ready st1 = None then st1\<lparr>aq_ready := Some 0\<rparr> else st1);
          st = st2\<lparr>aq_updatedAt := now\<rparr>
      in if appendSeq = 1 \<and> 1 < aq_next st then
           (if aq_processing st then (AcqWait (the (aq_ready st)), st)
            else (AcqGranted, st\<lparr>aq_next := 1, aq_processing := True\<rparr>))
         else if appendSeq < aq_next st then (AcqStale, st)
         else if appendSeq = aq_next st \<and> \<not> aq_processing st then
           (AcqGranted, st\<lparr>aq_processing := True\<rparr>)
         else (AcqWait (the (aq_ready st)), st))"

text \<open>
  \<open>Release\<close> gives \<open>None\<close> where the Go code would panic: closing a nil channel. A nil state, the
  receiver's other guard, is an address outside the heap and is handled by \<open>ticket_Release\<close>.
\<close>

definition aq_Release :: "appendSequenceState \<Rightarrow> int \<Rightarrow> gtime \<Rightarrow> appendSequenceState option" where
  "aq_Release st seq now =
     (if seq \<le> 0 then Some st
      else if aq_processing st \<and> aq_next st = seq then
        (case aq_ready st of
           None \<Rightarrow> None
         | Some g \<Rightarrow> Some (st\<lparr>aq_processing := False, aq_next := aq_next st + 1,
                            aq_ready := Some (Suc g), aq_updatedAt := now\<rparr>))
      else Some (st\<lparr>aq_updatedAt := now\<rparr>))"

text \<open>A ticket is the address of its cell and its number; \<open>None\<close> is the zero ticket.\<close>

definition ticket_Release ::
  "appendSequenceTracker \<Rightarrow> (nat \<times> int) option \<Rightarrow> gtime \<Rightarrow> appendSequenceTracker option" where
  "ticket_Release tr ticket now =
     (case ticket of
        None \<Rightarrow> Some tr
      | Some (a, seq) \<Rightarrow>
          (if seq \<le> 0 then Some tr
           else case heap_get (tr_heap tr) a of
                  None \<Rightarrow> Some tr
                | Some st \<Rightarrow>
                    map_option (\<lambda>st'. tr\<lparr>tr_heap := (tr_heap tr)[a := st']\<rparr>) (aq_Release st seq now)))"

text \<open>
  The first part of \<open>Acquire\<close>: requests without an id or a number are let through without a ticket
  (\<open>None\<close>); the others go on to \<open>acquire\<close> on the cell of their request.
\<close>

definition tracker_Acquire ::
  "appendSequenceTracker \<Rightarrow> string \<Rightarrow> int \<Rightarrow> gtime \<Rightarrow> nat option \<times> appendSequenceTracker" where
  "tracker_Acquire tr requestID appendSeq now =
     (if TrimSpace requestID = '''' \<or> appendSeq \<le> 0 then (None, tr)
      else let (a, tr') = tracker_state tr (TrimSpace requestID) now in (Some a, tr'))"

subsection \<open>The concurrent system\<close>

text \<open>
  Where a caller is: outside, between two turns of the loop, blocked on a channel, or working
  with the ticket (\<open>Untracked\<close> for the zero ticket).
\<close>

datatype acq_pc = Outside | Trying nat int | Blocked nat int nat | Holding nat int | Untracked

record aq_sys =
  sy_tracker :: appendSequenceTracker
  sy_pcs :: "nat \<Rightarrow> acq_pc"
  sy_grants :: "(nat \<times> int) list"

definition aq_init :: "aq_sys \<Rightarrow> bool" where
  "aq_init s \<longleftrightarrow>
     sy_tracker s = newAppendSequenceTracker \<and> sy_pcs s = (\<lambda>_. Outside) \<and> sy_grants s = []"

abbreviation cell :: "aq_sys \<Rightarrow> nat \<Rightarrow> appendSequenceState" where
  "cell s a \<equiv> tr_heap (sy_tracker s) ! a"

abbreviation n_cells :: "aq_sys \<Rightarrow> nat" where
  "n_cells s \<equiv> length (tr_heap (sy_tracker s))"

definition set_cell :: "aq_sys \<Rightarrow> nat \<Rightarrow> appendSequenceState \<Rightarrow> aq_sys" where
  "set_cell s a st = s\<lparr>sy_tracker := (sy_tracker s)\<lparr>tr_heap := (tr_heap (sy_tracker s))[a := st]\<rparr>\<rparr>"

definition set_pc :: "aq_sys \<Rightarrow> nat \<Rightarrow> acq_pc \<Rightarrow> aq_sys" where
  "set_pc s c pc = s\<lparr>sy_pcs := (sy_pcs s)(c := pc)\<rparr>"

definition attempt :: "aq_sys \<Rightarrow> nat \<Rightarrow> nat \<Rightarrow> int \<Rightarrow> gtime \<Rightarrow> aq_sys" where
  "attempt s c a seq now =
     (case aq_acquire (cell s a) seq now of
        (AcqStale, st) \<Rightarrow> set_pc (set_cell s a st) c Outside
      | (AcqGranted, st) \<Rightarrow>
          (set_pc (set_cell s a st) c (Holding a seq))\<lparr>sy_grants := sy_grants s @ [(a, seq)]\<rparr>
      | (AcqWait ch, st) \<Rightarrow> set_pc (set_cell s a st) c (Blocked a seq ch))"

inductive aq_step :: "aq_sys \<Rightarrow> aq_sys \<Rightarrow> bool" where
  enter: "sy_pcs s c = Outside \<Longrightarrow> tracker_Acquire (sy_tracker s) r seq now = (Some a, tr) \<Longrightarrow>
    aq_step s (set_pc (s\<lparr>sy_tracker := tr\<rparr>) c (Trying a seq))"
| enter_untracked: "sy_pcs s c = Outside \<Longrightarrow> tracker_Acquire (sy_tracker s) r seq now = (None, tr) \<Longrightarrow>
    aq_step s (set_pc (s\<lparr>sy_tracker := tr\<rparr>) c Untracked)"
| turn: "sy_pcs s c = Trying a seq \<Longrightarrow> aq_step s (attempt s c a seq now)"
| wake: "sy_pcs s c = Blocked a seq ch \<Longrightarrow> aq_ready (cell s a) = Some g \<Longrightarrow> ch < g \<Longrightarrow>
    aq_step s (set_pc s c (Trying a seq))"
| cancel: "sy_pcs s c = Blocked a seq ch \<Longrightarrow> aq_step s (set_pc s c Outside)"
| release: "sy_pcs s c = Holding a seq \<Longrightarrow>
    ticket_Release (sy_tracker s) (Some (a, seq)) now = Some tr \<Longrightarrow>
    aq_step s (set_pc (s\<lparr>sy_tracker := tr\<rparr>) c Outside)"
| release_untracked: "sy_pcs s c = Untracked \<Longrightarrow> aq_step s (set_pc s c Outside)"

subsection \<open>The critical section\<close>

text \<open>
  What the loop relies on between its turns: a positive next number and a live channel. Every cell
  the tracker makes has both, so \<open>acquire\<close>'s two repairs never fire on a tracked cell.
\<close>

definition cell_ok :: "appendSequenceState \<Rightarrow> bool" where
  "cell_ok st \<longleftrightarrow> 1 \<le> aq_next st \<and> aq_ready st \<noteq> None"

text \<open>When a turn of the loop grants, and what it leaves behind.\<close>

definition grantable :: "appendSequenceState \<Rightarrow> int \<Rightarrow> bool" where
  "grantable st seq \<longleftrightarrow> \<not> aq_processing st \<and> (seq = aq_next st \<or> seq = 1)"

lemma aq_acquire_grantable:
  assumes "cell_ok st" "grantable st seq"
  shows "aq_acquire st seq now =
    (AcqGranted, st\<lparr>aq_next := seq, aq_processing := True, aq_updatedAt := now\<rparr>)"
  using assms by (auto simp: aq_acquire_def cell_ok_def grantable_def Let_def)

lemma aq_acquire_not_grantable:
  assumes "cell_ok st" "\<not> grantable st seq"
  shows "aq_acquire st seq now =
    (if seq < aq_next st \<and> seq \<noteq> 1 then AcqStale else AcqWait (the (aq_ready st)),
     st\<lparr>aq_updatedAt := now\<rparr>)"
  using assms by (auto simp: aq_acquire_def cell_ok_def grantable_def Let_def)

lemmas aq_acquire_cases = aq_acquire_grantable aq_acquire_not_grantable

lemma aq_Release_holder:
  assumes "cell_ok st" "aq_processing st" "aq_next st = seq"
  shows "aq_Release st seq now =
    Some (st\<lparr>aq_processing := False, aq_next := seq + 1, aq_ready := Some (Suc (the (aq_ready st))),
             aq_updatedAt := now\<rparr>)"
  using assms by (auto simp: aq_Release_def cell_ok_def)

subsection \<open>The tracker's map\<close>

lemma in_sweep_iff:
  "(k, a) \<in> set (sweep_states h cutoff m) \<longleftrightarrow>
     (k, a) \<in> set m \<and> a < length h \<and> \<not> aq_expired (h ! a) cutoff"
  by (auto simp: sweep_states_def heap_get_def split: if_splits)

lemma gomap_ok_sweep: "gomap_ok m \<Longrightarrow> gomap_ok (sweep_states h cutoff m)"
  unfolding sweep_states_def by (rule distinct_map_filter)

lemma map_of_sweep:
  assumes "gomap_ok m"
  shows "map_of (sweep_states h cutoff m) k = Some a \<longleftrightarrow>
     map_of m k = Some a \<and> a < length h \<and> \<not> aq_expired (h ! a) cutoff"
  using assms by (simp add: gomap_lookup_iff gomap_ok_sweep in_sweep_iff)

lemma tracker_state_heap:
  assumes "tracker_state tr r now = (a, tr')"
  shows "a < length (tr_heap tr') \<and>
     (tr_heap tr' = tr_heap tr @ [\<lparr>aq_next = 1, aq_processing = False, aq_ready = Some 0, aq_updatedAt = now\<rparr>]
        \<and> a = length (tr_heap tr) \<or>
      a < length (tr_heap tr) \<and> tr_heap tr' = (tr_heap tr)[a := aq_touch (tr_heap tr ! a) now])"
proof (cases "map_of (sweep_states (tr_heap tr) (now - appendSequenceRetention) (tr_states tr)) r")
  case None
  with assms show ?thesis by (auto simp: tracker_state_def Let_def)
next
  case (Some b)
  then have "(r, b) \<in> set (sweep_states (tr_heap tr) (now - appendSequenceRetention) (tr_states tr))"
    by (rule map_of_SomeD)
  with assms Some show ?thesis by (auto simp: tracker_state_def Let_def in_sweep_iff)
qed

lemma tracker_state_keeps_ok:
  "gomap_ok (tr_states tr) \<Longrightarrow> tracker_state tr r now = (a, tr') \<Longrightarrow> gomap_ok (tr_states tr')"
  by (auto simp: tracker_state_def Let_def gomap_ok_sweep split: option.splits)

subsection \<open>The invariant\<close>

fun in_order_from :: "int \<Rightarrow> int list \<Rightarrow> bool" where
  "in_order_from n [] = True"
| "in_order_from n (x # xs) = ((x = n \<or> x = 1) \<and> in_order_from (x + 1) xs)"

definition expected :: "int list \<Rightarrow> int" where
  "expected gs = (if gs = [] then 1 else last gs + 1)"

lemma in_order_from_snoc:
  "in_order_from n (gs @ [x]) \<longleftrightarrow>
     in_order_from n gs \<and> (x = (if gs = [] then n else last gs + 1) \<or> x = 1)"
  by (induction n gs rule: in_order_from.induct) auto

definition grants_of :: "(nat \<times> int) list \<Rightarrow> nat \<Rightarrow> int list" where
  "grants_of gs a = map snd (filter (\<lambda>g. fst g = a) gs)"

lemma grants_of_snoc [simp]:
  "grants_of (gs @ [(b, x)]) a = (if b = a then grants_of gs a @ [x] else grants_of gs a)"
  by (simp add: grants_of_def)

text \<open>One caller's position against the cell it works on.\<close>

fun pc_ok :: "appendSequenceState list \<Rightarrow> acq_pc \<Rightarrow> bool" where
  "pc_ok h Outside = True"
| "pc_ok h Untracked = True"
| "pc_ok h (Trying a seq) = (a < length h \<and> 0 < seq)"
| "pc_ok h (Blocked a seq ch) =
     (a < length h \<and> 0 < seq \<and> ch \<le> the (aq_ready (h ! a)) \<and>
      (ch = the (aq_ready (h ! a)) \<longrightarrow> aq_processing (h ! a) \<or> aq_next (h ! a) < seq))"
| "pc_ok h (Holding a seq) =
     (a < length h \<and> 0 < seq \<and> aq_processing (h ! a) \<and> aq_next (h ! a) = seq)"

text \<open>The cell against the numbers it has granted so far.\<close>

definition ledger_ok :: "appendSequenceState \<Rightarrow> int list \<Rightarrow> bool" where
  "ledger_ok st gs \<longleftrightarrow> in_order_from 1 gs \<and>
     (if aq_processing st then gs \<noteq> [] \<and> last gs = aq_next st else aq_next st = expected gs)"

definition aq_inv :: "aq_sys \<Rightarrow> bool" where
  "aq_inv s \<longleftrightarrow>
     (\<forall>a < n_cells s. cell_ok (cell s a) \<and> ledger_ok (cell s a) (grants_of (sy_grants s) a)) \<and>
     (\<forall>a \<ge> n_cells s. grants_of (sy_grants s) a = []) \<and>
     (\<forall>c. pc_ok (tr_heap (sy_tracker s)) (sy_pcs s c)) \<and>
     (\<forall>c d a x y. sy_pcs s c = Holding a x \<longrightarrow> sy_pcs s d = Holding a y \<longrightarrow> c = d) \<and>
     (\<forall>a < n_cells s. aq_processing (cell s a) \<longrightarrow> (\<exists>c. sy_pcs s c = Holding a (aq_next (cell s a))))"

lemma pc_ok_append: "pc_ok h pc \<Longrightarrow> pc_ok (h @ [st]) pc"
  by (cases pc) (auto simp: nth_append)

lemma pc_ok_touch: "pc_ok h pc \<Longrightarrow> pc_ok (h[a := (h ! a)\<lparr>aq_updatedAt := now\<rparr>]) pc"
  by (cases "a < length h"; cases pc) (auto simp: nth_list_update_iff list_update_beyond)

lemma ledger_ok_touch [simp]: "ledger_ok (st\<lparr>aq_updatedAt := now\<rparr>) gs = ledger_ok st gs"
  by (simp add: ledger_ok_def)

lemma cell_ok_touch [simp]: "cell_ok (st\<lparr>aq_updatedAt := now\<rparr>) = cell_ok st"
  by (simp add: cell_ok_def)

lemma aq_inv_set_pc:
  assumes "aq_inv s" "\<And>a x. sy_pcs s c \<noteq> Holding a x" "\<And>a x. pc \<noteq> Holding a x"
    and "pc_ok (tr_heap (sy_tracker s)) pc"
  shows "aq_inv (set_pc s c pc)"
  using assms unfolding aq_inv_def set_pc_def by (auto split: if_splits) metis

lemma aq_invD:
  assumes "aq_inv s"
  shows "a < n_cells s \<Longrightarrow> cell_ok (cell s a)"
    and "a < n_cells s \<Longrightarrow> ledger_ok (cell s a) (grants_of (sy_grants s) a)"
    and "n_cells s \<le> a \<Longrightarrow> grants_of (sy_grants s) a = []"
    and "pc_ok (tr_heap (sy_tracker s)) (sy_pcs s c)"
    and "sy_pcs s c = Holding a x \<Longrightarrow> sy_pcs s d = Holding a y \<Longrightarrow> c = d"
    and "a < n_cells s \<Longrightarrow> aq_processing (cell s a) \<Longrightarrow> \<exists>c. sy_pcs s c = Holding a (aq_next (cell s a))"
  using assms unfolding aq_inv_def by blast+

lemma aq_inv_touch:
  assumes "aq_inv s" "a < n_cells s"
    and "tr_heap tr = (tr_heap (sy_tracker s))[a := (cell s a)\<lparr>aq_updatedAt := now\<rparr>]"
  shows "aq_inv (s\<lparr>sy_tracker := tr\<rparr>)"
  using assms unfolding aq_inv_def
  by (auto simp: nth_list_update_iff pc_ok_touch split: if_splits)

lemma aq_inv_alloc:
  assumes "aq_inv s"
    and "tr_heap tr = tr_heap (sy_tracker s) @
      [\<lparr>aq_next = 1, aq_processing = False, aq_ready = Some 0, aq_updatedAt = now\<rparr>]"
  shows "aq_inv (s\<lparr>sy_tracker := tr\<rparr>)"
  using assms unfolding aq_inv_def
  by (auto simp: nth_append pc_ok_append less_Suc_eq cell_ok_def ledger_ok_def expected_def)

lemma tracker_Acquire_SomeD:
  assumes "tracker_Acquire tr r seq now = (Some a, tr')"
  shows "0 < seq \<and> tracker_state tr (TrimSpace r) now = (a, tr')"
  using assms by (auto simp: tracker_Acquire_def split: if_splits prod.splits)

lemma aq_inv_enter:
  assumes inv: "aq_inv s" and out: "sy_pcs s c = Outside"
    and acq: "tracker_Acquire (sy_tracker s) r seq now = (Some a, tr)"
  shows "aq_inv (set_pc (s\<lparr>sy_tracker := tr\<rparr>) c (Trying a seq))"
proof -
  from tracker_Acquire_SomeD [OF acq] have pos: "0 < seq"
    and st: "tracker_state (sy_tracker s) (TrimSpace r) now = (a, tr)" by auto
  have "aq_inv (s\<lparr>sy_tracker := tr\<rparr>)"
    using tracker_state_heap [OF st] aq_inv_alloc [OF inv, of tr now] aq_inv_touch [OF inv, of a tr now]
    by (auto simp: aq_touch_def)
  then show ?thesis
    by (rule aq_inv_set_pc) (use out pos tracker_state_heap [OF st] in auto)
qed

lemma aq_inv_write_cell:
  assumes inv: "aq_inv s" and a: "a < n_cells s"
    and ok: "cell_ok st" and led: "ledger_ok st (grants_of gs a)"
    and others: "\<And>b. b \<noteq> a \<Longrightarrow> grants_of gs b = grants_of (sy_grants s) b"
    and pcs: "\<And>d. pc_ok ((tr_heap (sy_tracker s))[a := st]) (((sy_pcs s)(c := pc)) d)"
    and c: "\<And>b x. b \<noteq> a \<Longrightarrow> sy_pcs s c \<noteq> Holding b x \<and> pc \<noteq> Holding b x"
    and own: "\<And>d x. sy_pcs s d = Holding a x \<Longrightarrow> d = c"
    and hold: "aq_processing st \<Longrightarrow> pc = Holding a (aq_next st)"
    and t: "tr_heap (sy_tracker t) = (tr_heap (sy_tracker s))[a := st]"
      "sy_pcs t = (sy_pcs s)(c := pc)" "sy_grants t = gs"
  shows "aq_inv t"
  unfolding aq_inv_def t
proof (intro conjI allI impI)
  fix b assume "b < length ((tr_heap (sy_tracker s))[a := st])"
  then show "cell_ok ((tr_heap (sy_tracker s))[a := st] ! b)"
    and "ledger_ok ((tr_heap (sy_tracker s))[a := st] ! b) (grants_of gs b)"
    using aq_invD(1,2) [OF inv, of b] ok led others a by (auto simp: nth_list_update_iff)
next
  fix b assume "length ((tr_heap (sy_tracker s))[a := st]) \<le> b"
  then show "grants_of gs b = []" using aq_invD(3) [OF inv, of b] others [of b] a by auto
next
  fix d show "pc_ok ((tr_heap (sy_tracker s))[a := st]) (((sy_pcs s)(c := pc)) d)" by (rule pcs)
next
  fix d e b x y
  assume "((sy_pcs s)(c := pc)) d = Holding b x" "((sy_pcs s)(c := pc)) e = Holding b y"
  then show "d = e" using aq_invD(5) [OF inv, of d b x e y] c [of b] own
    by (cases "b = a") (auto split: if_splits)
next
  fix b assume b: "b < length ((tr_heap (sy_tracker s))[a := st])"
    and p: "aq_processing ((tr_heap (sy_tracker s))[a := st] ! b)"
  show "\<exists>d. ((sy_pcs s)(c := pc)) d = Holding b (aq_next ((tr_heap (sy_tracker s))[a := st] ! b))"
  proof (cases "b = a")
    case True
    with p hold a show ?thesis by auto
  next
    case False
    with b p a obtain d where "sy_pcs s d = Holding b (aq_next (cell s b))"
      using aq_invD(6) [OF inv, of b] by (auto simp: nth_list_update_iff)
    with False a c show ?thesis by (auto simp: nth_list_update_iff intro!: exI [of _ d])
  qed
qed

lemma aq_inv_turn:
  assumes inv: "aq_inv s" and pc: "sy_pcs s c = Trying a seq"
  shows "aq_inv (attempt s c a seq now)"
proof (cases "grantable (cell s a) seq")
  case True
  have a: "a < n_cells s" "0 < seq"
    using aq_invD(4) [OF inv, of c] pc by auto
  note ok = aq_invD(1) [OF inv a(1)] and led = aq_invD(2) [OF inv a(1)]
  have none: "sy_pcs s d \<noteq> Holding a x" for d x
    using aq_invD(4) [OF inv, of d] True by (auto simp: grantable_def)
  let ?st = "(cell s a)\<lparr>aq_next := seq, aq_processing := True, aq_updatedAt := now\<rparr>"
  have pcs: "pc_ok ((tr_heap (sy_tracker s))[a := ?st]) (sy_pcs s d)" for d
    using aq_invD(4) [OF inv, of d] none [of d] a
    by (cases "sy_pcs s d") (auto simp: nth_list_update_iff)
  have ok': "cell_ok ?st" using ok a by (simp add: cell_ok_def)
  have led': "ledger_ok ?st (grants_of (sy_grants s @ [(a, seq)]) a)"
    using led True by (auto simp: ledger_ok_def grantable_def expected_def in_order_from_snoc)
  have att: "attempt s c a seq now = (set_pc (set_cell s a ?st) c (Holding a seq))
      \<lparr>sy_grants := sy_grants s @ [(a, seq)]\<rparr>"
    by (simp add: attempt_def aq_acquire_grantable [OF ok True])
  show ?thesis unfolding att
  proof (rule aq_inv_write_cell [OF inv a(1) ok' led', where c = c and pc = "Holding a seq"])
    show "pc_ok ((tr_heap (sy_tracker s))[a := ?st]) (((sy_pcs s)(c := Holding a seq)) d)" for d
      using pcs [of d] a by simp
  qed (use pc none in \<open>simp_all add: set_pc_def set_cell_def\<close>)
next
  case False
  have a: "a < n_cells s" "0 < seq"
    using aq_invD(4) [OF inv, of c] pc by auto
  note ok = aq_invD(1) [OF inv a(1)]
  let ?st = "(cell s a)\<lparr>aq_updatedAt := now\<rparr>"
  have "aq_inv (set_cell s a ?st)"
    unfolding set_cell_def by (rule aq_inv_touch [OF inv a(1)]) simp
  then show ?thesis
    unfolding attempt_def aq_acquire_not_grantable [OF ok False] using pc a False
    by (auto simp: set_cell_def grantable_def intro!: aq_inv_set_pc)
qed

lemma aq_inv_release:
  assumes inv: "aq_inv s" and pc: "sy_pcs s c = Holding a seq"
    and rel: "ticket_Release (sy_tracker s) (Some (a, seq)) now = Some tr"
  shows "aq_inv (set_pc (s\<lparr>sy_tracker := tr\<rparr>) c Outside)"
proof -
  have a: "a < n_cells s" "0 < seq" and p: "aq_processing (cell s a)" "aq_next (cell s a) = seq"
    using aq_invD(4) [OF inv, of c] pc by auto
  note ok = aq_invD(1) [OF inv a(1)] and led = aq_invD(2) [OF inv a(1)]
  let ?st = "(cell s a)\<lparr>aq_processing := False, aq_next := seq + 1,
    aq_ready := Some (Suc (the (aq_ready (cell s a)))), aq_updatedAt := now\<rparr>"
  have tr: "tr_heap tr = (tr_heap (sy_tracker s))[a := ?st]"
    using rel a by (auto simp: ticket_Release_def heap_get_def aq_Release_holder [OF ok p])
  have own: "sy_pcs s d = Holding a x \<Longrightarrow> d = c" for d x
    using aq_invD(5) [OF inv, of d a x c seq] pc by simp
  have pcs: "pc_ok ((tr_heap (sy_tracker s))[a := ?st]) (((sy_pcs s)(c := Outside)) d)" for d
    using aq_invD(4) [OF inv, of d] own [of d] a
    by (cases "sy_pcs s d") (auto simp: nth_list_update_iff)
  have ok': "cell_ok ?st" using a by (simp add: cell_ok_def)
  have led': "ledger_ok ?st (grants_of (sy_grants s) a)"
    using led p by (simp add: ledger_ok_def expected_def)
  show ?thesis
  proof (rule aq_inv_write_cell [OF inv a(1) ok' led' _ pcs])
    show "sy_pcs s d = Holding a x \<Longrightarrow> d = c" for d x by (rule own)
  qed (use pc tr in \<open>simp_all add: set_pc_def\<close>)
qed

lemma aq_inv_step:
  assumes inv: "aq_inv s" and step: "aq_step s t"
  shows "aq_inv t"
  using step
proof (cases rule: aq_step.cases)
  case (wake c a seq ch g)
  then show ?thesis using aq_invD(4) [OF inv, of c] inv by (auto intro!: aq_inv_set_pc)
next
  case (enter_untracked c r seq now tr)
  then have "tr = sy_tracker s" by (auto simp: tracker_Acquire_def split: if_splits prod.splits)
  with enter_untracked inv show ?thesis by (auto intro!: aq_inv_set_pc)
next
  case (cancel c a seq ch)
  with inv show ?thesis by (auto intro!: aq_inv_set_pc)
next
  case (release_untracked c)
  with inv show ?thesis by (auto intro!: aq_inv_set_pc)
qed (use inv in \<open>auto intro: aq_inv_enter aq_inv_turn aq_inv_release\<close>)

lemma aq_inv_init: "aq_init s \<Longrightarrow> aq_inv s"
  by (simp add: aq_init_def aq_inv_def newAppendSequenceTracker_def grants_of_def)

interpretation aq: invariant_of aq_init aq_step aq_inv
  by unfold_locales (fact aq_inv_init, fact aq_inv_step)




text \<open>
  C12. No wake-up is lost: a caller blocked on a number whose turn has come (or that would restart
  the sequence) while nobody works holds a channel that is already closed, and it gets the ticket
  in two steps.
\<close>

theorem append_no_lost_wakeup:
  assumes reach: "reach aq_init aq_step s"
    and blocked: "sy_pcs s c = Blocked a seq ch"
    and turn: "grantable (cell s a) seq"
  shows "\<exists>t u. aq_step s t \<and> aq_step t u \<and> sy_pcs u c = Holding a seq"
proof -
  have inv: "aq_inv s" using reach by (rule aq.inv_reach)
  have a: "a < n_cells s" and ch: "ch \<le> the (aq_ready (cell s a))"
    and open_ch: "ch = the (aq_ready (cell s a)) \<longrightarrow> aq_processing (cell s a) \<or> aq_next (cell s a) < seq"
    using aq_invD(4) [OF inv, of c] blocked by auto
  have ok: "cell_ok (cell s a)" by (rule aq_invD(1) [OF inv a])
  then obtain g where g: "aq_ready (cell s a) = Some g" by (auto simp: cell_ok_def)
  have "ch < g" using ch open_ch g turn ok by (force simp: grantable_def cell_ok_def)
  then have 1: "aq_step s (set_pc s c (Trying a seq))" using blocked g by (rule aq_step.wake [rotated 2])
  let ?t = "set_pc s c (Trying a seq)"
  have 2: "aq_step ?t (attempt ?t c a seq 0)" by (rule aq_step.turn) (simp add: set_pc_def)
  have "sy_pcs (attempt ?t c a seq 0) c = Holding a seq"
    using aq_acquire_grantable [OF ok turn] by (simp add: attempt_def set_pc_def set_cell_def)
  with 1 2 show ?thesis by blast
qed

text \<open>
  Releasing a ticket never panics, hands the turn to the next number, and closes the channel
  every waiter of the cell is blocked on.
\<close>

theorem append_release_wakes_all:
  assumes reach: "reach aq_init aq_step s" and hold: "sy_pcs s c = Holding a seq"
  shows "\<exists>tr. ticket_Release (sy_tracker s) (Some (a, seq)) now = Some tr \<and>
     \<not> aq_processing (tr_heap tr ! a) \<and> aq_next (tr_heap tr ! a) = seq + 1 \<and>
     (\<forall>d x ch. sy_pcs s d = Blocked a x ch \<longrightarrow> (\<exists>g. aq_ready (tr_heap tr ! a) = Some g \<and> ch < g))"
proof -
  have inv: "aq_inv s" using reach by (rule aq.inv_reach)
  have a: "a < n_cells s" "0 < seq" and p: "aq_processing (cell s a)" "aq_next (cell s a) = seq"
    using aq_invD(4) [OF inv, of c] hold by auto
  have "ch \<le> the (aq_ready (cell s a))" if "sy_pcs s d = Blocked a x ch" for d x ch
    using aq_invD(4) [OF inv, of d] that by simp
  then show ?thesis
    using a aq_Release_holder [OF aq_invD(1) [OF inv a(1)] p, of now]
    by (auto simp: ticket_Release_def heap_get_def less_Suc_eq_le)
qed

text \<open>
  A cell that is being worked on survives every sweep: as long as a ticket of a request is out,
  each later call for that request is sent to the same cell, however old its last update is.
\<close>

theorem tracker_keeps_processing_cell:
  assumes "gomap_ok (tr_states tr)" "map_of (tr_states tr) r = Some a" "a < length (tr_heap tr)"
    and "aq_processing (tr_heap tr ! a)"
    and "tracker_state tr q now = (b, tr')"
  shows "map_of (tr_states tr') r = Some a \<and> aq_processing (tr_heap tr' ! a) \<and>
     aq_next (tr_heap tr' ! a) = aq_next (tr_heap tr ! a) \<and> (q = r \<longrightarrow> b = a)"
proof -
  let ?m = "sweep_states (tr_heap tr) (now - appendSequenceRetention) (tr_states tr)"
  have r: "map_of ?m r = Some a"
    using assms by (simp add: map_of_sweep aq_expired_def)
  show ?thesis
  proof (cases "map_of ?m q")
    case None
    with r have "q \<noteq> r" by auto
    with None r assms show ?thesis
      by (auto simp: tracker_state_def Let_def map_of_update_gomap nth_append)
  next
    case (Some d)
    then have "d < length (tr_heap tr)" using assms(1) by (simp add: map_of_sweep)
    with Some r assms show ?thesis
      by (auto simp: tracker_state_def Let_def nth_list_update_iff aq_touch_def)
  qed
qed


subsection \<open>A run: two calls of one request\<close>

text \<open>
  Call 1 enters and gets the ticket, call 2 arrives early and blocks, call 1 releases.
\<close>

definition demo_sys :: "appendSequenceState \<Rightarrow> (nat \<Rightarrow> acq_pc) \<Rightarrow> (nat \<times> int) list \<Rightarrow> aq_sys" where
  "demo_sys st pcs gs = \<lparr>sy_tracker = \<lparr>tr_states = [(''r'', 0)], tr_heap = [st]\<rparr>, sy_pcs = pcs, sy_grants = gs\<rparr>"

abbreviation "demo_idle \<equiv> \<lparr>aq_next = 1, aq_processing = False, aq_ready = Some 0, aq_updatedAt = 1\<rparr>"
abbreviation "demo_busy \<equiv> \<lparr>aq_next = 1, aq_processing = True, aq_ready = Some 0, aq_updatedAt = 1\<rparr>"
abbreviation "demo_next \<equiv> \<lparr>aq_next = 2, aq_processing = False, aq_ready = Some 1, aq_updatedAt = 1\<rparr>"

lemma TrimSpace_r: "TrimSpace ''r'' = ''r''"
  by code_simp

lemma demo_hold_reach:
  "reach aq_init aq_step (demo_sys demo_busy ((\<lambda>_. Outside)(0 := Holding 0 1)) [(0, 1)])"
proof -
  let ?s0 = "\<lparr>sy_tracker = newAppendSequenceTracker, sy_pcs = (\<lambda>_. Outside), sy_grants = []\<rparr> :: aq_sys"
  let ?s1 = "demo_sys demo_idle ((\<lambda>_. Outside)(0 := Trying 0 1)) []"
  have "reach aq_init aq_step ?s0" by (rule reach_start) (simp add: aq_init_def)
  moreover have "aq_step ?s0 ?s1"
    using aq_step.enter [of ?s0 0 "''r''" 1 1 0 "sy_tracker ?s1"]
    by (simp add: demo_sys_def tracker_Acquire_def TrimSpace_r tracker_state_def sweep_states_def
        newAppendSequenceTracker_def set_pc_def)
  moreover have "aq_step ?s1 (demo_sys demo_busy ((\<lambda>_. Outside)(0 := Holding 0 1)) [(0, 1)])"
    using aq_step.turn [of ?s1 0 0 1 1]
    by (simp add: demo_sys_def attempt_def aq_acquire_def set_pc_def set_cell_def)
  ultimately show ?thesis by (blast intro: reach_step)
qed

lemma demo_blocked_reach:
  "reach aq_init aq_step
     (demo_sys demo_busy ((\<lambda>_. Outside)(0 := Holding 0 1, 1 := Blocked 0 2 0)) [(0, 1)])"
proof -
  let ?s2 = "demo_sys demo_busy ((\<lambda>_. Outside)(0 := Holding 0 1)) [(0, 1)]"
  let ?s3 = "demo_sys demo_busy ((\<lambda>_. Outside)(0 := Holding 0 1, 1 := Trying 0 2)) [(0, 1)]"
  have "aq_step ?s2 ?s3"
    using aq_step.enter [of ?s2 1 "''r''" 2 1 0 "sy_tracker ?s3"]
    by (simp add: demo_sys_def tracker_Acquire_def TrimSpace_r tracker_state_def sweep_states_def
        heap_get_def aq_expired_def aq_touch_def set_pc_def)
  moreover have "aq_step ?s3
      (demo_sys demo_busy ((\<lambda>_. Outside)(0 := Holding 0 1, 1 := Blocked 0 2 0)) [(0, 1)])"
    using aq_step.turn [of ?s3 1 0 2 1]
    by (simp add: demo_sys_def attempt_def aq_acquire_def set_pc_def set_cell_def)
  ultimately show ?thesis using demo_hold_reach by (blast intro: reach_step)
qed

lemma demo_released_reach:
  "reach aq_init aq_step (demo_sys demo_next ((\<lambda>_. Outside)(0 := Outside, 1 := Blocked 0 2 0)) [(0, 1)])"
proof -
  let ?s4 = "demo_sys demo_busy ((\<lambda>_. Outside)(0 := Holding 0 1, 1 := Blocked 0 2 0)) [(0, 1)]"
  let ?s5 = "demo_sys demo_next ((\<lambda>_. Outside)(0 := Outside, 1 := Blocked 0 2 0)) [(0, 1)]"
  have "aq_step ?s4 ?s5"
    using aq_step.release [of ?s4 0 0 1 1 "sy_tracker ?s5"]
    by (simp add: demo_sys_def ticket_Release_def heap_get_def aq_Release_def set_pc_def fun_upd_twist)
  then show ?thesis using demo_blocked_reach by (blast intro: reach_step)
qed



theorem append_no_lost_wakeup_witness:
  "\<exists>t u. aq_step (demo_sys demo_next ((\<lambda>_. Outside)(0 := Outside, 1 := Blocked 0 2 0)) [(0, 1)]) t \<and> aq_step t u \<and>
     sy_pcs u 1 = Holding 0 2"
  by (rule append_no_lost_wakeup [OF demo_released_reach, of 1 0 2 0])
    (simp_all add: demo_sys_def grantable_def)

theorem append_release_wakes_all_witness:
  "\<exists>tr. ticket_Release \<lparr>tr_states = [(''r'', 0)], tr_heap = [demo_busy]\<rparr> (Some (0, 1)) 1 = Some tr \<and>
     aq_next (tr_heap tr ! 0) = 2"
  using append_release_wakes_all [OF demo_blocked_reach, of 0 0 1 1] by (auto simp: demo_sys_def)

theorem tracker_keeps_processing_cell_witness:
  "map_of (tr_states (snd (tracker_state \<lparr>tr_states = [(''r'', 0)], tr_heap = [demo_busy]\<rparr> ''q''
      (2 * appendSequenceRetention)))) ''r'' = Some 0"
  using tracker_keeps_processing_cell
    [of "\<lparr>tr_states = [(''r'', 0)], tr_heap = [demo_busy]\<rparr>" "''r''" 0 "''q''" "2 * appendSequenceRetention"
      "fst (tracker_state \<lparr>tr_states = [(''r'', 0)], tr_heap = [demo_busy]\<rparr> ''q'' (2 * appendSequenceRetention))"
      "snd (tracker_state \<lparr>tr_states = [(''r'', 0)], tr_heap = [demo_busy]\<rparr> ''q'' (2 * appendSequenceRetention))"]
  by simp

end
