(* ===== verification/Go_Json.thy ===== *)
theory Go_Json
  imports Go_Strings
begin

text \<open>
  JSON as the sources see it through \<open>encoding/json\<close>: values decoded into \<open>any\<close>, and the decoding of
  an object into a struct or a \<open>map[string]any\<close>. A number is represented by the integer that
  \<open>int64(float64)\<close> makes of it, the only thing the sources read of one. A raw message is empty, bytes
  that are not JSON, or the value its bytes denote; an object keeps its members in input order, with
  repeated names.
\<close>

datatype json =
    JNull
  | JBool bool
  | JNum int
  | JStr string
  | JArr "json list"
  | JObj "(string \<times> json) list"

datatype raw_json = RawEmpty | RawInvalid | RawValue json

text \<open>A decoded \<open>map[string]any\<close>: of repeated names the last counts.\<close>

definition obj_get :: "(string \<times> json) list \<Rightarrow> string \<Rightarrow> json option" where
  "obj_get members k = map_of (rev members) k"

text \<open>
  Member names match struct fields up to case: ASCII letters, and the two other runes that fold to
  ASCII ones (U+017F to \<open>s\<close>, U+212A to \<open>k\<close>).
\<close>

fun fold_name :: "string \<Rightarrow> string" where
  "fold_name [] = []"
| "fold_name (a # xs) =
     (if has_prefix (a # xs) [CHR 0xC5, CHR 0xBF] then CHR ''s'' # fold_name (drop 1 xs)
      else if has_prefix (a # xs) [CHR 0xE2, CHR 0x84, CHR 0xAA] then CHR ''k'' # fold_name (drop 2 xs)
      else lower_char a # fold_name xs)"

definition members_of :: "(string \<times> json) list \<Rightarrow> string \<Rightarrow> json list" where
  "members_of members field = map snd (filter (\<lambda>(k, v). k = field \<or> fold_name k = fold_name field) members)"

text \<open>
  A string field takes the last string given for it; \<open>null\<close> leaves it as it is and any other type is
  an error (\<open>None\<close>).
\<close>

fun string_field :: "string \<Rightarrow> json list \<Rightarrow> string option" where
  "string_field cur [] = Some cur"
| "string_field cur (JStr s # vs) = string_field s vs"
| "string_field cur (JNull # vs) = string_field cur vs"
| "string_field cur (_ # vs) = None"

text \<open>A map field: an object adds its members to those already there, \<open>null\<close> clears the map.\<close>

fun map_field :: "(string \<times> json) list \<Rightarrow> json list \<Rightarrow> (string \<times> json) list option" where
  "map_field cur [] = Some cur"
| "map_field cur (JObj ms # vs) = map_field (cur @ ms) vs"
| "map_field cur (JNull # vs) = map_field [] vs"
| "map_field cur (_ # vs) = None"

text \<open>The members a struct is decoded from; \<open>null\<close> decodes to the zero struct.\<close>

fun struct_members :: "raw_json \<Rightarrow> (string \<times> json) list option" where
  "struct_members (RawValue (JObj ms)) = Some ms"
| "struct_members (RawValue JNull) = Some []"
| "struct_members _ = None"

text \<open>All string fields of a struct, decoded: an error in any of them fails the decoding.\<close>

fun string_fields :: "(string \<times> json) list \<Rightarrow> string list \<Rightarrow> string list option" where
  "string_fields ms [] = Some []"
| "string_fields ms (f # fs) =
     (case string_field [] (members_of ms f) of
        None \<Rightarrow> None
      | Some s \<Rightarrow> map_option (\<lambda>r. s # r) (string_fields ms fs))"

text \<open>\<open>strconv.ParseBool\<close> and \<open>strconv.ParseInt(_, 10, 64)\<close>, with their errors ignored by the callers.\<close>

definition ParseBool :: "string \<Rightarrow> bool" where
  "ParseBool s \<longleftrightarrow> s \<in> {''1'', ''t'', ''T'', ''TRUE'', ''true'', ''True''}"

definition digit_value :: "char \<Rightarrow> int option" where
  "digit_value c = (let n = of_char c :: nat in if 48 \<le> n \<and> n \<le> 57 then Some (int n - 48) else None)"

fun parse_digits :: "int \<Rightarrow> string \<Rightarrow> int option" where
  "parse_digits acc [] = Some acc"
| "parse_digits acc (c # cs) =
     (case digit_value c of None \<Rightarrow> None | Some d \<Rightarrow> parse_digits (10 * acc + d) cs)"

definition ParseInt64 :: "string \<Rightarrow> int" where
  "ParseInt64 s =
     (let (neg, ds) = (case s of c # cs \<Rightarrow> if c = CHR ''-'' then (True, cs)
                                          else if c = CHR ''+'' then (False, cs) else (False, s)
                       | [] \<Rightarrow> (False, []))
      in if ds = [] then 0
         else case parse_digits 0 ds of
                None \<Rightarrow> 0
              | Some n \<Rightarrow> (if neg then max (- n) (- (2 ^ 63)) else min n (2 ^ 63 - 1)))"

end
