(* ===== verification/Todo_State.thy ===== *)
theory Todo_State
  imports Go_Json "HOL-Library.Char_ord" "HOL-Library.List_Lexorder"
begin

text \<open>
  The todo list of a conversation: \<open>state_tools.go\<close> and the \<open>TodoWrite\<close> handler of
  \<open>interaction_tools.go\<close>. A todo list is not stored; it is recomputed from the tool results in the
  history, so the handler's answer and the recomputation have to agree. A list of todo items decoded
  from protobuf has no nil element, so the nil checks of the sources have no counterpart here.
\<close>

record TodoItem =
  td_Id :: string
  td_Content :: string
  td_Status :: int
  td_CreatedAt :: int
  td_UpdatedAt :: int
  td_Dependencies :: "string list"

abbreviation (input) "TODO_STATUS_UNSPECIFIED \<equiv> (0 :: int)"
abbreviation (input) "TODO_STATUS_PENDING \<equiv> (1 :: int)"
abbreviation (input) "TODO_STATUS_IN_PROGRESS \<equiv> (2 :: int)"
abbreviation (input) "TODO_STATUS_COMPLETED \<equiv> (3 :: int)"
abbreviation (input) "TODO_STATUS_CANCELLED \<equiv> (4 :: int)"

datatype todo_error =
    TodoIdRequired
  | TodoContentRequired
  | TodoContentRequiredForNew
  | TodoItemNotObject
  | TodoStatusUnsupported string
  | TodoStatusUnsupportedType
  | TodoArgsNotObject
  | TodoUnsafeReplace "string list"

subsection \<open>Decoding arguments\<close>

definition decodeJSONObject :: "raw_json \<Rightarrow> (string \<times> json) list option" where
  "decodeJSONObject raw = (case raw of RawEmpty \<Rightarrow> Some [] | _ \<Rightarrow> struct_members raw)"

fun valueByAliasWithPresence :: "(string \<times> json) list \<Rightarrow> string list \<Rightarrow> json \<times> bool" where
  "valueByAliasWithPresence values [] = (JNull, False)"
| "valueByAliasWithPresence values (a # as) =
     (if a = [] then valueByAliasWithPresence values as
      else case obj_get values a of
             Some v \<Rightarrow> (v, True)
           | None \<Rightarrow> valueByAliasWithPresence values as)"

definition valueByAlias :: "(string \<times> json) list \<Rightarrow> string list \<Rightarrow> json" where
  "valueByAlias values aliases = fst (valueByAliasWithPresence values aliases)"

fun stringValue :: "json \<Rightarrow> string" where
  "stringValue (JStr s) = TrimSpace s"
| "stringValue _ = []"

fun boolValue :: "json \<Rightarrow> bool" where
  "boolValue (JBool b) = b"
| "boolValue (JStr s) = ParseBool (TrimSpace s)"
| "boolValue _ = False"

fun int64Value :: "json \<Rightarrow> int" where
  "int64Value (JNum n) = n"
| "int64Value (JStr s) = ParseInt64 (TrimSpace s)"
| "int64Value _ = 0"

fun stringSliceValue :: "json \<Rightarrow> string list" where
  "stringSliceValue (JArr items) = filter (\<lambda>t. t \<noteq> []) (map stringValue items)"
| "stringSliceValue _ = []"

definition todoStatusFromString :: "string \<Rightarrow> todo_error + int" where
  "todoStatusFromString raw =
     (let t = ToLower (TrimSpace raw)
      in if t \<in> {[], ''unspecified'', ''todo_status_unspecified''} then Inr TODO_STATUS_UNSPECIFIED
         else if t \<in> {''pending'', ''todo_status_pending''} then Inr TODO_STATUS_PENDING
         else if t \<in> {''in_progress'', ''in-progress'', ''inprogress'', ''todo_status_in_progress''}
         then Inr TODO_STATUS_IN_PROGRESS
         else if t \<in> {''completed'', ''complete'', ''todo_status_completed''} then Inr TODO_STATUS_COMPLETED
         else if t \<in> {''cancelled'', ''canceled'', ''todo_status_cancelled''} then Inr TODO_STATUS_CANCELLED
         else Inl (TodoStatusUnsupported raw))"

text \<open>A number becomes a 32-bit enum value.\<close>

fun todoStatusFromValue :: "json \<Rightarrow> todo_error + int" where
  "todoStatusFromValue JNull = Inr TODO_STATUS_UNSPECIFIED"
| "todoStatusFromValue (JNum n) = Inr (sint (word_of_int n :: u32))"
| "todoStatusFromValue (JStr s) = todoStatusFromString s"
| "todoStatusFromValue _ = Inl TodoStatusUnsupportedType"

definition todoStatusLabel :: "int \<Rightarrow> string" where
  "todoStatusLabel status =
     (if status = TODO_STATUS_PENDING then ''pending''
      else if status = TODO_STATUS_IN_PROGRESS then ''in_progress''
      else if status = TODO_STATUS_COMPLETED then ''completed''
      else if status = TODO_STATUS_CANCELLED then ''cancelled''
      else ''unspecified'')"

definition decode_todo_item :: "bool \<Rightarrow> json \<Rightarrow> todo_error + TodoItem" where
  "decode_todo_item validate raw =
     (case raw of
        JObj item \<Rightarrow>
          (case todoStatusFromValue (valueByAlias item [''status'']) of
             Inl e \<Rightarrow> Inl e
           | Inr status \<Rightarrow>
               (let todo = \<lparr>td_Id = TrimSpace (stringValue (valueByAlias item [''id''])),
                            td_Content = TrimSpace (stringValue (valueByAlias item [''content''])),
                            td_Status = status,
                            td_CreatedAt = int64Value (valueByAlias item [''created_at'', ''createdAt'']),
                            td_UpdatedAt = int64Value (valueByAlias item [''updated_at'', ''updatedAt'']),
                            td_Dependencies = stringSliceValue (valueByAlias item [''dependencies''])\<rparr>
                in if validate \<and> td_Id todo = [] then Inl TodoIdRequired
                   else if validate \<and> td_Content todo = [] then Inl TodoContentRequired
                   else Inr todo))
      | _ \<Rightarrow> Inl TodoItemNotObject)"

fun decode_todo_items :: "bool \<Rightarrow> json list \<Rightarrow> todo_error + TodoItem list" where
  "decode_todo_items validate [] = Inr []"
| "decode_todo_items validate (r # rs) =
     (case decode_todo_item validate r of
        Inl e \<Rightarrow> Inl e
      | Inr t \<Rightarrow> map_sum id (\<lambda>ts. t # ts) (decode_todo_items validate rs))"

definition decodeTodoItemsValue :: "json \<Rightarrow> bool \<Rightarrow> todo_error + TodoItem list" where
  "decodeTodoItemsValue value validate =
     (case value of JArr items \<Rightarrow> decode_todo_items validate items | _ \<Rightarrow> Inr [])"

text \<open>The todos, the merge flag, and whether the flag was given.\<close>

definition decodeUpdateTodosArgsJSONWithPresence ::
  "raw_json \<Rightarrow> todo_error + (TodoItem list \<times> bool \<times> bool)" where
  "decodeUpdateTodosArgsJSONWithPresence raw =
     (case decodeJSONObject raw of
        None \<Rightarrow> Inl TodoArgsNotObject
      | Some payload \<Rightarrow>
          (case decodeTodoItemsValue (valueByAlias payload [''todos'']) False of
             Inl e \<Rightarrow> Inl e
           | Inr todos \<Rightarrow>
               (let (mergeValue, mergeSet) = valueByAliasWithPresence payload [''merge'']
                in Inr (todos, boolValue mergeValue, mergeSet))))"

fun decode_statuses :: "json list \<Rightarrow> todo_error + int list" where
  "decode_statuses [] = Inr []"
| "decode_statuses (r # rs) =
     (case todoStatusFromValue r of
        Inl e \<Rightarrow> Inl e
      | Inr st \<Rightarrow> map_sum id (\<lambda>ss. if st = TODO_STATUS_UNSPECIFIED then ss else st # ss) (decode_statuses rs))"

definition decodeReadTodosArgsJSON :: "raw_json \<Rightarrow> todo_error + (int list \<times> string list)" where
  "decodeReadTodosArgsJSON raw =
     (case decodeJSONObject raw of
        None \<Rightarrow> Inl TodoArgsNotObject
      | Some payload \<Rightarrow>
          (case (case valueByAlias payload [''status_filter'', ''statusFilter''] of
                   JArr items \<Rightarrow> decode_statuses items | _ \<Rightarrow> Inr []) of
             Inl e \<Rightarrow> Inl e
           | Inr statuses \<Rightarrow>
               Inr (statuses, stringSliceValue (valueByAlias payload [''id_filter'', ''idFilter'']))))"

subsection \<open>Normalising and merging\<close>

text \<open>Milliseconds since 1970 of a time, of the clock for the zero time.\<close>

definition timestampMillis :: "gtime \<Rightarrow> gtime \<Rightarrow> int" where
  "timestampMillis baseTime clock =
     ((if IsZero baseTime then clock else baseTime) - 62135596800 * 10 ^ 9) div 10 ^ 6"

definition normalize_todo :: "int \<Rightarrow> TodoItem \<Rightarrow> TodoItem" where
  "normalize_todo baseMillis item =
     (let n1 = item\<lparr>td_Id := TrimSpace (td_Id item), td_Content := TrimSpace (td_Content item)\<rparr>;
          n2 = (if td_Status n1 = TODO_STATUS_UNSPECIFIED then n1\<lparr>td_Status := TODO_STATUS_PENDING\<rparr> else n1);
          n3 = (if td_CreatedAt n2 \<le> 0 then n2\<lparr>td_CreatedAt := baseMillis\<rparr> else n2)
      in if td_UpdatedAt n3 \<le> 0 then n3\<lparr>td_UpdatedAt := td_CreatedAt n3\<rparr> else n3)"

fun normalize_todos :: "int \<Rightarrow> bool \<Rightarrow> TodoItem list \<Rightarrow> todo_error + TodoItem list" where
  "normalize_todos baseMillis validate [] = Inr []"
| "normalize_todos baseMillis validate (item # items) =
     (if validate \<and> TrimSpace (td_Id item) = [] then Inl TodoIdRequired
      else if validate \<and> TrimSpace (td_Content item) = [] then Inl TodoContentRequired
      else map_sum id (\<lambda>ts. normalize_todo baseMillis item # ts) (normalize_todos baseMillis validate items))"

definition normalizeTodoItems :: "TodoItem list \<Rightarrow> gtime \<Rightarrow> bool \<Rightarrow> gtime \<Rightarrow> todo_error + TodoItem list" where
  "normalizeTodoItems items baseTime validate clock = normalize_todos (timestampMillis baseTime clock) validate items"

fun index_by_id :: "nat \<Rightarrow> (string, nat) gomap \<Rightarrow> TodoItem list \<Rightarrow> (string, nat) gomap" where
  "index_by_id i m [] = m"
| "index_by_id i m (item # items) =
     index_by_id (Suc i) (if TrimSpace (td_Id item) = [] then m
                          else AList.update (TrimSpace (td_Id item)) i m) items"

definition merge_existing :: "int \<Rightarrow> TodoItem \<Rightarrow> TodoItem \<Rightarrow> todo_error + TodoItem" where
  "merge_existing nowMillis current update =
     (let content = (if TrimSpace (td_Content update) \<noteq> [] then TrimSpace (td_Content update) else td_Content current);
          status = (if td_Status update \<noteq> TODO_STATUS_UNSPECIFIED then td_Status update else td_Status current)
      in if content = [] then Inl TodoContentRequired
         else Inr \<lparr>td_Id = TrimSpace (td_Id update), td_Content = content,
                   td_Status = (if status = TODO_STATUS_UNSPECIFIED then TODO_STATUS_PENDING else status),
                   td_CreatedAt = (if td_CreatedAt current \<le> 0 then nowMillis else td_CreatedAt current),
                   td_UpdatedAt = nowMillis,
                   td_Dependencies = (if td_Dependencies update \<noteq> [] then td_Dependencies update
                                      else td_Dependencies current)\<rparr>)"

definition merge_new :: "int \<Rightarrow> TodoItem \<Rightarrow> todo_error + TodoItem" where
  "merge_new nowMillis update =
     (if TrimSpace (td_Content update) = [] then Inl TodoContentRequiredForNew
      else Inr (normalize_todo nowMillis update))"

fun merge_loop ::
  "int \<Rightarrow> TodoItem list \<Rightarrow> (string, nat) gomap \<Rightarrow> TodoItem list \<Rightarrow> todo_error + TodoItem list" where
  "merge_loop nowMillis result indexByID [] = Inr result"
| "merge_loop nowMillis result indexByID (update # updates) =
     (let i = TrimSpace (td_Id update)
      in if i = [] then Inl TodoIdRequired
         else case map_of indexByID i of
                Some index \<Rightarrow>
                  (case merge_existing nowMillis (result ! index) update of
                     Inl e \<Rightarrow> Inl e
                   | Inr t \<Rightarrow> merge_loop nowMillis (result[index := t]) indexByID updates)
              | None \<Rightarrow>
                  (case merge_new nowMillis update of
                     Inl e \<Rightarrow> Inl e
                   | Inr t \<Rightarrow> merge_loop nowMillis (result @ [t])
                       (AList.update i (length result) indexByID) updates))"

definition mergeTodoItems ::
  "TodoItem list \<Rightarrow> TodoItem list \<Rightarrow> gtime \<Rightarrow> gtime \<Rightarrow> todo_error + TodoItem list" where
  "mergeTodoItems existing updates baseTime clock =
     (case normalizeTodoItems existing baseTime False clock of
        Inl e \<Rightarrow> Inl e
      | Inr result \<Rightarrow>
          merge_loop (timestampMillis baseTime clock) result (index_by_id 0 [] result) updates)"

definition isTerminalTodoStatus :: "int \<Rightarrow> bool" where
  "isTerminalTodoStatus status \<longleftrightarrow> status = TODO_STATUS_COMPLETED \<or> status = TODO_STATUS_CANCELLED"

definition active_ids :: "TodoItem list \<Rightarrow> string list" where
  "active_ids items =
     filter (\<lambda>i. i \<noteq> []) (map (\<lambda>t. TrimSpace (td_Id t)) (filter (\<lambda>t. \<not> isTerminalTodoStatus (td_Status t)) items))"

definition missingActiveTodoReplacementIDs :: "TodoItem list \<Rightarrow> TodoItem list \<Rightarrow> string list" where
  "missingActiveTodoReplacementIDs existing replacement =
     (let existingIDs = remdups (active_ids existing)
      in if existingIDs = [] then []
         else let replacementIDs = map (\<lambda>t. TrimSpace (td_Id t)) replacement
              in sort (filter (\<lambda>i. i \<notin> set replacementIDs) existingIDs))"

definition filterTodoItems :: "TodoItem list \<Rightarrow> int list \<Rightarrow> string list \<Rightarrow> TodoItem list" where
  "filterTodoItems items statuses ids =
     (let idFilter = filter (\<lambda>i. i \<noteq> []) (map TrimSpace ids)
      in filter (\<lambda>t. (statuses = [] \<or> td_Status t \<in> set statuses) \<and>
                      (idFilter = [] \<or> TrimSpace (td_Id t) \<in> set idFilter)) items)"

fun join_with :: "string \<Rightarrow> string list \<Rightarrow> string" where
  "join_with sep [] = []"
| "join_with sep [x] = x"
| "join_with sep (x # y # ys) = x @ sep @ join_with sep (y # ys)"

definition renderTodoList :: "TodoItem list \<Rightarrow> string" where
  "renderTodoList items =
     join_with [CHR 0x0A] (map (\<lambda>t. ''- ['' @ todoStatusLabel (td_Status t) @ ''] '' @ TrimSpace (td_Id t) @
       '': '' @ TrimSpace (td_Content t)) items)"

subsection \<open>TodoWrite and the recomputation from history\<close>

definition shouldMergeTodoUpdate :: "TodoItem list \<Rightarrow> bool \<Rightarrow> bool \<Rightarrow> TodoItem list \<Rightarrow> bool" where
  "shouldMergeTodoUpdate todos merge mergeSet existing =
     (if merge then True
      else if mergeSet \<or> existing = [] then False
      else if missingActiveTodoReplacementIDs existing todos \<noteq> [] then True
      else list_ex (\<lambda>t. TrimSpace (td_Content t) = []) todos)"

text \<open>
  The decision of \<open>handleTodoWriteToolInvocation\<close> on the decoded arguments: the error the tool result
  carries, or the new list and whether it was a merge.
\<close>

definition todo_write ::
  "TodoItem list \<Rightarrow> TodoItem list \<Rightarrow> bool \<Rightarrow> bool \<Rightarrow> bool \<Rightarrow> gtime \<Rightarrow> todo_error + (TodoItem list \<times> bool)" where
  "todo_write existing todos merge mergeSet pendingPlanReset now =
     (let applyMerge = (if pendingPlanReset then False else shouldMergeTodoUpdate todos merge mergeSet existing)
      in case (if applyMerge then mergeTodoItems existing todos now now
               else normalizeTodoItems todos now True now) of
           Inl e \<Rightarrow> Inl e
         | Inr nextTodos \<Rightarrow>
             (if \<not> applyMerge \<and> \<not> pendingPlanReset \<and> missingActiveTodoReplacementIDs existing nextTodos \<noteq> []
              then Inl (TodoUnsafeReplace (missingActiveTodoReplacementIDs existing nextTodos))
              else Inr (nextTodos, applyMerge)))"

text \<open>The branch of \<open>projectConversationStructuredState\<close> for a successful todo update.\<close>

definition project_todo_update ::
  "TodoItem list \<Rightarrow> TodoItem list \<Rightarrow> bool \<Rightarrow> gtime \<Rightarrow> gtime \<Rightarrow> todo_error + TodoItem list" where
  "project_todo_update existing success_todos wasMerge entryTime clock =
     (case normalizeTodoItems success_todos entryTime False clock of
        Inl e \<Rightarrow> Inl e
      | Inr todos \<Rightarrow>
          (if \<not> wasMerge \<and> missingActiveTodoReplacementIDs existing todos \<noteq> []
           then mergeTodoItems existing todos entryTime clock
           else Inr todos))"

subsection \<open>Normal items\<close>

definition todo_normal :: "TodoItem \<Rightarrow> bool" where
  "todo_normal t \<longleftrightarrow> TrimSpace (td_Id t) = td_Id t \<and> TrimSpace (td_Content t) = td_Content t \<and>
     td_Status t \<noteq> TODO_STATUS_UNSPECIFIED \<and> 0 < td_CreatedAt t \<and> 0 < td_UpdatedAt t"

lemma normalize_todo_normal: "0 < b \<Longrightarrow> todo_normal (normalize_todo b t)"
  by (auto simp: normalize_todo_def todo_normal_def Let_def)

lemma normalize_todo_fixed: "todo_normal t \<Longrightarrow> normalize_todo b t = t"
  by (auto simp: normalize_todo_def todo_normal_def Let_def)

lemma normalize_todo_id [simp]: "td_Id (normalize_todo b t) = TrimSpace (td_Id t)"
  by (simp add: normalize_todo_def Let_def)

lemma normalize_todos_lenient [simp]: "normalize_todos b False ts = Inr (map (normalize_todo b) ts)"
  by (induction ts) auto

lemma normalize_todos_strict:
  "normalize_todos b True ts = Inr us \<Longrightarrow> us = map (normalize_todo b) ts \<and>
     (\<forall>t \<in> set ts. TrimSpace (td_Id t) \<noteq> [] \<and> TrimSpace (td_Content t) \<noteq> [])"
proof (induction ts arbitrary: us)
  case (Cons t ts)
  then show ?case
    by (cases "normalize_todos b True ts") (auto split: if_splits)
qed simp

lemma merge_existing_normal:
  "\<lbrakk>todo_normal c; 0 < now; merge_existing now c u = Inr t\<rbrakk> \<Longrightarrow> todo_normal t \<and> td_Id t = TrimSpace (td_Id u)"
  by (auto simp: merge_existing_def todo_normal_def Let_def split: if_splits)

lemma merge_new_normal:
  "\<lbrakk>0 < now; merge_new now u = Inr t\<rbrakk> \<Longrightarrow> todo_normal t \<and> td_Id t = TrimSpace (td_Id u)"
  by (auto simp: merge_new_def normalize_todo_normal split: if_splits)

subsection \<open>The index of a merge\<close>

definition index_ok :: "(string, nat) gomap \<Rightarrow> string list \<Rightarrow> bool" where
  "index_ok m ids \<longleftrightarrow> (\<forall>k i. map_of m k = Some i \<longrightarrow> k \<noteq> [] \<and> i < length ids \<and> ids ! i = k) \<and>
     (\<forall>k \<in> set ids. k \<noteq> [] \<longrightarrow> map_of m k \<noteq> None)"

lemma index_by_id_lookup:
  assumes "\<forall>t \<in> set ts. TrimSpace (td_Id t) = td_Id t"
  shows "map_of (index_by_id n m ts) k =
    (if k \<noteq> [] \<and> k \<in> td_Id ` set ts
     then Some (n + Max {i. i < length ts \<and> td_Id (ts ! i) = k}) else map_of m k)"
  using assms
proof (induction ts arbitrary: n m)
  case (Cons t ts)
  let ?S = "\<lambda>xs. {i. i < length xs \<and> td_Id (xs ! i) = k}"
  have S: "?S (t # ts) = (if td_Id t = k then {0} else {}) \<union> Suc ` ?S ts"
    by (auto simp: less_Suc_eq_0_disj image_iff)
  have ne: "?S ts \<noteq> {} \<longleftrightarrow> k \<in> td_Id ` set ts"
    by (auto simp: in_set_conv_nth image_iff) (metis nth_mem)
  have fin: "finite (?S ts)" by simp
  have max: "Max (?S (t # ts)) = Suc (Max (?S ts))" if "k \<in> td_Id ` set ts"
  proof -
    have "?S ts \<noteq> {}" using that ne by blast
    then have "Max (Suc ` ?S ts) = Suc (Max (?S ts))" using fin by (simp add: mono_Max_commute mono_def)
    with \<open>?S ts \<noteq> {}\<close> show ?thesis unfolding S by (simp add: Max_Un fin)
  qed
  have max0: "Max (?S (t # ts)) = 0" if "k \<notin> td_Id ` set ts" "td_Id t = k"
  proof -
    have e: "?S ts = {}" using that ne by blast
    show ?thesis unfolding S e using that by simp
  qed
  show ?case
    using Cons.prems Cons.IH [of "Suc n"] max max0
    by (auto simp: map_of_update_gomap)
qed simp

lemma index_by_id_ok:
  assumes "\<forall>t \<in> set ts. TrimSpace (td_Id t) = td_Id t"
  shows "index_ok (index_by_id 0 [] ts) (map td_Id ts)"
proof -
  have L: "map_of (index_by_id 0 [] ts) k = (if k \<noteq> [] \<and> k \<in> td_Id ` set ts
      then Some (Max {i. i < length ts \<and> td_Id (ts ! i) = k}) else None)" for k
    using index_by_id_lookup [OF assms, of 0 "[]" k] by simp
  have M: "Max {i. i < length ts \<and> td_Id (ts ! i) = k} \<in> {i. i < length ts \<and> td_Id (ts ! i) = k}"
    if "k \<in> td_Id ` set ts" for k
    using that by (intro Max_in) (auto simp: in_set_conv_nth image_iff)
  show ?thesis using M by (auto simp: index_ok_def L split: if_splits)
qed

lemma index_ok_append:
  "\<lbrakk>index_ok m ids; k \<noteq> []\<rbrakk> \<Longrightarrow> index_ok (AList.update k (length ids) m) (ids @ [k])"
  by (auto simp: index_ok_def map_of_update_gomap nth_append less_SucI split: if_splits)

lemma index_ok_none: "\<lbrakk>index_ok m ids; map_of m k = None; k \<noteq> []\<rbrakk> \<Longrightarrow> k \<notin> set ids"
  by (auto simp: index_ok_def)

text \<open>What a merge does to the ids: the existing ones stay where they are, new ones follow.\<close>

lemma merge_loop_ids:
  assumes "index_ok m (map td_Id ts)" "\<forall>t \<in> set ts. todo_normal t" "0 < now" "merge_loop now ts m us = Inr rs"
  shows "(\<forall>t \<in> set rs. todo_normal t) \<and>
    (\<exists>new. map td_Id rs = map td_Id ts @ new \<and> distinct new \<and> [] \<notin> set new \<and>
       set new = (\<lambda>u. TrimSpace (td_Id u)) ` set us - td_Id ` set ts)"
  using assms
proof (induction us arbitrary: ts m)
  case (Cons u us)
  let ?k = "TrimSpace (td_Id u)"
  have k: "?k \<noteq> []" using Cons.prems(4) by (auto simp: Let_def split: if_splits)
  show ?case
  proof (cases "map_of m ?k")
    case (Some i)
    have "i < length (map td_Id ts) \<and> map td_Id ts ! i = ?k"
      using Cons.prems(1) Some unfolding index_ok_def by blast
    then have i: "i < length ts" "td_Id (ts ! i) = ?k" by auto
    from Cons.prems(4) Some k obtain t where t: "merge_existing now (ts ! i) u = Inr t"
      and rs: "merge_loop now (ts[i := t]) m us = Inr rs"
      by (auto simp: Let_def split: sum.splits)
    have tn: "todo_normal t" "td_Id t = ?k"
      using merge_existing_normal [OF _ Cons.prems(3) t] Cons.prems(2) i by auto
    have ids: "map td_Id (ts[i := t]) = map td_Id ts" using i tn by (simp add: map_update list_update_same_conv)
    have "\<forall>x \<in> set (ts[i := t]). todo_normal x"
      using Cons.prems(2) tn by (auto dest!: set_update_subset_insert [THEN subsetD])
    from Cons.IH [OF _ this Cons.prems(3) rs] Cons.prems(1)
    obtain new where new: "map td_Id rs = map td_Id ts @ new" "distinct new" "[] \<notin> set new"
      "set new = (\<lambda>u. TrimSpace (td_Id u)) ` set us - set (map td_Id ts)" and rn: "\<forall>t \<in> set rs. todo_normal t"
      by (auto simp: ids simp flip: set_map)
    have "?k \<in> td_Id ` set ts" using i by (metis image_eqI nth_mem)
    with new rn show ?thesis by (intro conjI exI [of _ new]) auto
  next
    case None
    from Cons.prems(4) None k obtain t where t: "merge_new now u = Inr t"
      and rs: "merge_loop now (ts @ [t]) (AList.update ?k (length ts) m) us = Inr rs"
      by (auto simp: Let_def split: sum.splits)
    have tn: "todo_normal t" "td_Id t = ?k" using merge_new_normal [OF Cons.prems(3) t] by auto
    have "\<forall>x \<in> set (ts @ [t]). todo_normal x" using Cons.prems(2) tn by auto
    moreover have "index_ok (AList.update ?k (length ts) m) (map td_Id (ts @ [t]))"
      using index_ok_append [OF Cons.prems(1) k] tn by simp
    ultimately
    obtain new where new: "map td_Id rs = map td_Id ts @ (?k # new)" "distinct new" "[] \<notin> set new"
      "set new = (\<lambda>u. TrimSpace (td_Id u)) ` set us - insert ?k (td_Id ` set ts)"
      and rn: "\<forall>t \<in> set rs. todo_normal t"
      using Cons.IH [OF _ _ Cons.prems(3) rs] by (auto simp: tn)
    with index_ok_none [OF Cons.prems(1) None k] k rn show ?thesis
      by (intro conjI exI [of _ "?k # new"]) auto
  qed
qed simp

lemma mergeTodoItems_ids:
  assumes "0 < timestampMillis now clock" "mergeTodoItems existing updates now clock = Inr rs"
  shows "(\<forall>t \<in> set rs. todo_normal t) \<and>
    (\<exists>new. map td_Id rs = map (\<lambda>t. TrimSpace (td_Id t)) existing @ new \<and> distinct new \<and> [] \<notin> set new \<and>
       set new = (\<lambda>u. TrimSpace (td_Id u)) ` set updates - (\<lambda>t. TrimSpace (td_Id t)) ` set existing)"
proof -
  let ?b = "timestampMillis now clock"
  let ?r = "map (normalize_todo ?b) existing"
  have "\<forall>t \<in> set ?r. todo_normal t" using normalize_todo_normal [OF assms(1)] by auto
  moreover have "merge_loop ?b ?r (index_by_id 0 [] ?r) updates = Inr rs"
    using assms(2) by (simp add: mergeTodoItems_def normalizeTodoItems_def)
  moreover have "index_ok (index_by_id 0 [] ?r) (map td_Id ?r)"
    by (rule index_by_id_ok) simp
  ultimately show ?thesis
    using merge_loop_ids [of "index_by_id 0 [] ?r" ?r ?b updates rs] assms(1)
    by (simp add: comp_def image_image)
qed

lemma sort_eq_Nil_iff [simp]: "sort xs = [] \<longleftrightarrow> xs = []"
  by (metis length_0_conv length_sort)

lemma missing_ids_iff:
  "missingActiveTodoReplacementIDs existing replacement = [] \<longleftrightarrow>
     set (active_ids existing) \<subseteq> (\<lambda>t. TrimSpace (td_Id t)) ` set replacement"
  by (auto simp: missingActiveTodoReplacementIDs_def Let_def filter_empty_conv)

lemma active_ids_subset: "set (active_ids existing) \<subseteq> (\<lambda>t. TrimSpace (td_Id t)) ` set existing"
  by (auto simp: active_ids_def)

text \<open>
  A successful merge keeps every existing item at its place, appends one item per new id, loses
  nothing and invents nothing; every item of the result is normal: trimmed, with a status and with
  positive times.
\<close>

theorem merge_todos_ids:
  assumes "0 < timestampMillis now clock" "mergeTodoItems existing updates now clock = Inr rs"
  shows "take (length existing) (map td_Id rs) = map (\<lambda>t. TrimSpace (td_Id t)) existing \<and>
    distinct (drop (length existing) (map td_Id rs)) \<and>
    td_Id ` set rs = (\<lambda>t. TrimSpace (td_Id t)) ` (set existing \<union> set updates) \<and>
    (\<forall>t \<in> set rs. TrimSpace (td_Id t) = td_Id t \<and> td_Status t \<noteq> TODO_STATUS_UNSPECIFIED \<and>
       0 < td_CreatedAt t \<and> 0 < td_UpdatedAt t)"
proof -
  let ?f = "\<lambda>t. TrimSpace (td_Id t)"
  from mergeTodoItems_ids [OF assms] obtain new where new: "map td_Id rs = map ?f existing @ new" "distinct new"
    "set new = ?f ` set updates - ?f ` set existing" and n: "\<forall>t \<in> set rs. todo_normal t" by blast
  have "td_Id ` set rs = set (map td_Id rs)" by simp
  also have "\<dots> = ?f ` (set existing \<union> set updates)" unfolding new(1) using new(3) by auto
  finally show ?thesis using new n by (auto simp: todo_normal_def)
qed

definition demo_todo :: "string \<Rightarrow> string \<Rightarrow> int \<Rightarrow> TodoItem" where
  "demo_todo i c st = \<lparr>td_Id = i, td_Content = c, td_Status = st, td_CreatedAt = 5, td_UpdatedAt = 6, td_Dependencies = []\<rparr>"

definition demo_now :: gtime where
  "demo_now = 63871200000 * 10 ^ 9"

lemma demo_now_pos: "0 < timestampMillis demo_now demo_now"
  by (simp add: timestampMillis_def demo_now_def)

lemma demo_merge:
  "mergeTodoItems [demo_todo ''a'' ''x'' 1] [demo_todo ''b'' ''y'' 2] demo_now demo_now =
     Inr [demo_todo ''a'' ''x'' 1, demo_todo ''b'' ''y'' 2]"
  by code_simp

theorem merge_todos_ids_witness:
  "td_Id ` set [demo_todo ''a'' ''x'' 1, demo_todo ''b'' ''y'' 2] =
     (\<lambda>t. TrimSpace (td_Id t)) ` (set [demo_todo ''a'' ''x'' 1] \<union> set [demo_todo ''b'' ''y'' 2])"
  using merge_todos_ids [OF demo_now_pos demo_merge] by blast

lemma todo_write_normal:
  assumes "0 < timestampMillis now now" "todo_write existing todos merge mergeSet reset now = Inr (next, m)"
  shows "\<forall>t \<in> set next. todo_normal t"
proof -
  have "mergeTodoItems existing todos now now = Inr next \<or> normalizeTodoItems todos now True now = Inr next"
    using assms(2) by (auto simp: todo_write_def Let_def split: sum.splits if_splits)
  then show ?thesis
  proof
    assume "mergeTodoItems existing todos now now = Inr next"
    then show ?thesis using mergeTodoItems_ids [OF assms(1)] by blast
  next
    assume "normalizeTodoItems todos now True now = Inr next"
    then have "next = map (normalize_todo (timestampMillis now now)) todos"
      by (auto simp: normalizeTodoItems_def dest: normalize_todos_strict)
    then show ?thesis using normalize_todo_normal [OF assms(1)] by auto
  qed
qed

lemma todo_write_active:
  assumes "0 < timestampMillis now now" "todo_write existing todos merge mergeSet False now = Inr (next, m)"
  shows "set (active_ids existing) \<subseteq> td_Id ` set next"
proof (cases m)
  case True
  then have "mergeTodoItems existing todos now now = Inr next"
    using assms(2) by (auto simp: todo_write_def Let_def split: sum.splits if_splits)
  from mergeTodoItems_ids [OF assms(1) this] obtain new
    where "map td_Id rs = map (\<lambda>t. TrimSpace (td_Id t)) existing @ new" if "rs = next" for rs by blast
  then have "set (map td_Id next) = (\<lambda>t. TrimSpace (td_Id t)) ` set existing \<union> set new" by simp
  then show ?thesis using active_ids_subset [of existing] by auto
next
  case False
  then have "missingActiveTodoReplacementIDs existing next = []"
    using assms(2) by (auto simp: todo_write_def Let_def split: sum.splits if_splits)
  then have "set (active_ids existing) \<subseteq> (\<lambda>t. TrimSpace (td_Id t)) ` set next" by (simp add: missing_ids_iff)
  also have "\<dots> = td_Id ` set next" using todo_write_normal [OF assms] by (auto simp: todo_normal_def)
  finally show ?thesis .
qed


lemma demo_write:
  "todo_write [demo_todo ''a'' ''x'' 1] [demo_todo ''b'' ''y'' 2] False False False demo_now =
     Inr ([demo_todo ''a'' ''x'' 1, demo_todo ''b'' ''y'' 2], True)"
  by code_simp



end
