(* ===== verification/Stream_Types.thy ===== *)
theory Stream_Types
  imports Go_Strings
begin

text \<open>
  The data the forwarder's components share, from \<open>types.go\<close>, \<open>actor.go\<close>, \<open>token_usage.go\<close>,
  \<open>interrupt.go\<close> and \<open>events.go\<close> of \<open>internal/backend/forwarder\<close>: agent modes and their aliases,
  stream statuses and turn phases, the messages sent to the client, and the active stream.
\<close>

subsection \<open>Errors\<close>

datatype fwd_error =
    RequestNotActive string
  | SubscriberNotActive string
  | InvalidCursor int
  | RequestIDRequired
  | UnsupportedActiveMode int
  | UnsupportedActiveModeFrom int string
  | UnsupportedModeAlias int
  | UnsupportedModeAliasText string
  | UnsupportedTargetModeID string
  | UnsupportedIntent string
  | MetadataNeedsRequest string
  | OpenStreamFailed

subsection \<open>Agent modes\<close>

text \<open>
  A protobuf enum is open: any 32-bit number can arrive. The named values are those of
  \<open>agent_v1.proto\<close>.
\<close>

type_synonym AgentMode = int

abbreviation (input) "AGENT_MODE_UNSPECIFIED \<equiv> (0 :: AgentMode)"
abbreviation (input) "AGENT_MODE_AGENT \<equiv> (1 :: AgentMode)"
abbreviation (input) "AGENT_MODE_ASK \<equiv> (2 :: AgentMode)"
abbreviation (input) "AGENT_MODE_PLAN \<equiv> (3 :: AgentMode)"
abbreviation (input) "AGENT_MODE_DEBUG \<equiv> (4 :: AgentMode)"
abbreviation (input) "AGENT_MODE_MULTITASK \<equiv> (7 :: AgentMode)"

definition normalizeMode :: "AgentMode \<Rightarrow> AgentMode" where
  "normalizeMode mode = mode"

definition isSupportedActiveMode :: "AgentMode \<Rightarrow> bool" where
  "isSupportedActiveMode mode =
     (normalizeMode mode = AGENT_MODE_AGENT \<or> normalizeMode mode = AGENT_MODE_ASK \<or>
      normalizeMode mode = AGENT_MODE_PLAN \<or> normalizeMode mode = AGENT_MODE_DEBUG \<or>
      normalizeMode mode = AGENT_MODE_MULTITASK)"

definition validateSupportedActiveMode :: "AgentMode \<Rightarrow> fwd_error + AgentMode" where
  "validateSupportedActiveMode mode =
     (let normalized = normalizeMode mode
      in if \<not> isSupportedActiveMode normalized then Inl (UnsupportedActiveMode normalized)
         else Inr normalized)"

datatype ModeSource =
    ModeSourceUnknown | ModeSourceUserMessage | ModeSourceExecutePlanAction
  | ModeSourceConversationState | ModeSourceSwitchModeTool

fun modeSourceText :: "ModeSource \<Rightarrow> string" where
  "modeSourceText ModeSourceUnknown = ''''"
| "modeSourceText ModeSourceUserMessage = ''user_message''"
| "modeSourceText ModeSourceExecutePlanAction = ''execute_plan_action''"
| "modeSourceText ModeSourceConversationState = ''conversation_state''"
| "modeSourceText ModeSourceSwitchModeTool = ''switch_mode_tool''"

text \<open>The mode, its source, and the flag that an explicit mode was given; an error keeps the source.\<close>

definition resolveExplicitMode ::
  "AgentMode \<Rightarrow> ModeSource \<Rightarrow> (AgentMode \<times> ModeSource \<times> bool) \<times> fwd_error option" where
  "resolveExplicitMode mode source =
     (case validateSupportedActiveMode mode of
        Inl _ \<Rightarrow> ((AGENT_MODE_UNSPECIFIED, source, True),
                  Some (UnsupportedActiveModeFrom (normalizeMode mode) (TrimSpace (modeSourceText source))))
      | Inr normalized \<Rightarrow> ((normalized, source, True), None))"

definition modeAlias :: "AgentMode \<Rightarrow> fwd_error + string" where
  "modeAlias mode =
     (let m = normalizeMode mode
      in if m = AGENT_MODE_AGENT then Inr ''agent''
         else if m = AGENT_MODE_ASK then Inr ''ask''
         else if m = AGENT_MODE_PLAN then Inr ''plan''
         else if m = AGENT_MODE_DEBUG then Inr ''debug''
         else if m = AGENT_MODE_MULTITASK then Inr ''multitask''
         else Inl (UnsupportedModeAlias m))"

definition parseModeAlias :: "string \<Rightarrow> fwd_error + AgentMode" where
  "parseModeAlias raw =
     (let t = ToLower (TrimSpace raw)
      in if t = ''agent'' then Inr AGENT_MODE_AGENT
         else if t = ''ask'' then Inr AGENT_MODE_ASK
         else if t = ''plan'' then Inr AGENT_MODE_PLAN
         else if t = ''debug'' then Inr AGENT_MODE_DEBUG
         else if t = ''multitask'' then Inr AGENT_MODE_MULTITASK
         else Inl (UnsupportedModeAliasText (TrimSpace raw)))"

definition parseTargetModeID :: "string \<Rightarrow> fwd_error + AgentMode" where
  "parseTargetModeID raw =
     (let t = ToLower (TrimSpace raw)
      in if t = ''agent'' then Inr AGENT_MODE_AGENT
         else if t = ''ask'' then Inr AGENT_MODE_ASK
         else if t = ''plan'' then Inr AGENT_MODE_PLAN
         else if t = ''debug'' then Inr AGENT_MODE_DEBUG
         else if t = ''multitask'' then Inr AGENT_MODE_MULTITASK
         else Inl (UnsupportedTargetModeID (TrimSpace raw)))"

subsection \<open>Statuses, phases and actions\<close>

text \<open>Each is a string type in the sources; the first constructor is its zero value, the empty string.\<close>

datatype StreamStatus =
    StatusUnset | StreamStatusCreated | StreamStatusStreaming
  | StreamStatusCompleted | StreamStatusCanceled | StreamStatusFailed

datatype TurnPhase =
    PhaseUnset | TurnPhaseIdle | TurnPhaseProviderRunning | TurnPhaseWaitingExternal
  | TurnPhaseAwaitingUser | TurnPhaseCompacting | TurnPhaseCheckpointing
  | TurnPhaseCompleted | TurnPhaseFailed | TurnPhaseCanceled

datatype providerAction = providerActionNone | providerActionStart | providerActionResume

datatype pendingCompletionDisposition =
    completionDispositionNone
  | completionDispositionResumeAfterExternal
  | completionDispositionCompleteAfterExternal

fun isTerminalStreamStatus :: "StreamStatus \<Rightarrow> bool" where
  "isTerminalStreamStatus StreamStatusCanceled = True"
| "isTerminalStreamStatus StreamStatusCompleted = True"
| "isTerminalStreamStatus StreamStatusFailed = True"
| "isTerminalStreamStatus _ = False"

fun isTerminalPhase :: "TurnPhase \<Rightarrow> bool" where
  "isTerminalPhase TurnPhaseCanceled = True"
| "isTerminalPhase TurnPhaseCompleted = True"
| "isTerminalPhase TurnPhaseFailed = True"
| "isTerminalPhase _ = False"

subsection \<open>Messages to the client\<close>

text \<open>
  The shapes of \<open>agentv1.AgentServerMessage\<close> that \<open>events.go\<close> builds. A tool call is its tool name
  and its argument text; other deltas than shell output are kept as opaque text.
\<close>

record tool_call =
  tc_name :: string
  tc_args :: string

datatype shell_output = ShellStdout string | ShellStderr string | ShellOtherOutput

datatype tool_call_delta = ShellStdoutDelta string | ShellStderrDelta string | OpaqueDelta string

datatype interaction_update =
    Heartbeat
  | TextDelta string
  | ThinkingDelta string int
  | ThinkingCompleted int
  | SummaryStarted
  | SummaryUpdate string
  | SummaryCompleted "string option"
  | ToolCallStarted string "tool_call option" string
  | PartialToolCall string tool_call string string
  | ToolCallDeltaUpdate string tool_call_delta string
  | ToolCallCompleted string "tool_call option" string
  | ShellOutputDelta shell_output
  | TurnEnded int int int int

record conversation_state =
  cs_used_tokens :: int
  cs_max_tokens :: int
  cs_turn_timings :: "string list"
  cs_turns :: "string list"

datatype server_message =
    InteractionUpdate interaction_update
  | ConversationCheckpointUpdate conversation_state
  | KvSetBlob u32 string string
  | ExecServerAbort u32

definition projectedConversationMaxTokens :: int where
  "projectedConversationMaxTokens = 130000"

definition buildHeartbeatMessage :: server_message where
  "buildHeartbeatMessage = InteractionUpdate Heartbeat"

definition buildTextDeltaMessage :: "string \<Rightarrow> server_message" where
  "buildTextDeltaMessage text = InteractionUpdate (TextDelta text)"

definition buildThinkingDeltaMessage :: "string \<Rightarrow> int \<Rightarrow> server_message" where
  "buildThinkingDeltaMessage text style = InteractionUpdate (ThinkingDelta text style)"

definition buildThinkingCompletedMessage :: "int \<Rightarrow> server_message" where
  "buildThinkingCompletedMessage durationMS = InteractionUpdate (ThinkingCompleted durationMS)"

definition buildSummaryStartedMessage :: server_message where
  "buildSummaryStartedMessage = InteractionUpdate SummaryStarted"

definition buildSummaryMessage :: "string \<Rightarrow> server_message" where
  "buildSummaryMessage summary = InteractionUpdate (SummaryUpdate (TrimSpace summary))"

definition buildSummaryCompletedMessage :: "string \<Rightarrow> server_message" where
  "buildSummaryCompletedMessage requestID =
     InteractionUpdate (SummaryCompleted
       (if TrimSpace requestID \<noteq> '''' then Some (TrimSpace requestID) else None))"

definition buildToolCallStartedMessage :: "string \<Rightarrow> string \<Rightarrow> tool_call option \<Rightarrow> server_message" where
  "buildToolCallStartedMessage callID modelCallID tc = InteractionUpdate (ToolCallStarted callID tc modelCallID)"

definition buildPartialToolCallMessage :: "string \<Rightarrow> string \<Rightarrow> tool_call \<Rightarrow> string \<Rightarrow> server_message" where
  "buildPartialToolCallMessage callID modelCallID tc argsTextDelta =
     InteractionUpdate (PartialToolCall callID tc argsTextDelta modelCallID)"

definition buildToolCallDeltaMessage :: "string \<Rightarrow> string \<Rightarrow> tool_call_delta \<Rightarrow> server_message" where
  "buildToolCallDeltaMessage callID modelCallID delta =
     InteractionUpdate (ToolCallDeltaUpdate callID delta modelCallID)"

definition buildToolCallCompletedMessage :: "string \<Rightarrow> string \<Rightarrow> tool_call option \<Rightarrow> server_message" where
  "buildToolCallCompletedMessage callID modelCallID tc =
     InteractionUpdate (ToolCallCompleted callID tc modelCallID)"

definition buildShellOutputDeltaMessage :: "shell_output \<Rightarrow> server_message" where
  "buildShellOutputDeltaMessage delta = InteractionUpdate (ShellOutputDelta delta)"

definition buildShellToolCallDeltaMessage ::
  "string \<Rightarrow> string \<Rightarrow> shell_output option \<Rightarrow> server_message option" where
  "buildShellToolCallDeltaMessage callID modelCallID output =
     (case output of
        None \<Rightarrow> None
      | Some (ShellStdout content) \<Rightarrow>
          (if content = '''' then None
           else Some (buildToolCallDeltaMessage callID modelCallID (ShellStdoutDelta content)))
      | Some (ShellStderr content) \<Rightarrow>
          (if content = '''' then None
           else Some (buildToolCallDeltaMessage callID modelCallID (ShellStderrDelta content)))
      | Some ShellOtherOutput \<Rightarrow> None)"

definition buildTurnEndedMessage :: "int \<Rightarrow> int \<Rightarrow> int \<Rightarrow> int \<Rightarrow> server_message" where
  "buildTurnEndedMessage inputTokens outputTokens cacheReadTokens cacheWriteTokens =
     InteractionUpdate (TurnEnded inputTokens outputTokens cacheReadTokens cacheWriteTokens)"

text \<open>A nil state or missing token details read as zero token counts.\<close>

definition buildCheckpointMessage :: "conversation_state option \<Rightarrow> server_message" where
  "buildCheckpointMessage state =
     (let cloned = (case state of
            Some s \<Rightarrow> s
          | None \<Rightarrow> \<lparr>cs_used_tokens = 0, cs_max_tokens = 0, cs_turn_timings = [], cs_turns = []\<rparr>);
          c2 = (if cs_max_tokens cloned = 0
                then cloned\<lparr>cs_max_tokens := projectedConversationMaxTokens\<rparr> else cloned)
      in ConversationCheckpointUpdate (c2\<lparr>cs_turn_timings := []\<rparr>))"

definition buildSetCheckpointBlobMessage :: "u32 \<Rightarrow> string \<Rightarrow> string \<Rightarrow> server_message" where
  "buildSetCheckpointBlobMessage i blobID blobData = KvSetBlob i blobID blobData"

subsection \<open>Usage of a provider pass\<close>

record turnUsageSnapshot =
  tu_Provider :: string
  tu_Model :: string
  tu_InputTokens :: int
  tu_OutputTokens :: int
  tu_CacheReadTokens :: int
  tu_CacheWriteTokens :: int
  tu_UsagePresent :: bool
  tu_CacheReadPresent :: bool
  tu_CacheWritePresent :: bool
  tu_ProviderPass :: int
  tu_CompileDurationMS :: int
  tu_EstimatedPromptTokens :: int
  tu_ReplayMessageCount :: int
  tu_RequestPreparedAt :: gtime
  tu_FirstEventAt :: gtime

definition zero_usage :: turnUsageSnapshot where
  "zero_usage = \<lparr>tu_Provider = [], tu_Model = [], tu_InputTokens = 0, tu_OutputTokens = 0,
     tu_CacheReadTokens = 0, tu_CacheWriteTokens = 0, tu_UsagePresent = False, tu_CacheReadPresent = False,
     tu_CacheWritePresent = False, tu_ProviderPass = 0, tu_CompileDurationMS = 0,
     tu_EstimatedPromptTokens = 0, tu_ReplayMessageCount = 0, tu_RequestPreparedAt = 0, tu_FirstEventAt = 0\<rparr>"

definition nonNegativeInt64 :: "int \<Rightarrow> int" where
  "nonNegativeInt64 v = (if v < 0 then 0 else v)"

definition hasAny :: "turnUsageSnapshot \<Rightarrow> bool" where
  "hasAny u = (0 < tu_InputTokens u \<or> 0 < tu_OutputTokens u \<or>
     0 < tu_CacheReadTokens u \<or> 0 < tu_CacheWriteTokens u)"

definition cacheUsageComplete :: "turnUsageSnapshot \<Rightarrow> bool" where
  "cacheUsageComplete u = (tu_CacheReadPresent u \<and> tu_CacheWritePresent u)"

definition promptTokensTotal :: "turnUsageSnapshot \<Rightarrow> int" where
  "promptTokensTotal u = nonNegativeInt64 (tu_InputTokens u) +
     nonNegativeInt64 (tu_CacheReadTokens u) + nonNegativeInt64 (tu_CacheWriteTokens u)"

definition requestTokensTotal :: "turnUsageSnapshot \<Rightarrow> int" where
  "requestTokensTotal u = promptTokensTotal u + nonNegativeInt64 (tu_OutputTokens u)"

subsection \<open>The active stream\<close>

record pendingTurnCompletion =
  pc_ConversationID :: string
  pc_RequestID :: string
  pc_TurnSeq :: int
  pc_ModelCallID :: string
  pc_ProviderPass :: int
  pc_Usage :: turnUsageSnapshot
  pc_Disposition :: pendingCompletionDisposition

record StreamEvent =
  ev_Message :: "server_message option"
  ev_End :: bool
  ev_TerminalErrorCode :: string
  ev_TerminalErrorMessage :: string

text \<open>
  A subscriber's signal channel has room for one token (\<open>subscriberSignalBufferSize\<close>), so the channel
  is whether the token is there.
\<close>

record StreamSubscriber =
  sub_Signal :: bool
  sub_Cursor :: int

record PendingExec =
  pe_MessageID :: u32
  pe_ExecID :: string
  pe_ProviderPass :: int
  pe_ModelCallID :: string
  pe_ToolCallID :: string
  pe_ArgsJSON :: string
  pe_ReasoningContent :: string
  pe_ReasoningSignature :: string
  pe_ReasoningSignatureSource :: string
  pe_ExecKind :: string
  pe_StreamState :: string
  pe_ShellApprovalState :: string
  pe_OpenedAt :: gtime
  pe_FirstChunkAt :: gtime
  pe_ChunkCount :: int
  pe_LastShellActivityAt :: gtime
  pe_LastShellHeartbeatAt :: gtime
  pe_ShellForegroundDeadline :: gtime
  pe_ShellRecoveryScheduled :: bool
  pe_StdoutBuffer :: string
  pe_StderrBuffer :: string

record PendingInteraction =
  pi_InteractionID :: string
  pi_ProviderPass :: int
  pi_ModelCallID :: string
  pi_ToolCallID :: string
  pi_ArgsJSON :: string
  pi_ReasoningContent :: string
  pi_ReasoningSignature :: string
  pi_ReasoningSignatureSource :: string
  pi_InteractionKind :: string
  pi_OpenedAt :: gtime

text \<open>
  The fields of \<open>ActiveStream\<close> that the broker and the actor read or write. A function value is its
  handle: \<open>as_ProviderCancel\<close> names the context the cancel function ends, and a cleanup timer is the
  sequence number its callback carries. A nil map behaves as an empty one for every read, and
  every write in the sources is guarded by its own allocation, so both are the empty list.
\<close>

record ActiveStream =
  as_RequestID :: string
  as_ConversationID :: string
  as_TurnSeq :: int
  as_ModelID :: string
  as_ModelName :: string
  as_Mode :: AgentMode
  as_LatestUserText :: string
  as_Status :: StreamStatus
  as_TerminalActionClaimed :: bool
  as_CurrentModelCallID :: string
  as_ProviderActive :: bool
  as_ProviderCancel :: "nat option"
  as_ProviderPassCount :: int
  as_ToolInvocationCount :: int
  as_Phase :: TurnPhase
  as_PendingProviderAction :: providerAction
  as_PendingProviderCompletion :: "pendingTurnCompletion option"
  as_CurrentProviderToken :: u64
  as_CurrentCompactionToken :: u64
  as_TimerTokens :: "(string, u64) gomap"
  as_AccumulatedText :: string
  as_AccumulatedReasoning :: string
  as_ReasoningSignature :: string
  as_ReasoningSignatureSource :: string
  as_ReasoningItemID :: string
  as_ReasoningStatus :: string
  as_ReasoningSummary :: string
  as_SyntheticThinkingStartedAt :: gtime
  as_SyntheticThinkingPublished :: bool
  as_FinishReason :: string
  as_Usage :: turnUsageSnapshot
  as_TerminalToolInvocation :: bool
  as_PendingCompaction :: bool
  as_Backlog :: "StreamEvent list"
  as_BacklogBaseCursor :: int
  as_Subscribers :: "(string, StreamSubscriber) gomap"
  as_PendingExecs :: "(string, PendingExec) gomap"
  as_RecentCompletedExecs :: "(u32, gtime) gomap"
  as_PendingInteractions :: "(string, PendingInteraction) gomap"
  as_PartialToolCallIDs :: "string list"
  as_CompletedToolCallIDs :: "(string, gtime) gomap"
  as_TerminalCleanupTimer :: "u64 option"
  as_TerminalCleanupSeq :: u64
  as_CreatedAt :: gtime
  as_UpdatedAt :: gtime

subsection \<open>Facts\<close>

lemmas mode_defs = normalizeMode_def isSupportedActiveMode_def validateSupportedActiveMode_def
  resolveExplicitMode_def modeAlias_def parseModeAlias_def parseTargetModeID_def

lemma nonNegativeInt64_nonneg [simp]: "0 \<le> nonNegativeInt64 v"
  by (simp add: nonNegativeInt64_def)

lemma alias_texts_normal:
  "ToLower (TrimSpace ''agent'') = ''agent''" "ToLower (TrimSpace ''ask'') = ''ask''"
  "ToLower (TrimSpace ''plan'') = ''plan''" "ToLower (TrimSpace ''debug'') = ''debug''"
  "ToLower (TrimSpace ''multitask'') = ''multitask''"
  by code_simp+

lemma isTerminalStreamStatus_iff:
  "isTerminalStreamStatus st \<longleftrightarrow>
     st = StreamStatusCompleted \<or> st = StreamStatusCanceled \<or> st = StreamStatusFailed"
  by (cases st) auto

text \<open>
  Mode aliases round-trip: a mode has an alias exactly when it may be active, the stored alias
  parses back to the mode it was written for, as does a switch-mode target, and every alias that
  parses belongs to an active mode.
\<close>

theorem mode_alias_roundtrip:
  "(\<exists>a. modeAlias m = Inr a) = isSupportedActiveMode m \<and>
   (case modeAlias m of Inl _ \<Rightarrow> True
    | Inr a \<Rightarrow> parseModeAlias a = Inr m \<and> parseTargetModeID a = Inr m) \<and>
   (case parseModeAlias raw of Inl _ \<Rightarrow> True | Inr k \<Rightarrow> isSupportedActiveMode k)"
  by (auto simp: mode_defs Let_def alias_texts_normal split: sum.splits if_splits)

end
