(* ===== verification/History_Types.thy ===== *)
theory History_Types
  imports Todo_State Stream_Types
begin

text \<open>
  The records of a conversation's history (\<open>types.go\<close>): entries, the conversation file with its
  metadata, and how an entry's payload is read. A payload is JSON. Payloads in protobuf's JSON form
  are decoded by generated code and the protobuf library, which are not part of the repository: the
  record \<open>decoders\<close> stands for them, one function per message type the sources decode.
\<close>

record HistoryEntry =
  he_Seq :: int
  he_TurnSeq :: int
  he_RequestID :: string
  he_IdempotencyKey :: string
  he_Role :: string
  he_Kind :: string
  he_ToolCallID :: string
  he_ParentToolCallID :: string
  he_Payload :: raw_json
  he_CreatedAt :: gtime

record ConversationRequestPrefix =
  rp_RequestID :: string
  rp_ModelCallID :: string
  rp_Provider :: string
  rp_OpenAIEndpoint :: string
  rp_Model :: string
  rp_PromptTokensTotal :: int
  rp_ReplayMessageCount :: int
  rp_CanonicalBodyHash :: string
  rp_FrontierHash :: string
  rp_FrontierPath :: string
  rp_BreakpointCount :: int
  rp_ExpectedCacheRead :: bool
  rp_PreviousFrontierMatched :: bool
  rp_UpdatedAt :: gtime

record ConversationProviderCall =
  cc_RequestID :: string
  cc_ModelCallID :: string
  cc_Provider :: string
  cc_Model :: string
  cc_ProviderPass :: int
  cc_CompileDurationMS :: int
  cc_EstimatedPromptTokens :: int
  cc_ReplayMessageCount :: int
  cc_TTFTMS :: int
  cc_DurationMS :: int
  cc_CacheReadTokens :: int
  cc_CacheReadUsageAvailable :: bool
  cc_FirstEventAt :: gtime
  cc_Status :: string
  cc_ErrorText :: string
  cc_UpdatedAt :: gtime

record PlanRegistryEntry =
  pr_Id :: string
  pr_Path :: string

text \<open>A nil pointer in the map of plans is \<open>None\<close>.\<close>

record ConversationFile =
  cf_SchemaVersion :: int
  cf_ConversationID :: string
  cf_RootConversationID :: string
  cf_ParentConversationID :: string
  cf_ParentToolCallID :: string
  cf_SubagentTypeName :: string
  cf_AgentTranscriptsFolder :: string
  cf_Mode :: string
  cf_ContextVersion :: int
  cf_CurrentLoopID :: string
  cf_CurrentLoopStatus :: string
  cf_CurrentRequestID :: string
  cf_CurrentTurnSeq :: int
  cf_TokenDetailsUsedTokens :: u32
  cf_TokenDetailsMaxTokens :: u32
  cf_AutoCompactionPending :: bool
  cf_AutoCompactionPromptTokens :: int
  cf_AutoCompactionReserveTokens :: int
  cf_AutoCompactionTriggeredAt :: string
  cf_AutoCompactionSourceModelCallID :: string
  cf_CurrentPlanText :: string
  cf_CurrentPlans :: "(string, PlanRegistryEntry option) gomap"
  cf_CurrentTodos :: "TodoItem list"
  cf_MCPToolServers :: "(string, string) gomap"
  cf_ImportedTurnIDs :: "string list"
  cf_LatestRequestPrefix :: "ConversationRequestPrefix option"
  cf_LastProviderCall :: "ConversationProviderCall option"
  cf_CreatedAt :: gtime
  cf_UpdatedAt :: gtime
  cf_NextTurnSeq :: int
  cf_NextEntrySeq :: int
  cf_Entries :: "HistoryEntry list"

definition zero_conversation :: ConversationFile where
  "zero_conversation = \<lparr>cf_SchemaVersion = 0, cf_ConversationID = [], cf_RootConversationID = [],
     cf_ParentConversationID = [], cf_ParentToolCallID = [], cf_SubagentTypeName = [],
     cf_AgentTranscriptsFolder = [], cf_Mode = [], cf_ContextVersion = 0, cf_CurrentLoopID = [],
     cf_CurrentLoopStatus = [], cf_CurrentRequestID = [], cf_CurrentTurnSeq = 0,
     cf_TokenDetailsUsedTokens = 0, cf_TokenDetailsMaxTokens = 0, cf_AutoCompactionPending = False,
     cf_AutoCompactionPromptTokens = 0, cf_AutoCompactionReserveTokens = 0, cf_AutoCompactionTriggeredAt = [],
     cf_AutoCompactionSourceModelCallID = [], cf_CurrentPlanText = [], cf_CurrentPlans = [], cf_CurrentTodos = [],
     cf_MCPToolServers = [], cf_ImportedTurnIDs = [], cf_LatestRequestPrefix = None, cf_LastProviderCall = None,
     cf_CreatedAt = 0, cf_UpdatedAt = 0, cf_NextTurnSeq = 0, cf_NextEntrySeq = 0, cf_Entries = []\<rparr>"

subsection \<open>Decoders of protobuf payloads\<close>

text \<open>
  What the sources read of a decoded tool call: of a successful plan creation the plan's address,
  text, todos and the todos of its phases, of a successful todo update its todos and whether it was
  a merge.
\<close>

datatype tool_view =
    CreatePlanSuccess string string "TodoItem list" "TodoItem list list"
  | UpdateTodosSuccess "TodoItem list" bool
  | OtherToolCall

record runtime_state_payload =
  rs_PlanText :: string
  rs_Plans :: "(string, PlanRegistryEntry option) gomap"
  rs_Todos :: "TodoItem list"

record decoders =
  dc_transcripts_folder :: "raw_json \<Rightarrow> string option"
  dc_tool_call :: "raw_json \<Rightarrow> tool_view option"
  dc_runtime_state :: "raw_json \<Rightarrow> runtime_state_payload option"
  dc_message_id :: "raw_json \<Rightarrow> string option"

subsection \<open>Reading payloads\<close>

fun readStringValue :: "json option \<Rightarrow> string" where
  "readStringValue (Some (JStr s)) = TrimSpace s"
| "readStringValue _ = []"

text \<open>The type and the value map of a metadata payload; \<open>None\<close> when it does not decode.\<close>

definition metadataPayload :: "raw_json \<Rightarrow> (string \<times> (string \<times> json) list) option" where
  "metadataPayload raw =
     (case struct_members raw of
        None \<Rightarrow> None
      | Some ms \<Rightarrow>
          (case (string_field [] (members_of ms ''type''), map_field [] (members_of ms ''value'')) of
             (Some t, Some v) \<Rightarrow> Some (t, v)
           | _ \<Rightarrow> None))"

definition payload_value :: "(string \<times> json) list \<Rightarrow> string \<Rightarrow> string" where
  "payload_value v k = readStringValue (obj_get v k)"

abbreviation toolCallEntryFields :: "string list" where
  "toolCallEntryFields \<equiv> [''tool_call_id'', ''tool_name'', ''reasoning_content'', ''reasoning_signature'',
     ''reasoning_signature_source'', ''reasoning_item_id'', ''reasoning_status'', ''provider_item_id'',
     ''provider_call_id'', ''provider_status'']"

abbreviation toolResultEntryFields :: "string list" where
  "toolResultEntryFields \<equiv> [''tool_call_id'', ''tool_name'', ''arguments'', ''result_text'', ''reasoning_content'',
     ''reasoning_signature'', ''reasoning_signature_source'', ''reasoning_item_id'', ''reasoning_status'',
     ''provider_item_id'', ''provider_call_id'', ''provider_status'']"

definition first_field :: "raw_json \<Rightarrow> string list \<Rightarrow> string option" where
  "first_field raw names =
     (case struct_members raw of
        None \<Rightarrow> None
      | Some ms \<Rightarrow> (case string_fields ms names of None \<Rightarrow> None | Some vs \<Rightarrow> Some (hd vs)))"

definition historyEntryToolCallID :: "HistoryEntry \<Rightarrow> string" where
  "historyEntryToolCallID entry =
     (if TrimSpace (he_ToolCallID entry) \<noteq> [] then TrimSpace (he_ToolCallID entry)
      else if TrimSpace (he_Kind entry) = ''tool_call''
      then (case first_field (he_Payload entry) toolCallEntryFields of None \<Rightarrow> [] | Some i \<Rightarrow> TrimSpace i)
      else if TrimSpace (he_Kind entry) = ''tool_result''
      then (case first_field (he_Payload entry) toolResultEntryFields of None \<Rightarrow> [] | Some i \<Rightarrow> TrimSpace i)
      else [])"

text \<open>The raw \<open>tool_call\<close> member of a tool result; empty when absent, \<open>None\<close> on a decoding error.\<close>

definition toolResult_tool_call :: "raw_json \<Rightarrow> raw_json option" where
  "toolResult_tool_call raw =
     (case struct_members raw of
        None \<Rightarrow> None
      | Some ms \<Rightarrow>
          (case string_fields ms toolResultEntryFields of
             None \<Rightarrow> None
           | Some _ \<Rightarrow> (case rev (members_of ms ''tool_call'') of
                          [] \<Rightarrow> Some RawEmpty
                        | v # _ \<Rightarrow> Some (RawValue v))))"

definition newMetadataEntry :: "int \<Rightarrow> string \<Rightarrow> string \<Rightarrow> (string \<times> json) list \<Rightarrow> HistoryEntry" where
  "newMetadataEntry turnSeq requestID eventType values =
     \<lparr>he_Seq = 0, he_TurnSeq = turnSeq, he_RequestID = TrimSpace requestID, he_IdempotencyKey = [],
      he_Role = ''system'', he_Kind = ''metadata'', he_ToolCallID = [], he_ParentToolCallID = [],
      he_Payload = RawValue (JObj ((''type'', JStr (TrimSpace eventType)) #
         (if values = [] then [] else [(''value'', JObj values)]))),
      he_CreatedAt = 0\<rparr>"

text \<open>A metadata entry reads back as what it was built from.\<close>

lemma field_names_distinct: "fold_name ''type'' \<noteq> fold_name ''value''"
  by code_simp

lemma metadata_roundtrip:
  "metadataPayload (he_Payload (newMetadataEntry n r t vs)) = Some (TrimSpace t, vs)"
  using field_names_distinct by (auto simp: metadataPayload_def newMetadataEntry_def members_of_def)

end
