(* ===== verification/Cancel_Replay.thy ===== *)
theory Cancel_Replay
  imports History_Types
begin

text \<open>
  Which entries of canceled turns are replayed to the model and to the client: the filter of
  \<open>projector.go\<close>. A canceled turn carries a policy in its control entry; the filter drops the turn,
  keeps its inputs, or keeps all of it.
\<close>

definition cancelReplayPolicyDropTurn :: string where
  "cancelReplayPolicyDropTurn = ''drop_turn''"
definition cancelReplayPolicyDropUnstarted :: string where
  "cancelReplayPolicyDropUnstarted = ''drop_unstarted_turn''"
definition cancelReplayPolicyKeepStableInput :: string where
  "cancelReplayPolicyKeepStableInput = ''keep_stable_input''"
definition cancelReplayPolicyKeepInterrupted :: string where
  "cancelReplayPolicyKeepInterrupted = ''keep_interrupted_output''"

lemma policies_distinct [simp]:
  "distinct [cancelReplayPolicyDropTurn, cancelReplayPolicyDropUnstarted, cancelReplayPolicyKeepStableInput,
     cancelReplayPolicyKeepInterrupted]"
  by code_simp

definition superseded_reason :: "string \<Rightarrow> bool" where
  "superseded_reason reason = strings_Contains (ToLower (TrimSpace reason)) ''superseded by newer request''"

definition cancelReplayPolicyForReason :: "string \<Rightarrow> string" where
  "cancelReplayPolicyForReason reason =
     (if superseded_reason reason then cancelReplayPolicyDropUnstarted else cancelReplayPolicyKeepStableInput)"

definition normalizeCancelReplayPolicy :: "string \<Rightarrow> string \<Rightarrow> string" where
  "normalizeCancelReplayPolicy policy reason =
     (let p = TrimSpace policy
      in if p = cancelReplayPolicyDropTurn
         then (if superseded_reason reason then cancelReplayPolicyDropUnstarted else cancelReplayPolicyDropTurn)
         else if p = cancelReplayPolicyDropUnstarted then cancelReplayPolicyDropUnstarted
         else if p = cancelReplayPolicyKeepStableInput then cancelReplayPolicyKeepStableInput
         else if p = cancelReplayPolicyKeepInterrupted then cancelReplayPolicyKeepInterrupted
         else cancelReplayPolicyForReason reason)"

definition canceledReplayPolicyForEntry :: "HistoryEntry \<Rightarrow> string option" where
  "canceledReplayPolicyForEntry entry =
     (if TrimSpace (he_Kind entry) \<noteq> ''metadata'' then None
      else case metadataPayload (he_Payload entry) of
             None \<Rightarrow> None
           | Some (t, v) \<Rightarrow>
               (if TrimSpace t \<noteq> ''control'' then None
                else if TrimSpace (payload_value v ''status'') \<noteq> ''canceled'' then None
                else Some (normalizeCancelReplayPolicy (payload_value v ''replay_policy'')
                             (payload_value v ''reason''))))"

definition isStableCanceledTurnInputEntry :: "HistoryEntry \<Rightarrow> bool" where
  "isStableCanceledTurnInputEntry entry \<longleftrightarrow>
     TrimSpace (he_Kind entry) \<in> {''request_context'', ''user_message'', ''prompt_context''}"

definition isCanceledTurnActivityEntry :: "HistoryEntry \<Rightarrow> bool" where
  "isCanceledTurnActivityEntry entry \<longleftrightarrow>
     TrimSpace (he_Kind entry) \<in> {''model_message'', ''assistant_text'', ''tool_call'', ''tool_result''}"

fun collect_policies :: "(int, string) gomap \<Rightarrow> HistoryEntry list \<Rightarrow> (int, string) gomap" where
  "collect_policies m [] = m"
| "collect_policies m (e # es) =
     (if he_TurnSeq e \<le> 0 then collect_policies m es
      else case canceledReplayPolicyForEntry e of
             None \<Rightarrow> collect_policies m es
           | Some p \<Rightarrow>
               (if p = cancelReplayPolicyDropTurn then collect_policies (AList.update (he_TurnSeq e) p m) es
                else if map_of m (he_TurnSeq e) = None
                then collect_policies (AList.update (he_TurnSeq e) p m) es
                else collect_policies m es))"

definition canceledReplayPolicies :: "HistoryEntry list \<Rightarrow> (int, string) gomap" where
  "canceledReplayPolicies entries = collect_policies [] entries"

definition canceledReplayActivityTurns :: "HistoryEntry list \<Rightarrow> int list" where
  "canceledReplayActivityTurns entries =
     map he_TurnSeq (filter (\<lambda>e. 0 < he_TurnSeq e \<and> isCanceledTurnActivityEntry e) entries)"

text \<open>The body of the filter's loop: whether an entry is kept.\<close>

definition keeps_entry :: "(int, string) gomap \<Rightarrow> int list \<Rightarrow> HistoryEntry \<Rightarrow> bool" where
  "keeps_entry canceledTurns activeTurns entry =
     (if he_TurnSeq entry \<le> 0 then True
      else case map_of canceledTurns (he_TurnSeq entry) of
             None \<Rightarrow> True
           | Some policy \<Rightarrow>
               (if policy = cancelReplayPolicyKeepInterrupted then True
                else if policy \<noteq> cancelReplayPolicyDropTurn \<and> he_TurnSeq entry \<in> set activeTurns then True
                else let p = (if policy = cancelReplayPolicyDropUnstarted then cancelReplayPolicyDropTurn else policy)
                     in \<not> (p = cancelReplayPolicyDropTurn \<or> \<not> isStableCanceledTurnInputEntry entry)))"

definition sanitizeCanceledReplayEntries :: "HistoryEntry list \<Rightarrow> HistoryEntry list" where
  "sanitizeCanceledReplayEntries entries =
     (let canceledTurns = canceledReplayPolicies entries
      in if canceledTurns = [] then entries
         else filter (keeps_entry canceledTurns (canceledReplayActivityTurns entries)) entries)"

definition checkpointProjectionEntries :: "HistoryEntry list \<Rightarrow> HistoryEntry list" where
  "checkpointProjectionEntries entries = sanitizeCanceledReplayEntries entries"

subsection \<open>What the filter keeps\<close>

definition turn_policies :: "HistoryEntry list \<Rightarrow> int \<Rightarrow> string list" where
  "turn_policies es n = List.map_filter canceledReplayPolicyForEntry (filter (\<lambda>e. he_TurnSeq e = n) es)"

lemma turn_policies_simps:
  "turn_policies [] n = []"
  "turn_policies (e # es) n =
     (if he_TurnSeq e = n
      then (case canceledReplayPolicyForEntry e of None \<Rightarrow> turn_policies es n | Some p \<Rightarrow> p # turn_policies es n)
      else turn_policies es n)"
  by (simp_all add: turn_policies_def List.map_filter_simps split: option.split)

text \<open>The policy of a turn: dropping wins wherever it occurs, otherwise the first policy counts.\<close>

definition turn_policy :: "HistoryEntry list \<Rightarrow> int \<Rightarrow> string option" where
  "turn_policy es n =
     (if cancelReplayPolicyDropTurn \<in> set (turn_policies es n) then Some cancelReplayPolicyDropTurn
      else case turn_policies es n of [] \<Rightarrow> None | p # _ \<Rightarrow> Some p)"

lemma collect_policies_lookup:
  assumes "0 < n"
  shows "map_of (collect_policies m es) n =
    (if cancelReplayPolicyDropTurn \<in> set (turn_policies es n) then Some cancelReplayPolicyDropTurn
     else case map_of m n of Some p \<Rightarrow> Some p | None \<Rightarrow> turn_policy es n)"
proof (induction es arbitrary: m)
  case Nil
  then show ?case by (simp add: turn_policies_simps turn_policy_def split: option.split)
next
  case (Cons e es)
  show ?case
  proof (cases "he_TurnSeq e = n")
    case False
    then have u: "map_of (AList.update (he_TurnSeq e) p m) n = map_of m n" for p
      by (simp add: map_of_update_gomap)
    have "turn_policies (e # es) n = turn_policies es n" "turn_policy (e # es) n = turn_policy es n"
      using False by (simp_all add: turn_policies_simps turn_policy_def)
    then show ?thesis by (simp add: Cons.IH u split: option.split)
  next
    case True
    with assms show ?thesis
      by (cases "canceledReplayPolicyForEntry e"; cases "map_of m n")
        (auto simp: turn_policies_simps turn_policy_def map_of_update_gomap Cons.IH)
  qed
qed

lemma canceledReplayPolicies_lookup: "0 < n \<Longrightarrow> map_of (canceledReplayPolicies es) n = turn_policy es n"
  by (simp add: canceledReplayPolicies_def collect_policies_lookup turn_policy_def)

definition turn_active :: "HistoryEntry list \<Rightarrow> int \<Rightarrow> bool" where
  "turn_active es n \<longleftrightarrow> (\<exists>e \<in> set es. he_TurnSeq e = n \<and> isCanceledTurnActivityEntry e)"

lemma activity_turns_iff: "0 < n \<Longrightarrow> n \<in> set (canceledReplayActivityTurns es) \<longleftrightarrow> turn_active es n"
  by (auto simp: canceledReplayActivityTurns_def turn_active_def)

text \<open>The specification: what becomes of an entry, from its turn's policy and activity.\<close>

definition replays :: "HistoryEntry list \<Rightarrow> HistoryEntry \<Rightarrow> bool" where
  "replays es e \<longleftrightarrow> he_TurnSeq e \<le> 0 \<or>
     (case turn_policy es (he_TurnSeq e) of
        None \<Rightarrow> True
      | Some p \<Rightarrow> p = cancelReplayPolicyKeepInterrupted \<or>
          p \<noteq> cancelReplayPolicyDropTurn \<and>
            (turn_active es (he_TurnSeq e) \<or>
             p \<noteq> cancelReplayPolicyDropUnstarted \<and> isStableCanceledTurnInputEntry e))"

lemma keeps_entry_iff:
  "keeps_entry (canceledReplayPolicies es) (canceledReplayActivityTurns es) e \<longleftrightarrow> replays es e"
proof (cases "he_TurnSeq e \<le> 0")
  case True
  then show ?thesis by (simp add: keeps_entry_def replays_def)
next
  case False
  then have p: "map_of (canceledReplayPolicies es) (he_TurnSeq e) = turn_policy es (he_TurnSeq e)"
    and a: "he_TurnSeq e \<in> set (canceledReplayActivityTurns es) \<longleftrightarrow> turn_active es (he_TurnSeq e)"
    by (simp_all add: canceledReplayPolicies_lookup activity_turns_iff)
  show ?thesis
    using policies_distinct False
    by (cases "turn_policy es (he_TurnSeq e)") (auto simp: keeps_entry_def replays_def p a Let_def)
qed

lemma sanitize_eq_filter: "sanitizeCanceledReplayEntries es = filter (replays es) es"
proof (cases "canceledReplayPolicies es = []")
  case True
  have "turn_policy es n = None" if "0 < n" for n
    using canceledReplayPolicies_lookup [OF that, of es] True by simp
  then have "replays es e" for e by (cases "he_TurnSeq e \<le> 0") (simp_all add: replays_def)
  with True show ?thesis by (simp add: sanitizeCanceledReplayEntries_def)
next
  case False
  then show ?thesis by (simp add: sanitizeCanceledReplayEntries_def Let_def keeps_entry_iff cong: filter_cong)
qed

text \<open>
  C7. What is replayed of a history: the entries outside canceled turns, unchanged and in order; of a
  canceled turn everything when its interrupted output is to be kept or when it produced output and
  is not to be dropped outright; only its inputs when it is to keep its stable input; and nothing
  otherwise. One control entry asking to drop the turn overrides every other.
\<close>

theorem replay_of_canceled_turns:
  "sanitizeCanceledReplayEntries es = filter (\<lambda>e. he_TurnSeq e \<le> 0 \<or>
     (case turn_policy es (he_TurnSeq e) of
        None \<Rightarrow> True
      | Some p \<Rightarrow> p = cancelReplayPolicyKeepInterrupted \<or>
          p \<noteq> cancelReplayPolicyDropTurn \<and>
            (turn_active es (he_TurnSeq e) \<or>
             p \<noteq> cancelReplayPolicyDropUnstarted \<and> isStableCanceledTurnInputEntry e))) es"
  unfolding sanitize_eq_filter by (rule filter_cong [OF refl]) (simp add: replays_def)

lemma turn_policies_filter:
  "\<forall>e \<in> set es. he_TurnSeq e = n \<longrightarrow> P e \<Longrightarrow> turn_policies (filter P es) n = turn_policies es n"
  by (induction es) (auto simp: turn_policies_simps split: option.split)

lemma turn_policy_cases:
  assumes "\<forall>e \<in> set es. he_TurnSeq e = n \<longrightarrow> replays es e"
  shows "turn_policy (filter (replays es) es) n = turn_policy es n"
    "turn_active (filter (replays es) es) n = turn_active es n"
  using turn_policies_filter [OF assms] assms by (auto simp: turn_policy_def turn_active_def)

lemma metadata_not_kept:
  "canceledReplayPolicyForEntry e = Some p \<Longrightarrow>
     \<not> isStableCanceledTurnInputEntry e \<and> \<not> isCanceledTurnActivityEntry e"
  by (auto simp: canceledReplayPolicyForEntry_def isStableCanceledTurnInputEntry_def
      isCanceledTurnActivityEntry_def split: if_splits)

lemma turn_policies_mem:
  "p \<in> set (turn_policies es n) \<longleftrightarrow> (\<exists>e \<in> set es. he_TurnSeq e = n \<and> canceledReplayPolicyForEntry e = Some p)"
  by (induction es) (auto simp: turn_policies_simps split: option.splits)

text \<open>Once a turn loses its control entry, nothing of it is dropped any more.\<close>

lemma replays_stable:
  assumes "e \<in> set es" "replays es e"
  shows "replays (filter (replays es) es) e"
proof (cases "\<forall>x \<in> set es. he_TurnSeq x = he_TurnSeq e \<longrightarrow> replays es x")
  case True
  from turn_policy_cases [OF True] assms(2) show ?thesis by (simp add: replays_def split: option.splits)
next
  case False
  then obtain x where x: "x \<in> set es" "he_TurnSeq x = he_TurnSeq e" "\<not> replays es x" by blast
  let ?n = "he_TurnSeq e"
  have n: "0 < ?n" using x by (auto simp: replays_def)
  obtain p where p: "turn_policy es ?n = Some p" using x by (auto simp: replays_def split: option.splits)
  have "p \<noteq> cancelReplayPolicyKeepInterrupted" "\<not> turn_active es ?n \<or> p = cancelReplayPolicyDropTurn"
    using x p by (auto simp: replays_def)
  then have drop: "\<not> replays es y" if "he_TurnSeq y = ?n" "canceledReplayPolicyForEntry y = Some q" for y q
    using metadata_not_kept [OF that(2)] p n that(1) by (auto simp: replays_def)
  have "turn_policies (filter (replays es) es) ?n = []"
  proof (rule ccontr)
    assume "turn_policies (filter (replays es) es) ?n \<noteq> []"
    then obtain q where "q \<in> set (turn_policies (filter (replays es) es) ?n)" by (meson hd_in_set)
    then show False using drop by (auto simp: turn_policies_mem)
  qed
  then show ?thesis by (simp add: replays_def turn_policy_def)
qed

text \<open>
  Filtering is idempotent: a filtered history replays to itself.
\<close>

theorem sanitize_idempotent:
  "sanitizeCanceledReplayEntries (sanitizeCanceledReplayEntries es) = sanitizeCanceledReplayEntries es"
  unfolding sanitize_eq_filter by (rule filter_True) (auto intro: replays_stable)

text \<open>
  The control entry the cancel handler appends reads back as a cancellation with the policy it
  was given, normalised by the recorded reason.
\<close>

theorem recorded_cancel_policy:
  "canceledReplayPolicyForEntry (newMetadataEntry n r ''control''
     [(''status'', JStr ''canceled''), (''reason'', JStr reason), (''replay_policy'', JStr policy)]) =
   Some (normalizeCancelReplayPolicy (TrimSpace policy) (TrimSpace reason))"
proof -
  have t: "TrimSpace ''metadata'' = ''metadata''" "TrimSpace ''control'' = ''control''" "TrimSpace ''canceled'' = ''canceled''"
    by code_simp+
  have "metadataPayload (he_Payload (newMetadataEntry n r ''control''
      [(''status'', JStr ''canceled''), (''reason'', JStr reason), (''replay_policy'', JStr policy)])) =
      Some (''control'', [(''status'', JStr ''canceled''), (''reason'', JStr reason), (''replay_policy'', JStr policy)])"
    by (simp add: metadata_roundtrip t)
  then show ?thesis
    by (simp add: canceledReplayPolicyForEntry_def payload_value_def obj_get_def t)
      (simp add: newMetadataEntry_def t)
qed

subsection \<open>Appending to a history\<close>

lemma turn_policies_append: "turn_policies (xs @ ys) n = turn_policies xs n @ turn_policies ys n"
  by (induction xs) (auto simp: turn_policies_simps split: option.split)

lemma sanitize_append:
  assumes "canceledReplayPolicyForEntry e = None" "turn_policy es (he_TurnSeq e) = None"
  shows "sanitizeCanceledReplayEntries (es @ [e]) = sanitizeCanceledReplayEntries es @ [e]"
proof -
  have p: "turn_policy (es @ [e]) n = turn_policy es n" for n
    using assms(1) by (simp add: turn_policy_def turn_policies_append turn_policies_simps)
  have a: "turn_active (es @ [e]) n = turn_active es n" if "n \<noteq> he_TurnSeq e" for n
    using that by (auto simp: turn_active_def)
  have "replays (es @ [e]) x = replays es x" for x
    using a [of "he_TurnSeq x"] assms(2)
    by (cases "he_TurnSeq x = he_TurnSeq e") (auto simp: replays_def p split: option.splits)
  moreover have "replays es e" using assms(2) by (simp add: replays_def)
  ultimately show ?thesis by (simp add: sanitize_eq_filter cong: filter_cong)
qed

end
