(* ===== verification/Structured_State.thy ===== *)
theory Structured_State
  imports Cancel_Replay
begin

text \<open>
  The plan and todo state of a conversation, recomputed from its history (\<open>state_tools.go\<close>): the
  projection walks the replayable entries, and refreshing writes its result into the conversation's
  metadata.
\<close>

record structuredConversationState =
  ss_PlanText :: string
  ss_HasPlan :: bool
  ss_Plans :: "(string, PlanRegistryEntry option) gomap"
  ss_Todos :: "TodoItem list"
  ss_HasTodos :: bool

datatype state_error =
    RuntimeStateUndecodable
  | ToolResultUndecodable
  | ToolCallUndecodable
  | TodoStateError todo_error

fun clone_plans ::
  "(string, PlanRegistryEntry option) gomap \<Rightarrow> (string, PlanRegistryEntry option) gomap \<Rightarrow>
   (string, PlanRegistryEntry option) gomap" where
  "clone_plans cloned [] = cloned"
| "clone_plans cloned ((key, item) # items) =
     (case item of
        None \<Rightarrow> clone_plans cloned items
      | Some p \<Rightarrow>
          (if TrimSpace key = [] then clone_plans cloned items
           else clone_plans (AList.update (TrimSpace key)
                  (Some \<lparr>pr_Id = (if TrimSpace (pr_Id p) = [] then TrimSpace key else TrimSpace (pr_Id p)),
                         pr_Path = TrimSpace (pr_Path p)\<rparr>) cloned) items))"

definition clonePlanRegistryEntries ::
  "(string, PlanRegistryEntry option) gomap \<Rightarrow> (string, PlanRegistryEntry option) gomap" where
  "clonePlanRegistryEntries items = clone_plans [] items"

definition upsertCurrentPlanRegistryEntry ::
  "(string, PlanRegistryEntry option) gomap \<Rightarrow> string \<Rightarrow> (string, PlanRegistryEntry option) gomap" where
  "upsertCurrentPlanRegistryEntry plans planURI =
     (let trimmedURI = TrimSpace planURI; next = clonePlanRegistryEntries plans
      in if trimmedURI = [] then next
         else let key = (if map_of next ''current'' = None \<and> length next = 1 then fst (hd next) else ''current'')
              in AList.update key (Some \<lparr>pr_Id = key, pr_Path = trimmedURI\<rparr>) next)"

definition flattenCreatePlanTodos :: "TodoItem list \<Rightarrow> TodoItem list list \<Rightarrow> TodoItem list" where
  "flattenCreatePlanTodos todos phases = (if todos \<noteq> [] then todos else concat phases)"

definition empty_state :: structuredConversationState where
  "empty_state = \<lparr>ss_PlanText = [], ss_HasPlan = False, ss_Plans = [], ss_Todos = [], ss_HasTodos = False\<rparr>"

text \<open>The effect of a decoded tool call.\<close>

definition project_tool ::
  "gtime \<Rightarrow> gtime \<Rightarrow> tool_view \<Rightarrow> structuredConversationState \<Rightarrow> state_error + structuredConversationState" where
  "project_tool entryTime clock tool st =
     (case tool of
        OtherToolCall \<Rightarrow> Inr st
      | CreatePlanSuccess planURI plan todos phases \<Rightarrow>
          (if TrimSpace planURI = [] then Inr st
           else case normalizeTodoItems (flattenCreatePlanTodos todos phases) entryTime False clock of
                  Inl e \<Rightarrow> Inl (TodoStateError e)
                | Inr ts \<Rightarrow>
                    Inr (st\<lparr>ss_PlanText := TrimSpace plan, ss_HasPlan := True,
                            ss_Plans := upsertCurrentPlanRegistryEntry (ss_Plans st) (TrimSpace planURI),
                            ss_Todos := ts, ss_HasTodos := True\<rparr>))
      | UpdateTodosSuccess todos wasMerge \<Rightarrow>
          (case project_todo_update (ss_Todos st) todos wasMerge entryTime clock of
             Inl e \<Rightarrow> Inl (TodoStateError e)
           | Inr ts \<Rightarrow> Inr (st\<lparr>ss_Todos := ts, ss_HasTodos := True\<rparr>)))"

text \<open>The body of the projection's loop, on one replayable entry.\<close>

definition project_entry ::
  "decoders \<Rightarrow> gtime \<Rightarrow> structuredConversationState \<Rightarrow> HistoryEntry \<Rightarrow> state_error + structuredConversationState" where
  "project_entry dc clock st entry =
     (if TrimSpace (he_Kind entry) = ''runtime_state''
      then (case dc_runtime_state dc (he_Payload entry) of
              None \<Rightarrow> Inl RuntimeStateUndecodable
            | Some p \<Rightarrow>
                (let s1 = (if TrimSpace (rs_PlanText p) \<noteq> []
                           then st\<lparr>ss_PlanText := TrimSpace (rs_PlanText p), ss_HasPlan := True\<rparr> else st);
                     s2 = (if rs_Plans p \<noteq> [] then s1\<lparr>ss_Plans := clonePlanRegistryEntries (rs_Plans p)\<rparr> else s1)
                 in Inr (if rs_Todos p \<noteq> [] then s2\<lparr>ss_Todos := rs_Todos p, ss_HasTodos := True\<rparr> else s2)))
      else if TrimSpace (he_Kind entry) \<noteq> ''tool_result'' then Inr st
      else case toolResult_tool_call (he_Payload entry) of
             None \<Rightarrow> Inl ToolResultUndecodable
           | Some RawEmpty \<Rightarrow> Inr st
           | Some raw \<Rightarrow>
               (case dc_tool_call dc raw of
                  None \<Rightarrow> Inl ToolCallUndecodable
                | Some tool \<Rightarrow> project_tool (he_CreatedAt entry) clock tool st))"

fun project_entries ::
  "decoders \<Rightarrow> gtime \<Rightarrow> structuredConversationState \<Rightarrow> HistoryEntry list \<Rightarrow> state_error + structuredConversationState" where
  "project_entries dc clock st [] = Inr st"
| "project_entries dc clock st (e # es) =
     (case project_entry dc clock st e of Inl err \<Rightarrow> Inl err | Inr st' \<Rightarrow> project_entries dc clock st' es)"

definition projectConversationStructuredState ::
  "decoders \<Rightarrow> gtime \<Rightarrow> ConversationFile \<Rightarrow> state_error + structuredConversationState" where
  "projectConversationStructuredState dc clock conversation =
     project_entries dc clock empty_state (checkpointProjectionEntries (cf_Entries conversation))"

definition refreshConversationRuntimeState ::
  "decoders \<Rightarrow> gtime \<Rightarrow> ConversationFile \<Rightarrow> state_error + ConversationFile" where
  "refreshConversationRuntimeState dc clock conversation =
     (case projectConversationStructuredState dc clock conversation of
        Inl e \<Rightarrow> Inl e
      | Inr st \<Rightarrow>
          Inr (conversation\<lparr>
            cf_CurrentPlanText := (if ss_HasPlan st \<and> TrimSpace (ss_PlanText st) \<noteq> [] then TrimSpace (ss_PlanText st) else []),
            cf_CurrentPlans := (if ss_Plans st \<noteq> [] then clonePlanRegistryEntries (ss_Plans st) else []),
            cf_CurrentTodos := (if ss_HasTodos st \<and> ss_Todos st \<noteq> [] then ss_Todos st else [])\<rparr>))"

subsection \<open>Plans\<close>

definition plans_ok :: "(string, PlanRegistryEntry option) gomap \<Rightarrow> bool" where
  "plans_ok m \<longleftrightarrow> gomap_ok m \<and> (\<forall>(k, v) \<in> set m. k \<noteq> [] \<and> TrimSpace k = k \<and>
     (\<exists>p. v = Some p \<and> pr_Id p \<noteq> [] \<and> TrimSpace (pr_Id p) = pr_Id p \<and> TrimSpace (pr_Path p) = pr_Path p))"

lemma clone_plans_ok: "plans_ok m \<Longrightarrow> plans_ok (clone_plans m items)"
proof (induction m items rule: clone_plans.induct)
  case (2 m key item items)
  show ?case
  proof (cases item)
    case None
    with 2 show ?thesis by simp
  next
    case (Some p)
    show ?thesis
    proof (cases "TrimSpace key = []")
      case True
      with 2 Some show ?thesis by simp
    next
      case False
      have "plans_ok (AList.update (TrimSpace key)
          (Some \<lparr>pr_Id = (if TrimSpace (pr_Id p) = [] then TrimSpace key else TrimSpace (pr_Id p)),
                 pr_Path = TrimSpace (pr_Path p)\<rparr>) m)"
        using 2(4) False by (auto simp: plans_ok_def set_update_iff)
      with 2 Some False show ?thesis by simp
    qed
  qed
qed simp

lemma plans_ok_clone [simp]: "plans_ok (clonePlanRegistryEntries m)"
  unfolding clonePlanRegistryEntries_def by (rule clone_plans_ok) (simp add: plans_ok_def)

lemma update_absent_append: "k \<notin> fst ` set m \<Longrightarrow> AList.update k v m = m @ [(k, v)]"
  by (induction m) auto

lemma clone_plans_fixed:
  assumes "plans_ok (m @ items)"
  shows "clone_plans m items = m @ items"
  using assms
proof (induction items arbitrary: m)
  case (Cons x items)
  obtain k p where x: "x = (k, Some p)" and k: "k \<noteq> []" "TrimSpace k = k" "k \<notin> fst ` set m"
    and p: "pr_Id p \<noteq> []" "TrimSpace (pr_Id p) = pr_Id p" "TrimSpace (pr_Path p) = pr_Path p"
    using Cons.prems by (cases x) (auto simp: plans_ok_def)
  have "clone_plans m (x # items) = clone_plans (m @ [x]) items"
    using k p by (cases p) (simp add: x update_absent_append)
  with Cons show ?case by simp
qed simp

text \<open>
  Normalising the plan registry is idempotent, and what it leaves is well formed: trimmed
  non-empty keys without repetition, every plan present, with an id and a trimmed path.
\<close>

theorem clone_plans_normal_form:
  "plans_ok (clonePlanRegistryEntries m) \<and>
   clonePlanRegistryEntries (clonePlanRegistryEntries m) = clonePlanRegistryEntries m"
  using clone_plans_fixed [of "[]" "clonePlanRegistryEntries m"] plans_ok_clone [of m]
  by (simp add: clonePlanRegistryEntries_def)

text \<open>
  Registering a plan keeps one plan per key and makes the new plan the one found under its key:
  the only key when the registry has a single plan, the key \<open>current\<close> otherwise.
\<close>

theorem upsert_plan_registers:
  assumes "TrimSpace uri \<noteq> []" "m' = upsertCurrentPlanRegistryEntry m uri"
  shows "plans_ok m' \<and> (\<exists>k. map_of m' k = Some (Some \<lparr>pr_Id = k, pr_Path = TrimSpace uri\<rparr>) \<and>
    (k \<noteq> ''current'' \<longrightarrow> m' = [(k, Some \<lparr>pr_Id = k, pr_Path = TrimSpace uri\<rparr>)]) \<and>
    (\<forall>j. j \<noteq> k \<longrightarrow> map_of m' j = map_of (clonePlanRegistryEntries m) j))"
proof -
  let ?c = "clonePlanRegistryEntries m"
  define k where "k = (if map_of ?c ''current'' = None \<and> length ?c = 1 then fst (hd ?c) else ''current'')"
  have m': "m' = AList.update k (Some \<lparr>pr_Id = k, pr_Path = TrimSpace uri\<rparr>) ?c"
    using assms by (simp add: upsertCurrentPlanRegistryEntry_def Let_def k_def)
  have ok: "plans_ok ?c" by simp
  have cur: "TrimSpace ''current'' = ''current''" by code_simp
  have single: "\<exists>v. ?c = [(k, v)]" if "k \<noteq> ''current''"
    using that unfolding k_def by (cases ?c) (auto split: if_splits)
  have "k \<noteq> [] \<and> TrimSpace k = k"
  proof (cases "k = ''current''")
    case False
    then obtain v where "?c = [(k, v)]" using single by blast
    with ok show ?thesis by (simp add: plans_ok_def)
  qed (simp add: cur)
  with ok have "plans_ok m'" unfolding m' by (auto simp: plans_ok_def set_update_iff)
  moreover have "m' = [(k, Some \<lparr>pr_Id = k, pr_Path = TrimSpace uri\<rparr>)]" if "k \<noteq> ''current''"
    using single [OF that] unfolding m' by auto
  ultimately show ?thesis by (intro conjI exI [of _ k]) (auto simp: m' map_of_update_gomap)
qed

theorem upsert_plan_registers_witness:
  "plans_ok (upsertCurrentPlanRegistryEntry [(''old'', Some \<lparr>pr_Id = [], pr_Path = ''p''\<rparr>)] ''file:///plan'')"
proof -
  have "TrimSpace ''file:///plan'' \<noteq> []" by code_simp
  then show ?thesis using upsert_plan_registers [OF _ refl] by blast
qed

subsection \<open>Todos\<close>

lemma project_entries_snoc:
  "project_entries dc clock st (es @ [e]) =
     (case project_entries dc clock st es of Inl err \<Rightarrow> Inl err | Inr st' \<Rightarrow> project_entry dc clock st' e)"
  by (induction es arbitrary: st) (auto split: sum.splits)

lemma project_append:
  assumes "turn_policy (cf_Entries c) (he_TurnSeq e) = None" "TrimSpace (he_Kind e) = ''tool_result''"
  shows "projectConversationStructuredState dc clock (c\<lparr>cf_Entries := cf_Entries c @ [e]\<rparr>) =
    (case projectConversationStructuredState dc clock c of Inl err \<Rightarrow> Inl err | Inr st \<Rightarrow> project_entry dc clock st e)"
proof -
  have "canceledReplayPolicyForEntry e = None" using assms(2) by (simp add: canceledReplayPolicyForEntry_def)
  with assms(1) show ?thesis
    by (simp add: projectConversationStructuredState_def checkpointProjectionEntries_def sanitize_append
        project_entries_snoc)
qed


definition demo_decoders :: decoders where
  "demo_decoders = \<lparr>dc_transcripts_folder = (\<lambda>_. None),
     dc_tool_call = (\<lambda>_. Some (UpdateTodosSuccess [demo_todo ''b'' ''y'' 2] False)),
     dc_runtime_state = (\<lambda>_. None), dc_message_id = (\<lambda>_. None)\<rparr>"

definition demo_result :: HistoryEntry where
  "demo_result = \<lparr>he_Seq = 1, he_TurnSeq = 1, he_RequestID = ''r'', he_IdempotencyKey = [], he_Role = ''tool'',
     he_Kind = ''tool_result'', he_ToolCallID = ''t'', he_ParentToolCallID = [],
     he_Payload = RawValue (JObj [(''tool_call'', JObj [])]), he_CreatedAt = 9\<rparr>"


end
