(* ===== verification/History_Store.thy ===== *)
theory History_Store
  imports Structured_State
begin

text \<open>
  The conversation store of \<open>file_store.go\<close>: a conversation is a metadata file (\<open>state.json\<close>) and an
  append-only file of entries, one JSON object per line (\<open>context.jsonl\<close>, or a legacy \<open>context.json\<close>),
  with an in-memory cache of the entries of recently used conversations. The first part holds the
  operations on a conversation value, the second the store.
\<close>

subsection \<open>Paths\<close>

text \<open>
  \<open>filepath.Clean\<close>, \<open>IsAbs\<close>, \<open>Base\<close> and \<open>Join\<close> for absolute paths on a Unix system: a cleaned
  absolute path is its list of names.
\<close>

fun split_on :: "char \<Rightarrow> string \<Rightarrow> string \<Rightarrow> string list" where
  "split_on c cur [] = [cur]"
| "split_on c cur (x # xs) = (if x = c then cur # split_on c [] xs else split_on c (cur @ [x]) xs)"

fun clean_names :: "string list \<Rightarrow> string list \<Rightarrow> string list" where
  "clean_names acc [] = acc"
| "clean_names acc (n # ns) =
     (if n = [] \<or> n = ''.'' then clean_names acc ns
      else if n = ''..'' then clean_names (butlast acc) ns
      else clean_names (acc @ [n]) ns)"

definition path_names :: "string \<Rightarrow> string list" where
  "path_names p = clean_names [] (split_on (CHR ''/'') [] p)"

definition is_abs :: "string \<Rightarrow> bool" where
  "is_abs p \<longleftrightarrow> has_prefix p ''/''"

definition names_path :: "string list \<Rightarrow> string" where
  "names_path ns = CHR ''/'' # join_with ''/'' ns"

definition normalizeAgentTranscriptsFolder :: "string \<Rightarrow> string" where
  "normalizeAgentTranscriptsFolder path =
     (let trimmed = TrimSpace path
      in if trimmed = [] \<or> \<not> is_abs trimmed then []
         else let cleaned = path_names trimmed
              in if cleaned = [] \<or> last cleaned \<noteq> ''agent-transcripts'' then [] else names_path cleaned)"

fun agentTranscriptsFolderFromEntries :: "decoders \<Rightarrow> HistoryEntry list \<Rightarrow> string" where
  "agentTranscriptsFolderFromEntries dc [] = []"
| "agentTranscriptsFolderFromEntries dc (e # es) =
     (if TrimSpace (he_Kind e) \<noteq> ''request_context'' then agentTranscriptsFolderFromEntries dc es
      else case dc_transcripts_folder dc (he_Payload e) of
             None \<Rightarrow> agentTranscriptsFolderFromEntries dc es
           | Some f \<Rightarrow>
               (if normalizeAgentTranscriptsFolder f \<noteq> [] then normalizeAgentTranscriptsFolder f
                else agentTranscriptsFolderFromEntries dc es))"

datatype store_error =
    ConversationIDRequired
  | ConversationIDHasSeparator
  | StateUndecodable
  | ContextUndecodable
  | WriteError
  | EntryNotEncodable
  | UpdateRejected string
  | ModeRejected fwd_error
  | StateProjection state_error

definition validateConversationID :: "string \<Rightarrow> store_error + string" where
  "validateConversationID conversationID =
     (let normalized = TrimSpace conversationID
      in if normalized = [] then Inl ConversationIDRequired
         else if strings_Contains normalized ''/'' then Inl ConversationIDHasSeparator
         else Inr normalized)"

definition conversationDir :: "string \<Rightarrow> string \<Rightarrow> string" where
  "conversationDir root conversationID = names_path (path_names (root @ ''/'' @ conversationID))"

subsection \<open>Operations on a conversation\<close>

definition conversationSchemaVersion :: int where
  "conversationSchemaVersion = 1"

fun contextVersionForEntries :: "HistoryEntry list \<Rightarrow> int" where
  "contextVersionForEntries [] = 0"
| "contextVersionForEntries (e # es) = max (he_Seq e) (contextVersionForEntries es)"

text \<open>Whether an entry belongs to a request and turn, as the loops of \<open>file_store.go\<close> test it.\<close>

definition of_request :: "string \<Rightarrow> int \<Rightarrow> HistoryEntry \<Rightarrow> bool" where
  "of_request requestID turnSeq e \<longleftrightarrow> TrimSpace (he_RequestID e) = TrimSpace requestID \<and>
     \<not> (0 < turnSeq \<and> 0 < he_TurnSeq e \<and> he_TurnSeq e \<noteq> turnSeq)"

definition conversationHasRequestEntry :: "HistoryEntry list \<Rightarrow> string \<Rightarrow> int \<Rightarrow> bool" where
  "conversationHasRequestEntry entries requestID turnSeq \<longleftrightarrow>
     TrimSpace requestID \<noteq> [] \<and> list_ex (of_request requestID turnSeq) entries"

text \<open>The open tool calls, the terminal status and whether there was activity, after one entry.\<close>

definition metadata_status :: "raw_json \<Rightarrow> string option" where
  "metadata_status raw =
     (case metadataPayload raw of
        None \<Rightarrow> None
      | Some (t, v) \<Rightarrow>
          (let ty = TrimSpace t
           in if ty = ''turn_completed'' then Some ''completed''
              else if ty = ''provider_error'' then Some ''provider_error''
              else if ty = ''failed'' then Some ''failed''
              else if ty = ''control'' \<and> TrimSpace (payload_value v ''status'') = ''canceled'' then Some ''canceled''
              else None))"

definition is_run_request :: "raw_json \<Rightarrow> bool" where
  "is_run_request raw = (case metadataPayload raw of None \<Rightarrow> False | Some (t, v) \<Rightarrow> TrimSpace t = ''run_request'')"

definition loop_round ::
  "string list \<times> string \<times> bool \<Rightarrow> HistoryEntry \<Rightarrow> string list \<times> string \<times> bool" where
  "loop_round acc e =
     (case acc of (openToolCalls, terminalStatus, seenActivity) \<Rightarrow>
        (let kind = TrimSpace (he_Kind e); tid = historyEntryToolCallID e
         in if kind = ''tool_call''
            then (List.insert (if tid = [] then ''entry:'' @ show_int (he_Seq e) else tid) openToolCalls,
                  terminalStatus, True)
            else if kind = ''tool_result''
            then (if tid \<noteq> [] then removeAll tid openToolCalls else openToolCalls, terminalStatus, True)
            else if kind = ''assistant_text'' \<or> kind = ''prompt_context'' \<or> kind = ''request_context'' \<or>
                    kind = ''user_message''
            then (openToolCalls, terminalStatus, True)
            else if kind = ''metadata''
            then (openToolCalls,
                  (case metadata_status (he_Payload e) of None \<Rightarrow> terminalStatus | Some st \<Rightarrow> st),
                  seenActivity \<or> is_run_request (he_Payload e))
            else (openToolCalls, terminalStatus, seenActivity)))"

definition deriveRequestLoopStatus :: "HistoryEntry list \<Rightarrow> string \<Rightarrow> int \<Rightarrow> string \<Rightarrow> string" where
  "deriveRequestLoopStatus entries requestID turnSeq fallbackStatus =
     (if TrimSpace requestID = [] then firstNonEmpty [TrimSpace fallbackStatus, ''idle'']
      else case foldl loop_round ([], [], False) (filter (of_request requestID turnSeq) entries) of
             (openToolCalls, terminalStatus, seenActivity) \<Rightarrow>
               (if terminalStatus \<noteq> [] then terminalStatus
                else if openToolCalls \<noteq> [] then ''waiting_tool''
                else if seenActivity then ''running''
                else firstNonEmpty [TrimSpace fallbackStatus, ''idle'']))"

text \<open>The last entry that names a request.\<close>

definition last_request :: "HistoryEntry list \<Rightarrow> HistoryEntry option" where
  "last_request entries = List.find (\<lambda>e. TrimSpace (he_RequestID e) \<noteq> []) (rev entries)"

definition deriveConversationLoopState :: "ConversationFile \<Rightarrow> ConversationFile" where
  "deriveConversationLoopState c =
     (let entries = cf_Entries c;
          requestID0 = TrimSpace (cf_CurrentRequestID c);
          gone = (requestID0 \<noteq> [] \<and> \<not> conversationHasRequestEntry entries requestID0 (cf_CurrentTurnSeq c));
          requestID1 = (if gone then [] else requestID0);
          turnSeq1 = (if gone then 0 else cf_CurrentTurnSeq c);
          fallback = (if gone then ''idle'' else firstNonEmpty [TrimSpace (cf_CurrentLoopStatus c), ''idle'']);
          (requestID, turnSeq) =
            (case last_request entries of
               None \<Rightarrow> (requestID1, turnSeq1)
             | Some e \<Rightarrow> if requestID1 = [] then (TrimSpace (he_RequestID e), he_TurnSeq e) else (requestID1, turnSeq1))
      in c\<lparr>cf_SchemaVersion := conversationSchemaVersion, cf_ContextVersion := contextVersionForEntries entries,
           cf_CurrentRequestID := requestID, cf_CurrentTurnSeq := turnSeq,
           cf_CurrentLoopID := (if requestID \<noteq> [] then show_int turnSeq @ '':'' @ requestID else cf_CurrentLoopID c),
           cf_CurrentLoopStatus := deriveRequestLoopStatus entries requestID turnSeq fallback\<rparr>)"

definition resetEntrySequences :: "HistoryEntry list \<Rightarrow> HistoryEntry list" where
  "resetEntrySequences entries = map (\<lambda>e. e\<lparr>he_Seq := 0\<rparr>) entries"

text \<open>The loop of \<open>appendEntriesInPlace\<close>: the entries taken over, the next number and the highest turn.\<close>

fun assign_entries ::
  "gtime \<Rightarrow> string list \<Rightarrow> int \<Rightarrow> int \<Rightarrow> HistoryEntry list \<Rightarrow> HistoryEntry list \<times> int \<times> int" where
  "assign_entries now keys nextSeq maxTurn [] = ([], nextSeq, maxTurn)"
| "assign_entries now keys nextSeq maxTurn (entry # entries) =
     (let key = TrimSpace (he_IdempotencyKey entry)
      in if key \<noteq> [] \<and> key \<in> set keys then assign_entries now keys nextSeq maxTurn entries
         else let keys1 = (if key \<noteq> [] then key # keys else keys);
                  e1 = (if IsZero (he_CreatedAt entry) then entry\<lparr>he_CreatedAt := now\<rparr> else entry);
                  (e2, next1) =
                    (if he_Seq e1 \<le> 0 then (e1\<lparr>he_Seq := nextSeq\<rparr>, nextSeq + 1)
                     else if nextSeq \<le> he_Seq e1 then (e1, he_Seq e1 + 1) else (e1, nextSeq));
                  (es, n, t) = assign_entries now keys1 next1 (max maxTurn (he_TurnSeq e2)) entries
              in (e2 # es, n, t))"

definition entry_keys :: "HistoryEntry list \<Rightarrow> string list" where
  "entry_keys entries = filter (\<lambda>k. k \<noteq> []) (map (\<lambda>e. TrimSpace (he_IdempotencyKey e)) entries)"

definition appendEntriesInPlace ::
  "ConversationFile \<Rightarrow> HistoryEntry list \<Rightarrow> gtime \<Rightarrow> ConversationFile \<times> HistoryEntry list" where
  "appendEntriesInPlace c entries now =
     (if entries = [] then (c, [])
      else let (assigned, nextSeq, maxTurn) =
                 assign_entries now (entry_keys (cf_Entries c)) (cf_NextEntrySeq c) (cf_NextTurnSeq c - 1) entries;
               all = cf_Entries c @ assigned
           in (c\<lparr>cf_Entries := all, cf_NextEntrySeq := nextSeq,
                 cf_NextTurnSeq := (if cf_NextTurnSeq c < maxTurn + 1 then maxTurn + 1 else cf_NextTurnSeq c),
                 cf_CreatedAt := (if IsZero (cf_CreatedAt c) then now else cf_CreatedAt c),
                 cf_UpdatedAt := now, cf_ContextVersion := contextVersionForEntries all\<rparr>, assigned))"

definition cloneStringMap :: "(string, string) gomap \<Rightarrow> (string, string) gomap" where
  "cloneStringMap m = fold (\<lambda>(k, v) acc. if TrimSpace k = [] then acc else AList.update (TrimSpace k) v acc) m []"

definition mergeConversationMetadata :: "ConversationFile \<Rightarrow> ConversationFile \<Rightarrow> ConversationFile" where
  "mergeConversationMetadata target source =
     target\<lparr>cf_ConversationID := (if TrimSpace (cf_ConversationID source) \<noteq> [] then TrimSpace (cf_ConversationID source)
                                 else cf_ConversationID target),
            cf_RootConversationID := (if TrimSpace (cf_RootConversationID source) \<noteq> []
                                      then TrimSpace (cf_RootConversationID source) else cf_RootConversationID target),
            cf_ParentConversationID := TrimSpace (cf_ParentConversationID source),
            cf_ParentToolCallID := TrimSpace (cf_ParentToolCallID source),
            cf_SubagentTypeName := TrimSpace (cf_SubagentTypeName source),
            cf_AgentTranscriptsFolder :=
              (if normalizeAgentTranscriptsFolder (cf_AgentTranscriptsFolder source) \<noteq> []
               then normalizeAgentTranscriptsFolder (cf_AgentTranscriptsFolder source)
               else cf_AgentTranscriptsFolder target),
            cf_Mode := (if TrimSpace (cf_Mode source) \<noteq> [] then TrimSpace (cf_Mode source) else cf_Mode target),
            cf_TokenDetailsUsedTokens := cf_TokenDetailsUsedTokens source,
            cf_TokenDetailsMaxTokens := (if 0 < cf_TokenDetailsMaxTokens source then cf_TokenDetailsMaxTokens source
                                         else cf_TokenDetailsMaxTokens target),
            cf_AutoCompactionPending := cf_AutoCompactionPending source,
            cf_AutoCompactionPromptTokens := cf_AutoCompactionPromptTokens source,
            cf_AutoCompactionReserveTokens := cf_AutoCompactionReserveTokens source,
            cf_AutoCompactionTriggeredAt := cf_AutoCompactionTriggeredAt source,
            cf_AutoCompactionSourceModelCallID := cf_AutoCompactionSourceModelCallID source,
            cf_CurrentPlanText := cf_CurrentPlanText source,
            cf_CurrentPlans := clonePlanRegistryEntries (cf_CurrentPlans source),
            cf_CurrentTodos := cf_CurrentTodos source,
            cf_MCPToolServers := cloneStringMap (cf_MCPToolServers source),
            cf_ImportedTurnIDs := cf_ImportedTurnIDs source,
            cf_LatestRequestPrefix := cf_LatestRequestPrefix source,
            cf_LastProviderCall := cf_LastProviderCall source,
            cf_CreatedAt := (if \<not> IsZero (cf_CreatedAt source) \<and>
                                (IsZero (cf_CreatedAt target) \<or> cf_CreatedAt source < cf_CreatedAt target)
                             then cf_CreatedAt source else cf_CreatedAt target),
            cf_UpdatedAt := (if \<not> IsZero (cf_UpdatedAt source) \<and> cf_UpdatedAt target < cf_UpdatedAt source
                             then cf_UpdatedAt source else cf_UpdatedAt target),
            cf_NextTurnSeq := max (cf_NextTurnSeq target) (cf_NextTurnSeq source),
            cf_NextEntrySeq := max (cf_NextEntrySeq target) (cf_NextEntrySeq source),
            cf_CurrentLoopID := TrimSpace (cf_CurrentLoopID source),
            cf_CurrentLoopStatus := TrimSpace (cf_CurrentLoopStatus source),
            cf_CurrentRequestID := TrimSpace (cf_CurrentRequestID source),
            cf_CurrentTurnSeq := cf_CurrentTurnSeq source\<rparr>"

text \<open>One round of the loop of \<open>normalizeLoadedConversation\<close> over the entries.\<close>

definition absorb_entry :: "ConversationFile \<Rightarrow> HistoryEntry \<Rightarrow> ConversationFile" where
  "absorb_entry c e =
     c\<lparr>cf_NextEntrySeq := (if cf_NextEntrySeq c \<le> he_Seq e then he_Seq e + 1 else cf_NextEntrySeq c),
       cf_NextTurnSeq := (if cf_NextTurnSeq c \<le> he_TurnSeq e then he_TurnSeq e + 1 else cf_NextTurnSeq c),
       cf_CreatedAt := (if IsZero (cf_CreatedAt c) \<or>
                           (\<not> IsZero (he_CreatedAt e) \<and> he_CreatedAt e < cf_CreatedAt c)
                        then he_CreatedAt e else cf_CreatedAt c),
       cf_UpdatedAt := (if \<not> IsZero (he_CreatedAt e) \<and> cf_UpdatedAt c < he_CreatedAt e
                        then he_CreatedAt e else cf_UpdatedAt c)\<rparr>"

definition normalizeLoadedConversation ::
  "decoders \<Rightarrow> string \<Rightarrow> gtime \<Rightarrow> ConversationFile \<Rightarrow> ConversationFile" where
  "normalizeLoadedConversation dc conversationID now c =
     (let cid = (if TrimSpace (cf_ConversationID c) = [] then conversationID else cf_ConversationID c);
          folder = normalizeAgentTranscriptsFolder (cf_AgentTranscriptsFolder c);
          c1 = c\<lparr>cf_SchemaVersion := conversationSchemaVersion, cf_ConversationID := cid,
                 cf_RootConversationID := (if TrimSpace (cf_RootConversationID c) = [] then cid else cf_RootConversationID c),
                 cf_NextTurnSeq := (if cf_NextTurnSeq c \<le> 0 then 1 else cf_NextTurnSeq c),
                 cf_NextEntrySeq := (if cf_NextEntrySeq c \<le> 0 then 1 else cf_NextEntrySeq c),
                 cf_AgentTranscriptsFolder :=
                   (if folder = [] then agentTranscriptsFolderFromEntries dc (cf_Entries c) else folder)\<rparr>;
          c2 = foldl absorb_entry c1 (cf_Entries c);
          c3 = (if IsZero (cf_CreatedAt c2) then c2\<lparr>cf_CreatedAt := now\<rparr> else c2);
          c4 = (if IsZero (cf_UpdatedAt c3) then c3\<lparr>cf_UpdatedAt := cf_CreatedAt c3\<rparr> else c3)
      in deriveConversationLoopState c4)"

subsection \<open>Files\<close>

text \<open>
  The entries file as its lines: \<open>Some\<close> an entry, or \<open>None\<close> for a line that is not JSON, and what
  follows the last newline: nothing, a fragment cut off by an interrupted write, or a whole entry
  that lost only its newline. Text appended to an unfinished last line continues that line, and
  neither a fragment nor a whole object followed by another object is JSON.
\<close>

datatype line_tail = NoTail | TornTail | WholeTail HistoryEntry

record context_file =
  ctx_lines :: "HistoryEntry option list"
  ctx_tail :: line_tail

text \<open>A nil payload is written as \<open>null\<close>; a payload that is not JSON cannot be written.\<close>

definition encodable :: "HistoryEntry \<Rightarrow> bool" where
  "encodable e \<longleftrightarrow> he_Payload e \<noteq> RawInvalid"

definition stored :: "HistoryEntry \<Rightarrow> HistoryEntry" where
  "stored e = (if he_Payload e = RawEmpty then e\<lparr>he_Payload := RawValue JNull\<rparr> else e)"

definition readContextJSONL :: "context_file \<Rightarrow> HistoryEntry list" where
  "readContextJSONL f =
     List.map_filter id (ctx_lines f) @ (case ctx_tail f of WholeTail e \<Rightarrow> [e] | _ \<Rightarrow> [])"

definition append_lines :: "context_file \<Rightarrow> HistoryEntry list \<Rightarrow> context_file" where
  "append_lines f es =
     (case es of
        [] \<Rightarrow> f
      | e # es' \<Rightarrow>
          f\<lparr>ctx_lines := ctx_lines f @ (if ctx_tail f = NoTail then Some (stored e) else None) # map (Some \<circ> stored) es',
            ctx_tail := NoTail\<rparr>)"

definition fresh_lines :: "HistoryEntry list \<Rightarrow> context_file" where
  "fresh_lines es = \<lparr>ctx_lines = map (Some \<circ> stored) es, ctx_tail = NoTail\<rparr>"

datatype 'a disk_file = NoFile | BadFile | FileWith 'a

record conversation_files =
  dk_state :: "ConversationFile disk_file"
  dk_jsonl :: "context_file option"
  dk_legacy :: "HistoryEntry list disk_file"

definition no_files :: conversation_files where
  "no_files = \<lparr>dk_state = NoFile, dk_jsonl = None, dk_legacy = NoFile\<rparr>"

record cachedConversationEntries =
  ce_contextVersion :: int
  ce_entries :: "HistoryEntry list"
  ce_cachedAt :: gtime

record ConversationFileStore =
  fs_files :: "string \<Rightarrow> conversation_files"
  fs_entriesCache :: "(string, cachedConversationEntries) gomap"

text \<open>
  How the writes of one operation end. A replacing write is atomic, but can still report an error
  after the new file is in place (the directory could not be synced). An appending write that fails,
  or that has written part of its buffer before it meets an entry it cannot encode, leaves some
  whole lines and possibly a torn one.
\<close>

datatype write_outcome = WriteOk | WriteFailed | WrittenThenFailed
datatype append_outcome = AppendOk | AppendFailed nat bool

record io_outcomes =
  io_context :: write_outcome
  io_append :: append_outcome
  io_state :: write_outcome

subsection \<open>The cache\<close>

definition maxCachedConversations :: nat where
  "maxCachedConversations = 8"

fun oldest_cached :: "(string \<times> gtime) option \<Rightarrow> (string, cachedConversationEntries) gomap \<Rightarrow> (string \<times> gtime) option" where
  "oldest_cached best [] = best"
| "oldest_cached best ((k, item) # items) =
     oldest_cached (case best of
        None \<Rightarrow> Some (k, ce_cachedAt item)
      | Some (bk, bt) \<Rightarrow> if bk = [] \<or> ce_cachedAt item < bt then Some (k, ce_cachedAt item) else best) items"

definition updateCacheLocked ::
  "ConversationFileStore \<Rightarrow> string \<Rightarrow> int \<Rightarrow> HistoryEntry list \<Rightarrow> gtime \<Rightarrow> ConversationFileStore" where
  "updateCacheLocked st conversationID contextVersion entries now =
     (let cache0 = fs_entriesCache st;
          cache1 = (if maxCachedConversations \<le> length cache0
                    then (case oldest_cached None cache0 of
                            Some (k, _) \<Rightarrow> if k \<noteq> [] \<and> k \<noteq> conversationID then AList.delete k cache0 else cache0
                          | None \<Rightarrow> cache0)
                    else cache0)
      in st\<lparr>fs_entriesCache := AList.update conversationID
             \<lparr>ce_contextVersion = contextVersion, ce_entries = entries, ce_cachedAt = now\<rparr> cache1\<rparr>)"

definition getCachedEntries :: "ConversationFileStore \<Rightarrow> string \<Rightarrow> int \<Rightarrow> HistoryEntry list option" where
  "getCachedEntries st conversationID expectedContextVersion =
     (if expectedContextVersion \<le> 0 then None
      else case map_of (fs_entriesCache st) conversationID of
             None \<Rightarrow> None
           | Some cached \<Rightarrow>
               (if ce_contextVersion cached \<noteq> expectedContextVersion then None else Some (ce_entries cached)))"

subsection \<open>Reading and writing under the conversation's lock\<close>

definition set_files :: "ConversationFileStore \<Rightarrow> string \<Rightarrow> conversation_files \<Rightarrow> ConversationFileStore" where
  "set_files st conversationID fl = st\<lparr>fs_files := (fs_files st)(conversationID := fl)\<rparr>"

definition readContextLocked ::
  "ConversationFileStore \<Rightarrow> string \<Rightarrow> int \<Rightarrow> gtime \<Rightarrow> ConversationFileStore \<times> (store_error + HistoryEntry list)" where
  "readContextLocked st conversationID expectedContextVersion now =
     (case getCachedEntries st conversationID expectedContextVersion of
        Some entries \<Rightarrow> (st, Inr entries)
      | None \<Rightarrow>
          (case dk_jsonl (fs_files st conversationID) of
             Some f \<Rightarrow>
               (let entries = readContextJSONL f;
                    version = (if expectedContextVersion \<le> 0 then contextVersionForEntries entries
                               else expectedContextVersion)
                in (updateCacheLocked st conversationID version entries now, Inr entries))
           | None \<Rightarrow>
               (case dk_legacy (fs_files st conversationID) of
                  NoFile \<Rightarrow> (st, Inr [])
                | BadFile \<Rightarrow> (st, Inl ContextUndecodable)
                | FileWith entries \<Rightarrow>
                    (let version = (if expectedContextVersion \<le> 0 then contextVersionForEntries entries
                                    else expectedContextVersion)
                     in (updateCacheLocked st conversationID version entries now, Inr entries)))))"

definition readConversationLocked ::
  "decoders \<Rightarrow> ConversationFileStore \<Rightarrow> string \<Rightarrow> gtime \<Rightarrow>
   ConversationFileStore \<times> (store_error + ConversationFile option)" where
  "readConversationLocked dc st conversationID now =
     (case dk_state (fs_files st conversationID) of
        NoFile \<Rightarrow> (st, Inr None)
      | BadFile \<Rightarrow> (st, Inl StateUndecodable)
      | FileWith c \<Rightarrow>
          (case readContextLocked st conversationID (cf_ContextVersion c) now of
             (st1, Inl e) \<Rightarrow> (st1, Inl e)
           | (st1, Inr entries) \<Rightarrow>
               (st1, Inr (Some (normalizeLoadedConversation dc conversationID now (c\<lparr>cf_Entries := entries\<rparr>))))))"

text \<open>The metadata that \<open>writeConversationMetaLocked\<close> writes, and the conversation it leaves in memory.\<close>

definition meta_conversation ::
  "decoders \<Rightarrow> string \<Rightarrow> gtime \<Rightarrow> ConversationFile \<Rightarrow> state_error + ConversationFile" where
  "meta_conversation dc conversationID now c =
     (let n = normalizeLoadedConversation dc conversationID now c;
          keep = (TrimSpace (cf_CurrentLoopStatus c) \<noteq> [] \<and>
                  (TrimSpace (cf_CurrentRequestID c) = [] \<or>
                   conversationHasRequestEntry (cf_Entries n) (cf_CurrentRequestID c) (cf_CurrentTurnSeq c)));
          n1 = (if keep then n\<lparr>cf_CurrentLoopID := cf_CurrentLoopID c, cf_CurrentLoopStatus := cf_CurrentLoopStatus c,
                              cf_CurrentRequestID := cf_CurrentRequestID c, cf_CurrentTurnSeq := cf_CurrentTurnSeq c\<rparr>
                else n)
      in refreshConversationRuntimeState dc now n1)"

definition writeConversationMetaLocked ::
  "decoders \<Rightarrow> io_outcomes \<Rightarrow> ConversationFileStore \<Rightarrow> string \<Rightarrow> ConversationFile \<Rightarrow> gtime \<Rightarrow>
   ConversationFileStore \<times> (store_error + ConversationFile)" where
  "writeConversationMetaLocked dc io st conversationID c now =
     (case meta_conversation dc conversationID now c of
        Inl e \<Rightarrow> (st, Inl (StateProjection e))
      | Inr c1 \<Rightarrow>
          (let metadata = c1\<lparr>cf_SchemaVersion := conversationSchemaVersion,
                             cf_ContextVersion := contextVersionForEntries (cf_Entries c1), cf_Entries := []\<rparr>;
               st1 = set_files st conversationID ((fs_files st conversationID)\<lparr>dk_state := FileWith metadata\<rparr>)
           in case io_state io of
                WriteOk \<Rightarrow> (st1, Inr c1)
              | WriteFailed \<Rightarrow> (st, Inl WriteError)
              | WrittenThenFailed \<Rightarrow> (st1, Inl WriteError)))"

definition writeContextLocked ::
  "io_outcomes \<Rightarrow> ConversationFileStore \<Rightarrow> string \<Rightarrow> HistoryEntry list \<Rightarrow> ConversationFileStore \<times> store_error option" where
  "writeContextLocked io st conversationID entries =
     (if \<not> list_all encodable entries then (st, Some EntryNotEncodable)
      else let fl = fs_files st conversationID
           in case io_context io of
                WriteOk \<Rightarrow> (set_files st conversationID (fl\<lparr>dk_jsonl := Some (fresh_lines entries), dk_legacy := NoFile\<rparr>), None)
              | WriteFailed \<Rightarrow> (st, Some WriteError)
              | WrittenThenFailed \<Rightarrow> (set_files st conversationID (fl\<lparr>dk_jsonl := Some (fresh_lines entries)\<rparr>), Some WriteError))"

definition writeConversationLocked ::
  "decoders \<Rightarrow> io_outcomes \<Rightarrow> ConversationFileStore \<Rightarrow> string \<Rightarrow> ConversationFile \<Rightarrow> gtime \<Rightarrow>
   ConversationFileStore \<times> (store_error + ConversationFile)" where
  "writeConversationLocked dc io st conversationID c now =
     (let c1 = normalizeLoadedConversation dc conversationID now c
      in case writeContextLocked io st conversationID (cf_Entries c1) of
           (st1, Some e) \<Rightarrow> (st1, Inl e)
         | (st1, None) \<Rightarrow>
             writeConversationMetaLocked dc io
               (updateCacheLocked st1 conversationID (cf_ContextVersion c1) (cf_Entries c1) now) conversationID c1 now)"

text \<open>Appending: only the new entries when the file exists, all of them otherwise.\<close>

definition append_context ::
  "io_outcomes \<Rightarrow> ConversationFileStore \<Rightarrow> string \<Rightarrow> HistoryEntry list \<Rightarrow> HistoryEntry list \<Rightarrow>
   ConversationFileStore \<times> store_error option" where
  "append_context io st conversationID allEntries assigned =
     (let fl = fs_files st conversationID
      in case dk_jsonl fl of
           None \<Rightarrow> writeContextLocked io st conversationID allEntries
         | Some f \<Rightarrow>
             (if assigned = [] then (st, None)
              else let encoded = list_all encodable assigned
                   in case io_append io of
                        AppendOk \<Rightarrow>
                          (if \<not> encoded then (st, Some EntryNotEncodable)
                           else (set_files st conversationID
                                   (fl\<lparr>dk_jsonl := Some (append_lines f assigned), dk_legacy := NoFile\<rparr>), None))
                      | AppendFailed n torn \<Rightarrow>
                          (let f1 = append_lines f (take n (takeWhile encodable assigned));
                               f2 = (if torn then f1\<lparr>ctx_tail := TornTail\<rparr> else f1)
                           in (set_files st conversationID (fl\<lparr>dk_jsonl := Some f2\<rparr>),
                               Some (if encoded then WriteError else EntryNotEncodable)))))"

definition appendConversationEntriesLocked ::
  "decoders \<Rightarrow> io_outcomes \<Rightarrow> ConversationFileStore \<Rightarrow> string \<Rightarrow> ConversationFile \<Rightarrow> HistoryEntry list \<Rightarrow> gtime \<Rightarrow>
   ConversationFileStore \<times> (store_error + ConversationFile)" where
  "appendConversationEntriesLocked dc io st conversationID c assigned now =
     (let c1 = normalizeLoadedConversation dc conversationID now c
      in case append_context io st conversationID (cf_Entries c1) assigned of
           (st1, Some e) \<Rightarrow> (st1, Inl e)
         | (st1, None) \<Rightarrow>
             writeConversationMetaLocked dc io
               (updateCacheLocked st1 conversationID (cf_ContextVersion c1) (cf_Entries c1) now) conversationID c1 now)"

subsection \<open>Operations of the store\<close>

type_synonym conversation_update = "ConversationFile \<Rightarrow> store_error + ConversationFile"

definition new_conversation :: "string \<Rightarrow> gtime \<Rightarrow> ConversationFile" where
  "new_conversation conversationID now =
     zero_conversation\<lparr>cf_SchemaVersion := conversationSchemaVersion, cf_ConversationID := conversationID,
       cf_RootConversationID := conversationID, cf_NextTurnSeq := 1, cf_NextEntrySeq := 1, cf_CreatedAt := now\<rparr>"

definition mutateConversation ::
  "decoders \<Rightarrow> io_outcomes \<Rightarrow> ConversationFileStore \<Rightarrow> string \<Rightarrow> bool \<Rightarrow> conversation_update option \<Rightarrow> gtime \<Rightarrow>
   ConversationFileStore \<times> (store_error + ConversationFile option)" where
  "mutateConversation dc io st conversationID0 createIfMissing update now =
     (case validateConversationID conversationID0 of
        Inl e \<Rightarrow> (st, Inl e)
      | Inr cid \<Rightarrow>
          (case readConversationLocked dc st cid now of
             (st1, Inl e) \<Rightarrow> (st1, Inl e)
           | (st1, Inr loaded) \<Rightarrow>
               (if loaded = None \<and> \<not> createIfMissing then (st1, Inr None)
                else let c = (case loaded of Some c \<Rightarrow> c | None \<Rightarrow> new_conversation cid now)
                     in case update of
                          None \<Rightarrow> (st1, Inr (Some c))
                        | Some u \<Rightarrow>
                            (case u c of
                               Inl e \<Rightarrow> (st1, Inl e)
                             | Inr c1 \<Rightarrow>
                                 (case writeConversationLocked dc io st1 cid (deriveConversationLoopState c1) now of
                                    (st2, Inl e) \<Rightarrow> (st2, Inl e)
                                  | (st2, Inr c2) \<Rightarrow> (st2, Inr (Some c2)))))))"

definition create_update ::
  "string \<Rightarrow> AgentMode \<Rightarrow> string \<Rightarrow> string \<Rightarrow> string \<Rightarrow> gtime \<Rightarrow> conversation_update" where
  "create_update conversationID mode parentConversationID parentToolCallID rootConversationID now c =
     (if TrimSpace (cf_ConversationID c) \<noteq> []
      then (if TrimSpace (cf_Mode c) = []
            then (case modeAlias mode of Inl e \<Rightarrow> Inl (ModeRejected e) | Inr a \<Rightarrow> Inr (c\<lparr>cf_Mode := a\<rparr>))
            else Inr c)
      else if TrimSpace conversationID = [] then Inl ConversationIDRequired
      else case modeAlias mode of
             Inl e \<Rightarrow> Inl (ModeRejected e)
           | Inr a \<Rightarrow>
               Inr (c\<lparr>cf_SchemaVersion := conversationSchemaVersion, cf_ConversationID := TrimSpace conversationID,
                      cf_RootConversationID := (if TrimSpace rootConversationID = [] then TrimSpace conversationID
                                                else TrimSpace rootConversationID),
                      cf_ParentConversationID := TrimSpace parentConversationID,
                      cf_ParentToolCallID := TrimSpace parentToolCallID, cf_Mode := a, cf_CreatedAt := now,
                      cf_UpdatedAt := now, cf_NextTurnSeq := 1, cf_NextEntrySeq := 1, cf_ContextVersion := 0,
                      cf_CurrentLoopStatus := ''idle'', cf_Entries := []\<rparr>))"

definition CreateConversation ::
  "decoders \<Rightarrow> io_outcomes \<Rightarrow> ConversationFileStore \<Rightarrow> string \<Rightarrow> AgentMode \<Rightarrow> string \<Rightarrow> string \<Rightarrow> string \<Rightarrow> gtime \<Rightarrow>
   ConversationFileStore \<times> (store_error + ConversationFile option)" where
  "CreateConversation dc io st conversationID mode parentConversationID parentToolCallID rootConversationID now =
     mutateConversation dc io st conversationID True
       (Some (create_update conversationID mode parentConversationID parentToolCallID rootConversationID now)) now"

definition LoadConversation ::
  "decoders \<Rightarrow> ConversationFileStore \<Rightarrow> string \<Rightarrow> gtime \<Rightarrow>
   ConversationFileStore \<times> (store_error + ConversationFile option)" where
  "LoadConversation dc st conversationID now =
     mutateConversation dc \<lparr>io_context = WriteOk, io_append = AppendOk, io_state = WriteOk\<rparr> st conversationID False None now"

definition AppendEntriesWithUpdate ::
  "decoders \<Rightarrow> io_outcomes \<Rightarrow> ConversationFileStore \<Rightarrow> string \<Rightarrow> HistoryEntry list \<Rightarrow> conversation_update option \<Rightarrow>
   gtime \<Rightarrow> ConversationFileStore \<times> (store_error + (ConversationFile option \<times> HistoryEntry list))" where
  "AppendEntriesWithUpdate dc io st conversationID0 entries update now =
     (if entries = [] \<and> update = None
      then (case LoadConversation dc st conversationID0 now of
              (st1, Inl e) \<Rightarrow> (st1, Inl e) | (st1, Inr c) \<Rightarrow> (st1, Inr (c, [])))
      else case validateConversationID conversationID0 of
             Inl e \<Rightarrow> (st, Inl e)
           | Inr cid \<Rightarrow>
               (case readConversationLocked dc st cid now of
                  (st1, Inl e) \<Rightarrow> (st1, Inl e)
                | (st1, Inr loaded) \<Rightarrow>
                    (let c = (case loaded of Some c \<Rightarrow> c | None \<Rightarrow> (new_conversation cid now)\<lparr>cf_Mode := ''agent''\<rparr>);
                         (c1, assigned) = appendEntriesInPlace c entries now
                     in case (case update of None \<Rightarrow> Inr c1 | Some u \<Rightarrow> u c1) of
                          Inl e \<Rightarrow> (st1, Inl e)
                        | Inr c2 \<Rightarrow>
                            (case appendConversationEntriesLocked dc io st1 cid (deriveConversationLoopState c2)
                                    assigned now of
                               (st2, Inl e) \<Rightarrow> (st2, Inl e)
                             | (st2, Inr c3) \<Rightarrow> (st2, Inr (Some c3, assigned))))))"

definition SaveConversationWithEntries ::
  "decoders \<Rightarrow> io_outcomes \<Rightarrow> ConversationFileStore \<Rightarrow> string \<Rightarrow> ConversationFile option \<Rightarrow> HistoryEntry list \<Rightarrow>
   gtime \<Rightarrow> ConversationFileStore \<times> (store_error + ConversationFile)" where
  "SaveConversationWithEntries dc io st conversationID0 source entries now =
     (case validateConversationID conversationID0 of
        Inl e \<Rightarrow> (st, Inl e)
      | Inr cid \<Rightarrow>
          (case readConversationLocked dc st cid now of
             (st1, Inl e) \<Rightarrow> (st1, Inl e)
           | (st1, Inr loaded) \<Rightarrow>
               (let c = (case loaded of Some c \<Rightarrow> c | None \<Rightarrow> new_conversation cid now);
                    c1 = (case source of None \<Rightarrow> c | Some s \<Rightarrow> mergeConversationMetadata c s);
                    c2 = fst (appendEntriesInPlace c1 (resetEntrySequences entries) now)
                in writeConversationLocked dc io st1 cid (deriveConversationLoopState c2) now)))"

definition UpdateConversationMeta ::
  "decoders \<Rightarrow> io_outcomes \<Rightarrow> ConversationFileStore \<Rightarrow> string \<Rightarrow> conversation_update option \<Rightarrow> gtime \<Rightarrow>
   ConversationFileStore \<times> (store_error + ConversationFile)" where
  "UpdateConversationMeta dc io st conversationID0 update now =
     (case validateConversationID conversationID0 of
        Inl e \<Rightarrow> (st, Inl e)
      | Inr cid \<Rightarrow>
          (case readConversationLocked dc st cid now of
             (st1, Inl e) \<Rightarrow> (st1, Inl e)
           | (st1, Inr loaded) \<Rightarrow>
               (let c = (case loaded of Some c \<Rightarrow> c | None \<Rightarrow> new_conversation cid now)
                in case (case update of None \<Rightarrow> Inr c | Some u \<Rightarrow> u c) of
                     Inl e \<Rightarrow> (st1, Inl e)
                   | Inr c1 \<Rightarrow> writeConversationMetaLocked dc io st1 cid c1 now)))"

definition ReplaceEntries ::
  "decoders \<Rightarrow> io_outcomes \<Rightarrow> ConversationFileStore \<Rightarrow> string \<Rightarrow> HistoryEntry list \<Rightarrow> conversation_update option \<Rightarrow>
   gtime \<Rightarrow> ConversationFileStore \<times> (store_error + ConversationFile)" where
  "ReplaceEntries dc io st conversationID0 entries update now =
     (case validateConversationID conversationID0 of
        Inl e \<Rightarrow> (st, Inl e)
      | Inr cid \<Rightarrow>
          (case readConversationLocked dc st cid now of
             (st1, Inl e) \<Rightarrow> (st1, Inl e)
           | (st1, Inr loaded) \<Rightarrow>
               (let c = (case loaded of Some c \<Rightarrow> c | None \<Rightarrow> new_conversation cid now);
                    c1 = fst (appendEntriesInPlace
                           (c\<lparr>cf_Entries := [], cf_NextEntrySeq := 1, cf_NextTurnSeq := 1\<rparr>)
                           (resetEntrySequences entries) now)
                in case (case update of None \<Rightarrow> Inr c1 | Some u \<Rightarrow> u c1) of
                     Inl e \<Rightarrow> (st1, Inl e)
                   | Inr c2 \<Rightarrow> writeConversationLocked dc io st1 cid (deriveConversationLoopState c2) now)))"

subsection \<open>Numbering of entries\<close>

definition conv_ok :: "ConversationFile \<Rightarrow> bool" where
  "conv_ok c \<longleftrightarrow> 1 \<le> cf_NextEntrySeq c \<and> sorted_wrt (<) (map he_Seq (cf_Entries c)) \<and>
     distinct (entry_keys (cf_Entries c)) \<and>
     (\<forall>e \<in> set (cf_Entries c). 0 < he_Seq e \<and> he_Seq e < cf_NextEntrySeq c \<and> he_TurnSeq e < cf_NextTurnSeq c)"

lemma entry_keys_simps [simp]:
  "entry_keys [] = []"
  "entry_keys (e # es) = (if TrimSpace (he_IdempotencyKey e) \<noteq> [] then TrimSpace (he_IdempotencyKey e) # entry_keys es
     else entry_keys es)"
  "entry_keys (xs @ ys) = entry_keys xs @ entry_keys ys"
  by (simp_all add: entry_keys_def)

lemma upto_Cons: "i \<le> j \<Longrightarrow> [i..j] = i # [i + 1..j]" for i j :: int
  by (subst upto.simps) simp

lemma assign_entries_spec:
  assumes "assign_entries now keys n t es = (as, n', t')" "\<forall>e \<in> set es. he_Seq e \<le> 0"
  shows "map he_Seq as = [n..n' - 1] \<and> n' = n + int (length as) \<and> t \<le> t' \<and> (\<forall>e \<in> set as. he_TurnSeq e \<le> t') \<and>
    distinct (entry_keys as) \<and> set (entry_keys as) = set (entry_keys es) - set keys"
  using assms
proof (induction es arbitrary: keys n t as n' t')
  case Nil
  then show ?case by simp
next
  case (Cons e es)
  let ?k = "TrimSpace (he_IdempotencyKey e)"
  have seq: "he_Seq e \<le> 0" and rest: "\<forall>e \<in> set es. he_Seq e \<le> 0" using Cons.prems(2) by simp_all
  show ?case
  proof (cases "?k \<noteq> [] \<and> ?k \<in> set keys")
    case True
    then have "assign_entries now keys n t es = (as, n', t')" using Cons.prems(1) by (simp add: Let_def)
    from Cons.IH [OF this rest] True show ?thesis by auto
  next
    case False
    define ks where "ks = (if ?k \<noteq> [] then ?k # keys else keys)"
    define x where "x = (if IsZero (he_CreatedAt e) then e\<lparr>he_CreatedAt := now\<rparr> else e)"
    define e2 where "e2 = x\<lparr>he_Seq := n\<rparr>"
    obtain bs m u where r: "assign_entries now ks (n + 1) (max t (he_TurnSeq e2)) es = (bs, m, u)"
      by (metis prod_cases3)
    have x: "he_Seq x = he_Seq e" "he_IdempotencyKey x = he_IdempotencyKey e" by (simp_all add: x_def)
    have "assign_entries now keys n t (e # es) =
        (let (es', n1, t1) = assign_entries now ks (n + 1) (max t (he_TurnSeq e2)) es in (e2 # es', n1, t1))"
      using False seq x(1) by (simp add: Let_def flip: ks_def x_def) (auto simp: e2_def)
    then have res: "as = e2 # bs" "n' = m" "t' = u" using Cons.prems(1) r by simp_all
    note ih = Cons.IH [OF r rest]
    have k: "TrimSpace (he_IdempotencyKey e2) = ?k" "he_Seq e2 = n" by (simp_all add: e2_def x)
    show ?thesis using ih False by (auto simp: res k ks_def upto_Cons split: if_splits)
  qed
qed

lemma assign_entries_noop:
  "set (entry_keys es) \<subseteq> set keys \<Longrightarrow> \<forall>e \<in> set es. TrimSpace (he_IdempotencyKey e) \<noteq> [] \<Longrightarrow>
     fst (assign_entries now keys n t es) = []"
  by (induction es) (auto simp: Let_def)

lemma append_spec:
  assumes "conv_ok c" "\<forall>e \<in> set es. he_Seq e \<le> 0" "appendEntriesInPlace c es now = (c', as)"
  shows "conv_ok c' \<and> cf_Entries c' = cf_Entries c @ as \<and>
    map he_Seq as = [cf_NextEntrySeq c..cf_NextEntrySeq c' - 1] \<and>
    set (entry_keys (cf_Entries c')) = set (entry_keys (cf_Entries c)) \<union> set (entry_keys es)"
proof (cases "es = []")
  case True
  with assms show ?thesis by (simp add: appendEntriesInPlace_def)
next
  case False
  obtain bs n t where r: "assign_entries now (entry_keys (cf_Entries c)) (cf_NextEntrySeq c) (cf_NextTurnSeq c - 1) es = (bs, n, t)"
    by (metis prod_cases3)
  note spec = assign_entries_spec [OF r assms(2)]
  have c': "cf_Entries c' = cf_Entries c @ bs" "as = bs" "cf_NextEntrySeq c' = n"
    "cf_NextTurnSeq c' = (if cf_NextTurnSeq c < t + 1 then t + 1 else cf_NextTurnSeq c)"
    using assms(3) False r by (auto simp: appendEntriesInPlace_def Let_def)
  have bseq: "\<forall>e \<in> set bs. cf_NextEntrySeq c \<le> he_Seq e \<and> he_Seq e < n"
  proof
    fix e assume "e \<in> set bs"
    then have "he_Seq e \<in> set (map he_Seq bs)" by simp
    also have "\<dots> = {cf_NextEntrySeq c..n - 1}" using spec by simp
    finally show "cf_NextEntrySeq c \<le> he_Seq e \<and> he_Seq e < n" by simp
  qed
  have "sorted_wrt (<) (map he_Seq bs)" using spec by (metis sorted_wrt_upto)
  then have "conv_ok c'"
    using assms(1) spec bseq c' unfolding conv_ok_def
    by (auto simp: sorted_wrt_append split: if_splits)
  then show ?thesis using spec c' by auto
qed

text \<open>
  C8. Appending numbers entries without gaps or repetition: new entries take the next numbers in
  order, nothing already there changes, an entry whose idempotency key is already present is left
  out, and the conversation stays well formed (strictly increasing numbers below the next number,
  one entry per key, turns below the next turn).
\<close>

theorem append_numbers_entries:
  assumes "conv_ok c" "\<forall>e \<in> set es. he_Seq e \<le> 0" "appendEntriesInPlace c es now = (c', as)"
  shows "conv_ok c' \<and> cf_Entries c' = cf_Entries c @ as \<and>
    map he_Seq as = [cf_NextEntrySeq c..cf_NextEntrySeq c' - 1] \<and>
    set (entry_keys (cf_Entries c')) = set (entry_keys (cf_Entries c)) \<union> set (entry_keys es)"
  using append_spec [OF assms] .

definition demo_entry :: "string \<Rightarrow> string \<Rightarrow> HistoryEntry" where
  "demo_entry k req = \<lparr>he_Seq = 0, he_TurnSeq = 1, he_RequestID = req, he_IdempotencyKey = k, he_Role = ''user'',
     he_Kind = ''user_message'', he_ToolCallID = [], he_ParentToolCallID = [], he_Payload = RawValue (JObj []), he_CreatedAt = 3\<rparr>"

theorem append_numbers_entries_witness:
  "map he_Seq (snd (appendEntriesInPlace (new_conversation ''c'' 1)
     [demo_entry ''k'' ''r'', demo_entry ''k'' ''r'', demo_entry [] ''r''] 5)) = [1, 2]"
proof -
  let ?es = "[demo_entry ''k'' ''r'', demo_entry ''k'' ''r'', demo_entry [] ''r'']"
  obtain c' as where r: "appendEntriesInPlace (new_conversation ''c'' 1) ?es 5 = (c', as)" by fastforce
  have "conv_ok (new_conversation ''c'' 1)"
    by (simp add: conv_ok_def new_conversation_def zero_conversation_def)
  moreover have "\<forall>e \<in> set ?es. he_Seq e \<le> 0" by (simp add: demo_entry_def)
  ultimately have "map he_Seq as = [cf_NextEntrySeq (new_conversation ''c'' 1)..cf_NextEntrySeq c' - 1]"
    using append_numbers_entries r by blast
  moreover have "cf_NextEntrySeq (fst (appendEntriesInPlace (new_conversation ''c'' 1) ?es 5)) = 3"
    "cf_NextEntrySeq (new_conversation ''c'' 1) = 1" by code_simp+
  ultimately show ?thesis by (simp add: r upto.simps)
qed

text \<open>
  C17. Appending is idempotent for keyed entries: repeating a batch in which every entry has an
  idempotency key adds nothing, however long after the first time.
\<close>

theorem append_keyed_idempotent:
  assumes "conv_ok c" "\<forall>e \<in> set es. he_Seq e \<le> 0 \<and> TrimSpace (he_IdempotencyKey e) \<noteq> []"
    and "set (entry_keys (cf_Entries (fst (appendEntriesInPlace c es now)))) \<subseteq> set (entry_keys (cf_Entries c'))"
  shows "snd (appendEntriesInPlace c' es later) = []"
proof -
  obtain d as where d: "appendEntriesInPlace c es now = (d, as)" by fastforce
  have "set (entry_keys (cf_Entries d)) = set (entry_keys (cf_Entries c)) \<union> set (entry_keys es)"
    using append_spec [OF assms(1) _ d] assms(2) by blast
  then have "set (entry_keys es) \<subseteq> set (entry_keys (cf_Entries c'))" using assms(3) d by simp
  then have "fst (assign_entries later (entry_keys (cf_Entries c')) n t es) = []" for n t
    using assms(2) by (intro assign_entries_noop) auto
  then show ?thesis by (auto simp: appendEntriesInPlace_def Let_def split_beta)
qed

theorem append_keyed_idempotent_witness:
  "snd (appendEntriesInPlace (fst (appendEntriesInPlace (new_conversation ''c'' 1) [demo_entry ''k'' ''r''] 5))
     [demo_entry ''k'' ''r''] 9) = []"
proof -
  have c: "conv_ok (new_conversation ''c'' 1)"
    by (simp add: conv_ok_def new_conversation_def zero_conversation_def)
  have "TrimSpace ''k'' \<noteq> []" by code_simp
  then have e: "\<forall>e \<in> set [demo_entry ''k'' ''r'']. he_Seq e \<le> 0 \<and> TrimSpace (he_IdempotencyKey e) \<noteq> []"
    by (simp add: demo_entry_def)
  show ?thesis by (rule append_keyed_idempotent [OF c e subset_refl])
qed

subsection \<open>Reading back what was written\<close>

definition disk_entries :: "conversation_files \<Rightarrow> HistoryEntry list" where
  "disk_entries fl =
     (case dk_jsonl fl of
        Some f \<Rightarrow> readContextJSONL f
      | None \<Rightarrow> (case dk_legacy fl of FileWith es \<Rightarrow> es | _ \<Rightarrow> []))"

text \<open>
  The store's invariant: no entries file ends in an unfinished line, a conversation without a
  metadata file has no entries, and what is cached of a conversation is what its file holds. Two lists of entries hold the same when they are written the
  same way.
\<close>

abbreviation same_entries :: "HistoryEntry list \<Rightarrow> HistoryEntry list \<Rightarrow> bool" where
  "same_entries xs ys \<equiv> map stored xs = map stored ys"

definition history_ok :: "ConversationFileStore \<Rightarrow> bool" where
  "history_ok st \<longleftrightarrow>
     (\<forall>cid f. dk_jsonl (fs_files st cid) = Some f \<longrightarrow> ctx_tail f = NoTail) \<and>
     (\<forall>cid. dk_state (fs_files st cid) = NoFile \<longrightarrow> disk_entries (fs_files st cid) = []) \<and>
     (\<forall>cid ce. map_of (fs_entriesCache st) cid = Some ce \<longrightarrow> same_entries (ce_entries ce) (disk_entries (fs_files st cid)))"

lemma stored_idem [simp]: "stored (stored e) = stored e"
  by (simp add: stored_def)

lemma map_filter_Some [simp]: "List.map_filter id (map (Some \<circ> f) xs) = map f xs"
  by (induction xs) (simp_all add: List.map_filter_simps)

lemma map_filter_append [simp]: "List.map_filter f (xs @ ys) = List.map_filter f xs @ List.map_filter f ys"
  by (simp add: List.map_filter_def)

lemma read_fresh [simp]: "readContextJSONL (fresh_lines es) = map stored es"
  by (simp add: readContextJSONL_def fresh_lines_def)

lemma read_append:
  "ctx_tail f = NoTail \<Longrightarrow> readContextJSONL (append_lines f es) = readContextJSONL f @ map stored es"
  by (cases es) (simp_all add: readContextJSONL_def append_lines_def List.map_filter_simps)

lemma append_lines_tail: "ctx_tail f = NoTail \<Longrightarrow> ctx_tail (append_lines f es) = NoTail"
  by (cases es) (simp_all add: append_lines_def)


lemma cache_update_lookup:
  "map_of (fs_entriesCache (updateCacheLocked st cid v es now)) k =
     (if k = cid then Some \<lparr>ce_contextVersion = v, ce_entries = es, ce_cachedAt = now\<rparr>
      else map_of (fs_entriesCache (updateCacheLocked st cid v es now)) k)"
  "k \<noteq> cid \<Longrightarrow> map_of (fs_entriesCache (updateCacheLocked st cid v es now)) k = Some ce \<Longrightarrow>
     map_of (fs_entriesCache st) k = Some ce"
  by (auto simp: updateCacheLocked_def Let_def map_of_update_gomap map_of_delete_gomap split: if_splits option.splits)

lemma updateCache_files [simp]: "fs_files (updateCacheLocked st cid v es now) = fs_files st"
  by (simp add: updateCacheLocked_def Let_def)

lemma getCached_update:
  "getCachedEntries (updateCacheLocked st cid v es now) cid w = (if 0 < w \<and> w = v then Some es else None)"
  using cache_update_lookup(1) [of st cid v es now cid] by (simp add: getCachedEntries_def)

lemma history_ok_cache:
  assumes "history_ok st" "same_entries es (disk_entries (fs_files st cid))"
  shows "history_ok (updateCacheLocked st cid v es now)"
proof -
  have "same_entries (ce_entries ce) (disk_entries (fs_files st k))"
    if "map_of (fs_entriesCache (updateCacheLocked st cid v es now)) k = Some ce" for k ce
  proof (cases "k = cid")
    case True
    with that cache_update_lookup(1) [of st cid v es now k] assms(2) show ?thesis by auto
  next
    case False
    then show ?thesis using cache_update_lookup(2) [OF False that] assms(1) by (auto simp: history_ok_def)
  qed
  then show ?thesis using assms(1) by (simp add: history_ok_def)
qed


text \<open>Writing the entries of a conversation, caching them, and writing its metadata.\<close>

lemma disk_entries_state [simp]: "disk_entries (fl\<lparr>dk_state := x\<rparr>) = disk_entries fl"
  by (simp add: disk_entries_def split: option.split disk_file.split)

lemma history_ok_write:
  assumes "history_ok st" "\<forall>f. dk_jsonl fl = Some f \<longrightarrow> ctx_tail f = NoTail" "same_entries es (disk_entries fl)"
  shows "history_ok (set_files (updateCacheLocked (set_files st cid fl) cid v es now) cid (fl\<lparr>dk_state := FileWith m\<rparr>))"
proof -
  let ?u = "updateCacheLocked (set_files st cid fl) cid v es now"
  let ?w = "set_files ?u cid (fl\<lparr>dk_state := FileWith m\<rparr>)"
  have cache: "fs_entriesCache ?w = fs_entriesCache ?u" by (simp add: set_files_def)
  have files: "fs_files ?w k = (if k = cid then fl\<lparr>dk_state := FileWith m\<rparr> else fs_files st k)" for k
    by (simp add: set_files_def)
  have "same_entries (ce_entries ce) (disk_entries (fs_files ?w k))"
    if "map_of (fs_entriesCache ?u) k = Some ce" for k ce
  proof (cases "k = cid")
    case True
    with that cache_update_lookup(1) [of "set_files st cid fl" cid v es now k] assms(3) show ?thesis
      by (auto simp: files)
  next
    case False
    then have "map_of (fs_entriesCache st) k = Some ce"
      using cache_update_lookup(2) [OF False that] by (simp add: set_files_def)
    with assms(1) False show ?thesis by (auto simp: history_ok_def files)
  qed
  then show ?thesis using assms(1,2) unfolding history_ok_def cache by (auto simp: files)
qed

lemma readContext_ok:
  assumes "history_ok st" "readContextLocked st cid v now = (st1, r)"
  shows "history_ok st1 \<and> fs_files st1 = fs_files st \<and> (\<forall>es. r = Inr es \<longrightarrow> same_entries es (disk_entries (fs_files st cid)))"
proof (cases "getCachedEntries st cid v")
  case (Some es)
  then obtain ce where "map_of (fs_entriesCache st) cid = Some ce" "es = ce_entries ce"
    by (auto simp: getCachedEntries_def split: option.splits if_splits)
  with Some assms show ?thesis by (auto simp: history_ok_def readContextLocked_def)
next
  case None
  note r = assms(2) [unfolded readContextLocked_def None option.case Let_def]
  show ?thesis
  proof (cases "dk_jsonl (fs_files st cid)")
    case (Some f)
    then have "same_entries (readContextJSONL f) (disk_entries (fs_files st cid))" by (simp add: disk_entries_def)
    with r Some history_ok_cache [OF assms(1) this] show ?thesis by auto
  next
    case nojsonl: None
    show ?thesis
    proof (cases "dk_legacy (fs_files st cid)")
      case (FileWith es)
      then have "same_entries es (disk_entries (fs_files st cid))" using nojsonl by (simp add: disk_entries_def)
      with r nojsonl FileWith history_ok_cache [OF assms(1) this] show ?thesis by auto
    qed (use r nojsonl assms(1) in \<open>auto simp: disk_entries_def\<close>)
  qed
qed

lemma absorb_entries [simp]: "cf_Entries (foldl absorb_entry c es) = cf_Entries c"
  by (induction es arbitrary: c) (simp_all add: absorb_entry_def)

lemma loop_fields_entries:
  "cf_Entries (c\<lparr>cf_SchemaVersion := sv, cf_ContextVersion := cv, cf_CurrentRequestID := r, cf_CurrentTurnSeq := t,
     cf_CurrentLoopID := i, cf_CurrentLoopStatus := s\<rparr>) = cf_Entries c"
  by simp

lemma derive_entries [simp]: "cf_Entries (deriveConversationLoopState c) = cf_Entries c"
  by (simp only: deriveConversationLoopState_def Let_def split_beta loop_fields_entries)

lemma normalize_entries [simp]: "cf_Entries (normalizeLoadedConversation dc cid now c) = cf_Entries c"
  by (simp add: normalizeLoadedConversation_def Let_def)

lemma refresh_entries: "refreshConversationRuntimeState dc now c = Inr c' \<Longrightarrow> cf_Entries c' = cf_Entries c"
  by (auto simp: refreshConversationRuntimeState_def split: sum.splits)

lemma meta_entries: "meta_conversation dc cid now c = Inr c' \<Longrightarrow> cf_Entries c' = cf_Entries c"
  by (auto simp: meta_conversation_def Let_def split: if_splits dest!: refresh_entries)

lemma readConversation_ok:
  assumes "history_ok st" "readConversationLocked dc st cid now = (st1, r)"
  shows "history_ok st1 \<and> fs_files st1 = fs_files st \<and>
    (r = Inr None \<longrightarrow> disk_entries (fs_files st cid) = []) \<and>
    (\<forall>c. r = Inr (Some c) \<longrightarrow> same_entries (cf_Entries c) (disk_entries (fs_files st cid)))"
proof (cases "dk_state (fs_files st cid)")
  case (FileWith c)
  obtain st2 q where q: "readContextLocked st cid (cf_ContextVersion c) now = (st2, q)" by fastforce
  with readContext_ok [OF assms(1) q] FileWith assms(2) show ?thesis
    by (auto simp: readConversationLocked_def split: sum.splits)
qed (use assms in \<open>auto simp: readConversationLocked_def history_ok_def\<close>)

lemma writeMeta_ok:
  assumes "history_ok st" "\<forall>f. dk_jsonl fl = Some f \<longrightarrow> ctx_tail f = NoTail" "same_entries (cf_Entries c) (disk_entries fl)"
    and "writeConversationMetaLocked dc io (updateCacheLocked (set_files st cid fl) cid v (cf_Entries c) now) cid c now = (st', Inr c')"
  shows "history_ok st' \<and> (\<exists>m. fs_files st' cid = fl\<lparr>dk_state := FileWith m\<rparr>) \<and> cf_Entries c' = cf_Entries c"
proof -
  obtain c1 where c1: "meta_conversation dc cid now c = Inr c1" "c' = c1"
    using assms(4) by (auto simp: writeConversationMetaLocked_def Let_def split: sum.splits write_outcome.splits)
  then obtain m where "st' = set_files (updateCacheLocked (set_files st cid fl) cid v (cf_Entries c) now) cid (fl\<lparr>dk_state := FileWith m\<rparr>)"
    using assms(4) by (auto simp: writeConversationMetaLocked_def Let_def set_files_def split: sum.splits write_outcome.splits)
  then show ?thesis using history_ok_write [OF assms(1-3)] meta_entries [OF c1(1)] c1(2) by (auto simp: set_files_def)
qed

lemma set_files_same [simp]: "set_files st cid (fs_files st cid) = st"
  by (simp add: set_files_def)


lemma writeContext_ok:
  assumes "writeContextLocked io st cid es = (st1, None)"
  shows "\<exists>fl. st1 = set_files st cid fl \<and> disk_entries fl = map stored es \<and>
    (\<forall>f. dk_jsonl fl = Some f \<longrightarrow> ctx_tail f = NoTail) \<and> dk_jsonl fl \<noteq> None"
proof -
  let ?fl = "(fs_files st cid)\<lparr>dk_jsonl := Some (fresh_lines es), dk_legacy := NoFile\<rparr>"
  have "st1 = set_files st cid ?fl"
    using assms by (auto simp: writeContextLocked_def Let_def split: if_splits write_outcome.splits)
  moreover have "disk_entries ?fl = map stored es" by (simp add: disk_entries_def)
  moreover have "ctx_tail (fresh_lines es) = NoTail" by (simp add: fresh_lines_def)
  ultimately show ?thesis by (intro exI [of _ ?fl]) simp
qed

lemma append_context_ok:
  assumes "history_ok st" "append_context io st cid es as = (st1, None)"
    and "es = old @ as" "same_entries old (disk_entries (fs_files st cid))"
  shows "\<exists>fl. st1 = set_files st cid fl \<and> same_entries es (disk_entries fl) \<and>
    (\<forall>f. dk_jsonl fl = Some f \<longrightarrow> ctx_tail f = NoTail) \<and> dk_jsonl fl \<noteq> None"
proof (cases "dk_jsonl (fs_files st cid)")
  case None
  then have "writeContextLocked io st cid es = (st1, None)" using assms(2) by (simp add: append_context_def)
  from writeContext_ok [OF this] show ?thesis by auto
next
  case (Some f)
  have tail: "ctx_tail f = NoTail" using assms(1) Some by (auto simp: history_ok_def)
  show ?thesis
  proof (cases "as = []")
    case True
    then have "st1 = st" using assms(2) Some by (simp add: append_context_def)
    with True assms(3,4) Some tail show ?thesis by (intro exI [of _ "fs_files st cid"]) simp
  next
    case False
    let ?fl = "(fs_files st cid)\<lparr>dk_jsonl := Some (append_lines f as), dk_legacy := NoFile\<rparr>"
    have "st1 = set_files st cid ?fl"
      using assms(2) Some False by (auto simp: append_context_def Let_def split: if_splits append_outcome.splits)
    moreover have "same_entries es (disk_entries ?fl)"
      using assms(3,4) Some by (simp add: disk_entries_def read_append [OF tail])
    ultimately show ?thesis using append_lines_tail [OF tail] by (intro exI [of _ ?fl]) simp
  qed
qed

lemma appendConversation_ok:
  assumes "history_ok st" "appendConversationEntriesLocked dc io st cid c as now = (st', Inr c')"
    and "cf_Entries c = old @ as" "same_entries old (disk_entries (fs_files st cid))"
  shows "history_ok st' \<and> cf_Entries c' = old @ as \<and> same_entries (old @ as) (disk_entries (fs_files st' cid)) \<and>
    (\<exists>m. dk_state (fs_files st' cid) = FileWith m) \<and> dk_jsonl (fs_files st' cid) \<noteq> None"
proof -
  let ?n = "normalizeLoadedConversation dc cid now c"
  obtain st1 where a: "append_context io st cid (cf_Entries c) as = (st1, None)"
    and w: "writeConversationMetaLocked dc io (updateCacheLocked st1 cid (cf_ContextVersion ?n) (cf_Entries ?n) now) cid ?n now = (st', Inr c')"
    using assms(2) by (auto simp: appendConversationEntriesLocked_def Let_def split: prod.splits option.splits)
  from append_context_ok [OF assms(1) a assms(3,4)] obtain fl where fl: "st1 = set_files st cid fl"
    "same_entries (cf_Entries ?n) (disk_entries fl)" "\<forall>f. dk_jsonl fl = Some f \<longrightarrow> ctx_tail f = NoTail" "dk_jsonl fl \<noteq> None"
    by auto
  from writeMeta_ok [OF assms(1) fl(3,2) w [unfolded fl(1)]] fl(2,4) assms(3) show ?thesis by auto
qed

lemma writeConversation_ok:
  assumes "history_ok st" "writeConversationLocked dc io st cid c now = (st', Inr c')"
  shows "history_ok st' \<and> cf_Entries c' = cf_Entries c \<and> same_entries (cf_Entries c) (disk_entries (fs_files st' cid)) \<and>
    (\<exists>m. dk_state (fs_files st' cid) = FileWith m) \<and> dk_jsonl (fs_files st' cid) \<noteq> None"
proof -
  let ?n = "normalizeLoadedConversation dc cid now c"
  obtain st1 where a: "writeContextLocked io st cid (cf_Entries c) = (st1, None)"
    and w: "writeConversationMetaLocked dc io (updateCacheLocked st1 cid (cf_ContextVersion ?n) (cf_Entries ?n) now) cid ?n now = (st', Inr c')"
    using assms(2) by (auto simp: writeConversationLocked_def Let_def split: prod.splits option.splits)
  from writeContext_ok [OF a] obtain fl where fl: "st1 = set_files st cid fl"
    "same_entries (cf_Entries ?n) (disk_entries fl)" "\<forall>f. dk_jsonl fl = Some f \<longrightarrow> ctx_tail f = NoTail" "dk_jsonl fl \<noteq> None"
    by auto
  from writeMeta_ok [OF assms(1) fl(3,2) w [unfolded fl(1)]] fl(2,4) show ?thesis by auto
qed

lemma load_present:
  assumes "history_ok st" "validateConversationID cid0 = Inr cid"
    and "dk_state (fs_files st cid) = FileWith m" "dk_jsonl (fs_files st cid) \<noteq> None"
  shows "\<exists>st' d. LoadConversation dc st cid0 now = (st', Inr (Some d)) \<and> history_ok st' \<and>
    same_entries (cf_Entries d) (disk_entries (fs_files st cid))"
proof -
  obtain st1 r where r: "readContextLocked st cid (cf_ContextVersion m) now = (st1, r)" by fastforce
  then obtain es where es: "r = Inr es" using assms(4) by (auto simp: readContextLocked_def Let_def split: option.splits)
  from readContext_ok [OF assms(1) r] es
  have "history_ok st1" "same_entries es (disk_entries (fs_files st cid))" by simp_all
  then show ?thesis using assms(2,3) r es
    by (simp add: LoadConversation_def mutateConversation_def readConversationLocked_def Let_def)
qed

text \<open>An update callback that leaves the entries alone, as the one compaction passes does.\<close>

definition keeps_entries :: "conversation_update option \<Rightarrow> bool" where
  "keeps_entries update \<longleftrightarrow> (\<forall>u c c'. update = Some u \<longrightarrow> u c = Inr c' \<longrightarrow> cf_Entries c' = cf_Entries c)"

lemma append_entries_list: "appendEntriesInPlace c es now = (c', as) \<Longrightarrow> cf_Entries c' = cf_Entries c @ as"
  by (auto simp: appendEntriesInPlace_def Let_def split: if_splits prod.splits)

lemma append_op_ok:
  assumes "history_ok st" "keeps_entries update" "validateConversationID cid0 = Inr cid" "es \<noteq> [] \<or> update \<noteq> None"
    and "AppendEntriesWithUpdate dc io st cid0 es update now = (st', Inr (Some c, as))"
  shows "history_ok st' \<and> (\<exists>old. cf_Entries c = old @ as \<and> same_entries old (disk_entries (fs_files st cid))) \<and>
    same_entries (cf_Entries c) (disk_entries (fs_files st' cid)) \<and>
    (\<exists>m. dk_state (fs_files st' cid) = FileWith m) \<and> dk_jsonl (fs_files st' cid) \<noteq> None"
proof -
  obtain st1 loaded where rd: "readConversationLocked dc st cid now = (st1, Inr loaded)"
    using assms(3-5) by (auto simp: AppendEntriesWithUpdate_def split: if_splits prod.splits sum.splits)
  let ?c = "case loaded of Some c \<Rightarrow> c | None \<Rightarrow> (new_conversation cid now)\<lparr>cf_Mode := ''agent''\<rparr>"
  obtain c1 bs where ap: "appendEntriesInPlace ?c es now = (c1, bs)" by fastforce
  obtain c2 where up: "(case update of None \<Rightarrow> Inr c1 | Some u \<Rightarrow> u c1) = Inr c2" "as = bs"
    and w: "appendConversationEntriesLocked dc io st1 cid (deriveConversationLoopState c2) bs now = (st', Inr c)"
    using assms(3-5) rd ap
    by (auto simp: AppendEntriesWithUpdate_def Let_def split: if_splits prod.splits sum.splits)
  note ok = readConversation_ok [OF assms(1) rd]
  have old: "same_entries (cf_Entries ?c) (disk_entries (fs_files st1 cid))"
    using ok by (cases loaded) (auto simp: new_conversation_def zero_conversation_def)
  have "cf_Entries (deriveConversationLoopState c2) = cf_Entries ?c @ bs"
    using up(1) assms(2) append_entries_list [OF ap] by (auto simp: keeps_entries_def split: option.splits)
  from appendConversation_ok [OF _ w this old] ok up(2) old show ?thesis by auto
qed


definition NewConversationFileStore :: ConversationFileStore where
  "NewConversationFileStore = \<lparr>fs_files = (\<lambda>_. no_files), fs_entriesCache = []\<rparr>"

definition clean_io :: io_outcomes where
  "clean_io = \<lparr>io_context = WriteOk, io_append = AppendOk, io_state = WriteOk\<rparr>"

lemma new_history_ok: "history_ok NewConversationFileStore"
  by (simp add: history_ok_def NewConversationFileStore_def no_files_def disk_entries_def)

lemma append_result_cases:
  assumes "case r of (st, Inr (Some c, as)) \<Rightarrow> P c | _ \<Rightarrow> False"
  obtains st c as where "r = (st, Inr (Some c, as))" "P c"
  using assms by (cases r; cases "snd r") (auto split: option.splits)

lemma demo_append_eval:
  "case AppendEntriesWithUpdate demo_decoders clean_io NewConversationFileStore '' c'' [demo_entry ''k'' ''r''] None 5 of
     (st', Inr (Some c, as)) \<Rightarrow> map he_Seq (cf_Entries c) = [1] | _ \<Rightarrow> False"
  by code_simp



subsection \<open>A first append that loses its metadata\<close>

lemma assign_dated:
  "\<forall>e \<in> set es. \<not> IsZero (he_CreatedAt e) \<Longrightarrow> assign_entries now keys n t es = assign_entries now' keys n t es"
  by (induction es arbitrary: keys n t) (simp_all add: Let_def)

lemma append_dated:
  "\<forall>e \<in> set es. \<not> IsZero (he_CreatedAt e) \<Longrightarrow> snd (appendEntriesInPlace c es now) = snd (appendEntriesInPlace c es now')"
  using assign_dated [of es now "entry_keys (cf_Entries c)" "cf_NextEntrySeq c" "cf_NextTurnSeq c - 1" now']
  by (auto simp: appendEntriesInPlace_def Let_def split_beta)

text \<open>The entries appended to a conversation that has no metadata file.\<close>

definition first_entries :: "string \<Rightarrow> HistoryEntry list \<Rightarrow> gtime \<Rightarrow> HistoryEntry list" where
  "first_entries cid es now = snd (appendEntriesInPlace ((new_conversation cid now)\<lparr>cf_Mode := ''agent''\<rparr>) es now)"

lemma first_entries_dated:
  "\<forall>e \<in> set es. \<not> IsZero (he_CreatedAt e) \<Longrightarrow> first_entries cid es now = first_entries cid es now'"
  using append_dated [of es "(new_conversation cid now)\<lparr>cf_Mode := ''agent''\<rparr>" now now']
  by (auto simp: first_entries_def appendEntriesInPlace_def Let_def split_beta new_conversation_def zero_conversation_def)

lemma append_without_state:
  assumes "validateConversationID cid0 = Inr cid" "es \<noteq> []" "dk_state (fs_files st cid) = NoFile"
    and "append_context io st cid (first_entries cid es now) (first_entries cid es now) = (st1, None)"
    and "AppendEntriesWithUpdate dc io st cid0 es None now = (st', r)"
  shows "dk_jsonl (fs_files st' cid) = dk_jsonl (fs_files st1 cid) \<and>
    (io_state io = WriteFailed \<longrightarrow> dk_state (fs_files st' cid) = dk_state (fs_files st1 cid) \<and> (\<exists>e. r = Inl e))"
proof -
  obtain c1 as where ap: "appendEntriesInPlace ((new_conversation cid now)\<lparr>cf_Mode := ''agent''\<rparr>) es now = (c1, as)" by fastforce
  then have as: "as = first_entries cid es now" "cf_Entries c1 = as"
    using append_entries_list [OF ap] by (simp_all add: first_entries_def new_conversation_def zero_conversation_def)
  let ?n = "normalizeLoadedConversation dc cid now (deriveConversationLoopState c1)"
  let ?w = "writeConversationMetaLocked dc io (updateCacheLocked st1 cid (cf_ContextVersion ?n) (cf_Entries ?n) now) cid ?n now"
  have "appendConversationEntriesLocked dc io st cid (deriveConversationLoopState c1) as now = ?w"
    using assms(4) as by (simp add: appendConversationEntriesLocked_def Let_def)
  moreover have "readConversationLocked dc st cid now = (st, Inr None)" using assms(3) by (simp add: readConversationLocked_def)
  ultimately have "(st', r) = (case ?w of (st2, Inl e) \<Rightarrow> (st2, Inl e) | (st2, Inr c3) \<Rightarrow> (st2, Inr (Some c3, as)))"
    using assms(1,2,5) ap by (simp add: AppendEntriesWithUpdate_def)
  then show ?thesis
    by (auto simp: writeConversationMetaLocked_def Let_def set_files_def split: sum.splits write_outcome.splits)
qed

text \<open>
  C19. A retried first append stores its entries twice: when the entries file of a new conversation is
  written but its metadata is not, the append fails; repeating it finds no metadata, takes the
  conversation for new, numbers the entries from the beginning again and appends them to the file
  that already holds them. The idempotency keys do not prevent it.
\<close>

theorem first_append_retry_duplicates:
  assumes "validateConversationID cid0 = Inr cid" "es \<noteq> []" "fs_files st cid = no_files"
    and "\<forall>e \<in> set es. \<not> IsZero (he_CreatedAt e)" "first_entries cid es now \<noteq> []"
    and "list_all encodable (first_entries cid es now)"
    and "AppendEntriesWithUpdate dc (clean_io\<lparr>io_state := WriteFailed\<rparr>) st cid0 es None now = (st1, r1)"
    and "AppendEntriesWithUpdate dc clean_io st1 cid0 es None later = (st2, r2)"
  shows "(\<exists>e. r1 = Inl e) \<and>
    disk_entries (fs_files st2 cid) = map stored (first_entries cid es now) @ map stored (first_entries cid es now)"
proof -
  let ?as = "first_entries cid es now"
  have io: "io_context clean_io = WriteOk" "io_append clean_io = AppendOk" by (simp_all add: clean_io_def)
  have nf: "dk_state (fs_files st cid) = NoFile" using assms(3) by (simp add: no_files_def)
  have a: "append_context (clean_io\<lparr>io_state := WriteFailed\<rparr>) st cid ?as ?as =
      (set_files st cid \<lparr>dk_state = NoFile, dk_jsonl = Some (fresh_lines ?as), dk_legacy = NoFile\<rparr>, None)"
    using assms(3,6) io by (simp add: append_context_def writeContextLocked_def no_files_def Let_def)
  from append_without_state [OF assms(1,2) nf a assms(7)]
  have s1: "dk_jsonl (fs_files st1 cid) = Some (fresh_lines ?as)" "dk_state (fs_files st1 cid) = NoFile" "\<exists>e. r1 = Inl e"
    by (simp_all add: set_files_def)
  have l: "first_entries cid es later = ?as" using first_entries_dated [OF assms(4)] .
  have "append_context clean_io st1 cid ?as ?as = (set_files st1 cid ((fs_files st1 cid)\<lparr>dk_jsonl :=
      Some (append_lines (fresh_lines ?as) ?as), dk_legacy := NoFile\<rparr>), None)"
    using s1(1) assms(5,6) io by (simp add: append_context_def Let_def)
  from append_without_state [OF assms(1,2) s1(2) this [folded l] assms(8)]
  have "dk_jsonl (fs_files st2 cid) = Some (append_lines (fresh_lines ?as) ?as)" by (simp add: set_files_def l)
  moreover have "ctx_tail (fresh_lines ?as) = NoTail" by (simp add: fresh_lines_def)
  ultimately show ?thesis using s1(3) by (simp add: disk_entries_def read_append)
qed

theorem first_append_retry_duplicates_witness:
  "\<exists>st1 e st2 r2. AppendEntriesWithUpdate demo_decoders (clean_io\<lparr>io_state := WriteFailed\<rparr>) NewConversationFileStore ''c''
       [demo_entry ''k'' ''r''] None 5 = (st1, Inl e) \<and>
     AppendEntriesWithUpdate demo_decoders clean_io st1 ''c'' [demo_entry ''k'' ''r''] None 6 = (st2, r2) \<and>
     map he_Seq (disk_entries (fs_files st2 ''c'')) = [1, 1]"
proof -
  have v: "validateConversationID ''c'' = Inr ''c''" by code_simp
  have n: "fs_files NewConversationFileStore ''c'' = no_files" by (simp add: NewConversationFileStore_def)
  have d: "\<forall>e \<in> set [demo_entry ''k'' ''r'']. \<not> IsZero (he_CreatedAt e)" by code_simp
  have f: "first_entries ''c'' [demo_entry ''k'' ''r''] 5 \<noteq> []" "list_all encodable (first_entries ''c'' [demo_entry ''k'' ''r''] 5)"
    "map he_Seq (map stored (first_entries ''c'' [demo_entry ''k'' ''r''] 5)) = [1]" by code_simp+
  obtain st1 r1 where a1: "AppendEntriesWithUpdate demo_decoders (clean_io\<lparr>io_state := WriteFailed\<rparr>) NewConversationFileStore ''c''
       [demo_entry ''k'' ''r''] None 5 = (st1, r1)" by fastforce
  obtain st2 r2 where a2: "AppendEntriesWithUpdate demo_decoders clean_io st1 ''c'' [demo_entry ''k'' ''r''] None 6 = (st2, r2)" by fastforce
  from first_append_retry_duplicates [OF v _ n d f(1,2) a1 a2] a1 a2 f(3) show ?thesis by auto
qed

end
