(* ===== verification/Edit_Text.thy ===== *)
theory Edit_Text
  imports Todo_State
begin

text \<open>
  The texts an edit works on (\<open>edit_result_helpers.go\<close>, \<open>post_write_reconcile.go\<close> and the pure parts of
  \<open>patch_edit_tool.go\<close> and \<open>write_tool.go\<close>): line endings, the unified diff that is shown for an edit, the
  arguments of the edit tools, and the replacement PatchEdit makes. The line diff itself is computed by
  the package \<open>go-diff\<close>, which is a parameter: what is relied on is that it returns whole lines whose
  equal and deleted parts make up the old text and whose equal and inserted parts make up the new one.
\<close>

subsection \<open>Replacing and counting\<close>

abbreviation LF :: char where "LF \<equiv> CHR 0x0A"
abbreviation CR :: char where "CR \<equiv> CHR 0x0D"

text \<open>\<open>strings.Count\<close> and \<open>strings.Replace\<close>; an empty pattern matches before every rune and at the end.\<close>

function count_matches :: "string \<Rightarrow> string \<Rightarrow> nat" where
  "count_matches [] p = 0"
| "count_matches (c # cs) p =
     (if p \<noteq> [] \<and> has_prefix (c # cs) p then Suc (count_matches (drop (length p) (c # cs)) p)
      else count_matches cs p)"
  by pat_completeness auto
termination by (relation "measure (length \<circ> fst)") auto

definition strings_Count :: "string \<Rightarrow> string \<Rightarrow> nat" where
  "strings_Count s p = (if p = [] then Suc (RuneCount s) else count_matches s p)"

function replace_matches :: "string \<Rightarrow> string \<Rightarrow> string \<Rightarrow> string" where
  "replace_matches p q [] = []"
| "replace_matches p q (c # cs) =
     (if p \<noteq> [] \<and> has_prefix (c # cs) p then q @ replace_matches p q (drop (length p) (c # cs))
      else c # replace_matches p q cs)"
  by pat_completeness auto
termination by (relation "measure (\<lambda>(p, q, s). length s)") auto

function insert_at_runes :: "string \<Rightarrow> string \<Rightarrow> string" where
  "insert_at_runes q [] = q"
| "insert_at_runes q (c # cs) =
     q @ take (rune_size (c # cs)) (c # cs) @ insert_at_runes q (drop (rune_size (c # cs)) (c # cs))"
  by pat_completeness auto
termination by (relation "measure (length \<circ> snd)") (auto simp: Suc_le_eq)

definition strings_ReplaceAll :: "string \<Rightarrow> string \<Rightarrow> string \<Rightarrow> string" where
  "strings_ReplaceAll s p q = (if p = [] then insert_at_runes q s else replace_matches p q s)"

fun replace_first :: "string \<Rightarrow> string \<Rightarrow> string \<Rightarrow> string" where
  "replace_first p q [] = (if p = [] then q else [])"
| "replace_first p q (c # cs) =
     (if has_prefix (c # cs) p then q @ drop (length p) (c # cs) else c # replace_first p q cs)"

subsection \<open>Line endings\<close>

definition normalizeCRLFToLF :: "string \<Rightarrow> string" where
  "normalizeCRLFToLF content =
     (if content = [] \<or> \<not> strings_Contains content [CR, LF] then content
      else strings_ReplaceAll content [CR, LF] [LF])"

definition normalizeLineEndingsToLF :: "string \<Rightarrow> string" where
  "normalizeLineEndingsToLF v =
     (if \<not> list_ex (\<lambda>c. c = CR \<or> c = LF) v then v
      else strings_ReplaceAll (strings_ReplaceAll v [CR, LF] [LF]) [CR] [LF])"

definition normalizeObservedLineEndingsToLF :: "string \<Rightarrow> string" where
  "normalizeObservedLineEndingsToLF content =
     (if content = [] then [] else strings_ReplaceAll (normalizeCRLFToLF content) [CR] [LF])"

text \<open>The scan of \<open>normalizeEditContentLineEndings\<close>: the text and, for each of its positions, the one it came from.\<close>

fun scan_endings :: "nat \<Rightarrow> string \<Rightarrow> string \<times> nat list" where
  "scan_endings index [] = ([], [])"
| "scan_endings index [c] = ([if c = CR then LF else c], [index + 1])"
| "scan_endings index (c # d # cs) =
     (if c = CR \<and> d = LF then (let (t, offsets) = scan_endings (index + 2) cs in (LF # t, (index + 2) # offsets))
      else if c = CR then (let (t, offsets) = scan_endings (index + 1) (d # cs) in (LF # t, (index + 1) # offsets))
      else (let (t, offsets) = scan_endings (index + 1) (d # cs) in (c # t, (index + 1) # offsets)))"

record normalizedEditContent =
  ne_Text :: string
  ne_OriginalOffsets :: "nat list"

definition normalizeEditContentLineEndings :: "string \<Rightarrow> normalizedEditContent" where
  "normalizeEditContentLineEndings content =
     (let (t, offsets) = scan_endings 0 content in \<lparr>ne_Text = t, ne_OriginalOffsets = 0 # offsets\<rparr>)"

text \<open>How often each line ending occurs, and the first one.\<close>

fun count_endings :: "string \<Rightarrow> (nat \<times> nat \<times> nat) \<times> string" where
  "count_endings [] = ((0, 0, 0), [])"
| "count_endings [c] =
     (if c = CR then ((0, 0, 1), [CR]) else if c = LF then ((0, 1, 0), [LF]) else ((0, 0, 0), []))"
| "count_endings (c # d # cs) =
     (if c = CR \<and> d = LF then (let ((crlf, lf, cr), first) = count_endings cs in ((crlf + 1, lf, cr), [CR, LF]))
      else if c = CR then (let ((crlf, lf, cr), first) = count_endings (d # cs) in ((crlf, lf, cr + 1), [CR]))
      else if c = LF then (let ((crlf, lf, cr), first) = count_endings (d # cs) in ((crlf, lf + 1, cr), [LF]))
      else count_endings (d # cs))"

definition dominantLineEnding :: "string \<Rightarrow> string \<Rightarrow> string" where
  "dominantLineEnding content fallback0 =
     (let fallback = (if fallback0 = [] then [LF] else fallback0);
          ((crlf, lf, cr), first) = count_endings content;
          count = (\<lambda>e. if e = [CR, LF] then crlf else if e = [LF] then lf else cr);
          (best, bestCount) = foldl (\<lambda>(best, bestCount) e. if count e > bestCount then (e, count e) else (best, bestCount))
            ([], 0) [[CR, LF], [LF], [CR]]
      in if bestCount = 0 then fallback
         else case find (\<lambda>e. count e = bestCount \<and> e = first) [[CR, LF], [LF], [CR]] of
                Some e \<Rightarrow> e | None \<Rightarrow> best)"

definition detectPreferredFileLineEnding :: "string \<Rightarrow> string" where
  "detectPreferredFileLineEnding content = dominantLineEnding content [LF]"

definition normalizeReplacementLineEndings :: "string \<Rightarrow> string \<Rightarrow> string" where
  "normalizeReplacementLineEndings newString lineEnding =
     (if \<not> list_ex (\<lambda>c. c = CR \<or> c = LF) newString then newString
      else let normalized = normalizeLineEndingsToLF newString
           in if lineEnding = [CR, LF] then strings_ReplaceAll normalized [LF] [CR, LF]
              else if lineEnding = [CR] then strings_ReplaceAll normalized [LF] [CR]
              else normalized)"

fun systematicallyDoubledLineEndings :: "string \<Rightarrow> string" where
  "systematicallyDoubledLineEndings [] = []"
| "systematicallyDoubledLineEndings [c] = (if c = LF then [LF, LF] else [c])"
| "systematicallyDoubledLineEndings (c # d # cs) =
     (if c = CR \<and> d = LF then [CR, LF, CR, LF] @ systematicallyDoubledLineEndings cs
      else if c = LF then [LF, LF] @ systematicallyDoubledLineEndings (d # cs)
      else c # systematicallyDoubledLineEndings (d # cs))"

definition isASCIILetter :: "char \<Rightarrow> bool" where
  "isASCIILetter c \<longleftrightarrow> byte_in 97 122 c \<or> byte_in 65 90 c"

definition looksLikeWindowsPath :: "string \<Rightarrow> bool" where
  "looksLikeWindowsPath path =
     (let t = TrimSpace path
      in if length t \<ge> 3 \<and> isASCIILetter (t ! 0) \<and> t ! 1 = CHR '':'' then t ! 2 = CHR 0x5C \<or> t ! 2 = CHR ''/''
         else has_prefix t [CHR 0x5C, CHR 0x5C])"

definition prepareWriteContentsForClient :: "string \<Rightarrow> string \<Rightarrow> string" where
  "prepareWriteContentsForClient path contents =
     (if \<not> looksLikeWindowsPath path \<or> \<not> strings_Contains contents [CR, LF] then contents
      else normalizeCRLFToLF contents)"

definition preparePatchEditWriteContentsForClient :: "string \<Rightarrow> string" where
  "preparePatchEditWriteContentsForClient contents =
     (if \<not> strings_Contains contents [CR] then contents else normalizeObservedLineEndingsToLF contents)"

definition reconcilePostWriteObservedContent :: "string \<Rightarrow> string \<Rightarrow> string \<times> bool" where
  "reconcilePostWriteObservedContent expected observed =
     (if observed = expected then (observed, False)
      else if observed = systematicallyDoubledLineEndings expected then (expected, True)
      else let e = normalizeObservedLineEndingsToLF expected; o' = normalizeObservedLineEndingsToLF observed
           in if o' = e then (expected, True)
              else if o' = systematicallyDoubledLineEndings e then (expected, True)
              else (observed, False))"

text \<open>\<open>reconcilePatchEditObservedContent\<close> without its log line: the content, whether endings differed, whether it is accepted.\<close>

definition reconcilePatchEditObservedContent :: "string \<Rightarrow> string \<Rightarrow> string \<times> bool \<times> bool" where
  "reconcilePatchEditObservedContent expected observed =
     (if observed = expected then (observed, False, True)
      else if normalizeLineEndingsToLF expected = normalizeLineEndingsToLF observed then (observed, True, True)
      else (observed, False, False))"

subsection \<open>The unified diff\<close>

datatype diff_op = DiffEqual | DiffInsert | DiffDelete

type_synonym line_differ = "string \<Rightarrow> string \<Rightarrow> (diff_op \<times> string) list"

text \<open>\<open>strings.Split(text, LF)\<close>.\<close>

fun split_lf :: "string \<Rightarrow> string list" where
  "split_lf [] = [[]]"
| "split_lf (c # cs) =
     (if c = LF then [] # split_lf cs else case split_lf cs of l # ls \<Rightarrow> (c # l) # ls | [] \<Rightarrow> [[c]])"

definition splitLinesForUnifiedDiff :: "string \<Rightarrow> string list" where
  "splitLinesForUnifiedDiff t =
     (if t = [] then []
      else let rawLines = split_lf (strings_ReplaceAll (strings_ReplaceAll t [CR, LF] [LF]) [CR] [LF])
           in if last rawLines = [] then butlast rawLines else rawLines)"

definition splitDiffLines :: "(diff_op \<times> string) list \<Rightarrow> (diff_op \<times> string) list" where
  "splitDiffLines diffs =
     concat (map (\<lambda>(op, t). if t = [] then [] else map (Pair op) (splitLinesForUnifiedDiff t)) diffs)"

definition formatHunkRange :: "nat \<Rightarrow> nat \<Rightarrow> string \<Rightarrow> string" where
  "formatHunkRange start count prefix =
     (if count = 0 then prefix @ show_nat (if start = 1 then 0 else start) @ '',0''
      else if count = 1 then prefix @ show_nat start
      else prefix @ show_nat start @ '','' @ show_nat count)"

record hunk =
  hk_OrigStart :: nat
  hk_NewStart :: nat
  hk_Items :: "(diff_op \<times> string) list"

definition orig_count :: "(diff_op \<times> string) list \<Rightarrow> nat" where
  "orig_count items = length (filter (\<lambda>(op, _). op \<noteq> DiffInsert) items)"

definition new_count :: "(diff_op \<times> string) list \<Rightarrow> nat" where
  "new_count items = length (filter (\<lambda>(op, _). op \<noteq> DiffDelete) items)"

fun line_sign :: "diff_op \<Rightarrow> char" where
  "line_sign DiffEqual = CHR '' ''"
| "line_sign DiffDelete = CHR ''-''"
| "line_sign DiffInsert = CHR ''+''"

definition hunk_text :: "hunk \<Rightarrow> string" where
  "hunk_text h =
     ''@@ '' @ formatHunkRange (hk_OrigStart h) (orig_count (hk_Items h)) ''-'' @ '' '' @
     formatHunkRange (hk_NewStart h) (new_count (hk_Items h)) ''+'' @ '' @@'' @ [LF] @
     concat (map (\<lambda>(op, t). line_sign op # t @ [LF]) (hk_Items h))"

text \<open>The items to show: the changed ones and three around each of them.\<close>

definition contextRadius :: nat where
  "contextRadius = 3"

definition included :: "(diff_op \<times> string) list \<Rightarrow> bool list" where
  "included items =
     map (\<lambda>i. list_ex (\<lambda>j. fst (items ! j) \<noteq> DiffEqual \<and> j - contextRadius \<le> i \<and> i \<le> min (length items - 1) (j + contextRadius))
              [0..<length items]) [0..<length items]"

function diff_hunks :: "nat \<Rightarrow> nat \<Rightarrow> ((diff_op \<times> string) \<times> bool) list \<Rightarrow> hunk list" where
  "diff_hunks origLine newLine [] = []"
| "diff_hunks origLine newLine (((op, t), shown) # rest) =
     (if \<not> shown
      then diff_hunks (if op = DiffInsert then origLine else origLine + 1) (if op = DiffDelete then newLine else newLine + 1) rest
      else let items = map fst (takeWhile snd (((op, t), shown) # rest))
           in \<lparr>hk_OrigStart = origLine, hk_NewStart = newLine, hk_Items = items\<rparr>
              # diff_hunks (origLine + orig_count items) (newLine + new_count items) (dropWhile snd (((op, t), shown) # rest)))"
  by pat_completeness auto
termination
  by (relation "measure (\<lambda>(_, _, xs). length xs)") (auto simp: le_imp_less_Suc length_dropWhile_le)

definition renderUnifiedDiff :: "string \<Rightarrow> string \<Rightarrow> (diff_op \<times> string) list \<Rightarrow> string" where
  "renderUnifiedDiff before after diffs =
     (if before = after then []
      else if before = [] then
        (let ls = splitLinesForUnifiedDiff after
         in if ls = [] then []
            else (if length ls = 1 then ''@@ -0,0 +1 @@'' @ [LF]
                  else ''@@ -0,0 +1,'' @ show_nat (length ls) @ '' @@'' @ [LF])
                 @ concat (map (\<lambda>l. CHR ''+'' # l @ [LF]) ls))
      else if after = [] then
        (let ls = splitLinesForUnifiedDiff before
         in if ls = [] then []
            else (if length ls = 1 then ''@@ -1 +0,0 @@'' @ [LF]
                  else ''@@ -1,'' @ show_nat (length ls) @ '' +0,0 @@'' @ [LF])
                 @ concat (map (\<lambda>l. CHR ''-'' # l @ [LF]) ls))
      else let items = splitDiffLines diffs
           in if items = [] \<or> \<not> list_ex (\<lambda>(op, _). op \<noteq> DiffEqual) items then []
              else concat (map hunk_text (diff_hunks 1 1 (zip items (included items)))))"

definition countChangedLines :: "string \<Rightarrow> int" where
  "countChangedLines t =
     (if t = [] then 0 else count_newlines t + (if last t = LF then 0 else 1))"

definition computeEditDiff :: "line_differ \<Rightarrow> string \<Rightarrow> string \<Rightarrow> string \<times> int \<times> int" where
  "computeEditDiff dmp before after =
     (let diffs = dmp before after;
          added = sum_list (map (\<lambda>(op, t). if op = DiffInsert then countChangedLines t else 0) diffs);
          removed = sum_list (map (\<lambda>(op, t). if op = DiffDelete then countChangedLines t else 0) diffs)
      in (renderUnifiedDiff before after diffs, added, removed))"

subsection \<open>Arguments of the edit tools\<close>

text \<open>The value, whether one of the names is present, and whether it has the type.\<close>

fun readJSONStringAny :: "(string \<times> json) list \<Rightarrow> string list \<Rightarrow> string \<times> bool \<times> bool" where
  "readJSONStringAny args [] = ([], False, False)"
| "readJSONStringAny args (key # keys) =
     (case obj_get args key of
        None \<Rightarrow> readJSONStringAny args keys
      | Some (JStr v) \<Rightarrow> (v, True, True)
      | Some _ \<Rightarrow> ([], True, False))"

fun readJSONBoolAny :: "(string \<times> json) list \<Rightarrow> string list \<Rightarrow> bool \<times> bool \<times> bool" where
  "readJSONBoolAny args [] = (False, False, False)"
| "readJSONBoolAny args (key # keys) =
     (case obj_get args key of
        None \<Rightarrow> readJSONBoolAny args keys
      | Some (JBool v) \<Rightarrow> (v, True, True)
      | Some _ \<Rightarrow> (False, True, False))"

definition readStringAny :: "json option \<Rightarrow> string" where
  "readStringAny v = (case v of Some (JStr t) \<Rightarrow> TrimSpace t | _ \<Rightarrow> [])"

definition isAbsoluteToolPath :: "string \<Rightarrow> bool" where
  "isAbsoluteToolPath path =
     (let t = TrimSpace path
      in if t = [] then False
         else if has_prefix t ''/'' \<or> has_prefix t [CHR 0x5C, CHR 0x5C] then True
         else length t \<ge> 3 \<and> isASCIILetter (t ! 0) \<and> t ! 1 = CHR '':'' \<and> (t ! 2 = CHR 0x5C \<or> t ! 2 = CHR ''/''))"

datatype edit_error =
    ArgsNotJSON
  | PathNotString | PathMissing | PathNotAbsolute
  | OldStringNotString | OldStringMissing
  | NewStringNotString | NewStringMissing
  | ReplaceAllNotBool
  | OldStringNotFound
  | OldStringNotUnique nat

record patchEditArgs =
  pe_Path :: string
  pe_OldString :: string
  pe_NewString :: string
  pe_NewStringSet :: bool
  pe_ReplaceAll :: bool
  pe_ReplaceAllSet :: bool

definition decodePatchEditArgs :: "raw_json \<Rightarrow> patchEditArgs \<times> edit_error option" where
  "decodePatchEditArgs raw =
     (case struct_members raw of
        None \<Rightarrow> (\<lparr>pe_Path = [], pe_OldString = [], pe_NewString = [], pe_NewStringSet = False, pe_ReplaceAll = False,
                  pe_ReplaceAllSet = False\<rparr>, Some ArgsNotJSON)
      | Some args \<Rightarrow>
          (let (path, pathFound, pathValid) = readJSONStringAny args [''path'', ''file_path'', ''Path'', ''FilePath''];
               (oldString, oldFound, oldValid) = readJSONStringAny args [''old_string'', ''oldString'', ''OldString''];
               (newString, newFound, newValid) = readJSONStringAny args [''new_string'', ''newString'', ''NewString''];
               (replaceAll, allFound, allValid) = readJSONBoolAny args [''replace_all'', ''replaceAll'', ''ReplaceAll'']
           in (\<lparr>pe_Path = path, pe_OldString = normalizeLineEndingsToLF oldString,
                 pe_NewString = normalizeLineEndingsToLF newString, pe_NewStringSet = newFound,
                 pe_ReplaceAll = replaceAll, pe_ReplaceAllSet = allFound\<rparr>,
               if pathFound \<and> \<not> pathValid then Some PathNotString
               else if TrimSpace path = [] then Some PathMissing
               else if \<not> isAbsoluteToolPath path then Some PathNotAbsolute
               else if oldFound \<and> \<not> oldValid then Some OldStringNotString
               else if \<not> oldFound \<or> oldString = [] then Some OldStringMissing
               else if newFound \<and> \<not> newValid then Some NewStringNotString
               else if \<not> newFound then Some NewStringMissing
               else if allFound \<and> \<not> allValid then Some ReplaceAllNotBool
               else None)))"

record editComputation =
  ec_BeforeContent :: string
  ec_AfterContent :: string
  ec_DiffString :: string
  ec_LinesAdded :: int
  ec_LinesRemoved :: int
  ec_Message :: string

definition computePatchEdit :: "line_differ \<Rightarrow> patchEditArgs \<Rightarrow> string \<Rightarrow> edit_error + editComputation" where
  "computePatchEdit dmp args before0 =
     (let before = normalizeLineEndingsToLF before0; oldString = normalizeLineEndingsToLF (pe_OldString args);
          newString = normalizeLineEndingsToLF (pe_NewString args); occurrences = strings_Count before oldString
      in if occurrences = 0 then Inl OldStringNotFound
         else if 1 < occurrences \<and> \<not> pe_ReplaceAll args then Inl (OldStringNotUnique occurrences)
         else let after = (if pe_ReplaceAll args then strings_ReplaceAll before oldString newString
                           else replace_first oldString newString before);
                  (diffString, linesAdded, linesRemoved) = computeEditDiff dmp before after
              in Inr \<lparr>ec_BeforeContent = before, ec_AfterContent = after, ec_DiffString = diffString,
                      ec_LinesAdded = linesAdded, ec_LinesRemoved = linesRemoved, ec_Message = ''PatchEdit applied''\<rparr>)"

definition appendPatchEditMessage :: "string \<Rightarrow> string \<Rightarrow> string" where
  "appendPatchEditMessage existing addition =
     (if TrimSpace existing = [] then TrimSpace addition
      else if TrimSpace addition = [] then TrimSpace existing
      else TrimSpace existing @ ''; '' @ TrimSpace addition)"

record writeOperationArgs =
  wo_Path :: string
  wo_Contents :: string

definition decodeWriteOperationArgs :: "raw_json \<Rightarrow> edit_error + writeOperationArgs" where
  "decodeWriteOperationArgs raw =
     (case struct_members raw of
        None \<Rightarrow> Inl ArgsNotJSON
      | Some args \<Rightarrow>
          (let path = firstNonEmpty [readStringAny (obj_get args ''path''), readStringAny (obj_get args ''file_path'')];
               contents = firstNonEmpty [readStringAny (obj_get args ''contents''), readStringAny (obj_get args ''content''),
                 readStringAny (obj_get args ''stream_content''), readStringAny (obj_get args ''streamContent'')]
           in if TrimSpace path = [] then Inl PathMissing
              else if \<not> isAbsoluteToolPath path then Inl PathNotAbsolute
              else Inr \<lparr>wo_Path = path, wo_Contents = contents\<rparr>))"

subsection \<open>Line endings: the two passes are one scan\<close>

abbreviation lf :: "string \<Rightarrow> string" where
  "lf s \<equiv> replace_matches [CR] [LF] (replace_matches [CR, LF] [LF] s)"

lemma replace_none: "\<not> strings_Contains s p \<Longrightarrow> replace_matches p q s = s"
  by (induction p q s rule: replace_matches.induct) auto

lemma contains_CR_iff: "strings_Contains s [c] \<longleftrightarrow> c \<in> set s"
  by (induction s) auto

lemma lf_cases:
  "lf [] = []"
  "lf [c] = [if c = CR then LF else c]"
  "lf (c # d # cs) = (if c = CR \<and> d = LF then LF # lf cs else (if c = CR then LF else c) # lf (d # cs))"
  by (auto simp del: replace_matches.simps(2) simp: replace_matches.simps(2) [of _ _ c] replace_matches.simps(2) [of "[CR]"])

declare replace_matches.simps(2) [simp del]

lemma lf_scan: "lf s = fst (scan_endings i s)"
  by (induction i s rule: scan_endings.induct) (auto simp: lf_cases split_beta)

lemma lf_induct [case_names Nil One CRLF Other]:
  assumes "P []" "\<And>c. P [c]" "\<And>cs. P cs \<Longrightarrow> P (CR # LF # cs)"
    "\<And>c d cs. \<not> (c = CR \<and> d = LF) \<Longrightarrow> P (d # cs) \<Longrightarrow> P (c # d # cs)"
  shows "P s"
proof (induction "length s" arbitrary: s rule: less_induct)
  case less
  show ?case
  proof (cases s)
    case (Cons c t)
    then show ?thesis
      using less assms by (cases t; cases "c = CR \<and> hd t = LF") auto
  qed (simp add: assms)
qed

lemma normalizeLineEndingsToLF_eq: "normalizeLineEndingsToLF s = lf s"
proof (cases "list_ex (\<lambda>c. c = CR \<or> c = LF) s")
  case True
  then show ?thesis by (simp add: normalizeLineEndingsToLF_def strings_ReplaceAll_def)
next
  case False
  then have "CR \<notin> set s" by (auto simp: list_ex_iff)
  moreover from this have "\<not> strings_Contains s [CR, LF]"
    by (induction s) (auto simp: has_prefix_iff)
  ultimately have "lf s = s" by (simp add: replace_none contains_CR_iff)
  with False show ?thesis by (simp add: normalizeLineEndingsToLF_def)
qed

lemma normalizeObserved_eq: "normalizeObservedLineEndingsToLF s = lf s"
  by (auto simp: normalizeObservedLineEndingsToLF_def normalizeCRLFToLF_def strings_ReplaceAll_def replace_none)

lemma lf_no_CR: "CR \<notin> set (lf s)"
  by (induction s rule: lf_induct) (auto simp: lf_cases)

lemma lf_id: "CR \<notin> set s \<Longrightarrow> lf s = s"
proof -
  assume a: "CR \<notin> set s"
  then have "\<not> strings_Contains s [CR, LF]" by (induction s) (auto simp: has_prefix_iff)
  with a show ?thesis by (simp add: replace_none contains_CR_iff)
qed

lemma lf_idem: "lf (lf s) = lf s"
  by (simp only: lf_id [OF lf_no_CR])

lemma lf_append: "s \<noteq> [] \<Longrightarrow> last s = LF \<Longrightarrow> lf (s @ t) = lf s @ lf t"
proof (induction s rule: lf_induct)
  case (One c)
  then show ?case by (cases t) (auto simp: lf_cases)
next
  case (CRLF cs)
  then show ?case by (cases cs) (auto simp: lf_cases)
next
  case (Other c d cs)
  then show ?case by (auto simp: lf_cases)
qed simp

lemma last_lf: "s \<noteq> [] \<Longrightarrow> last s = LF \<Longrightarrow> lf s \<noteq> [] \<and> last (lf s) = LF"
  by (induction s rule: lf_induct) (auto simp: lf_cases split: if_splits)

subsection \<open>Lines\<close>

lemma split_lf_nonempty [simp]: "split_lf s \<noteq> []"
  by (induction s) (auto split: list.splits)

lemma split_lf_append_LF: "s \<noteq> [] \<Longrightarrow> last s = LF \<Longrightarrow> split_lf (s @ t) = butlast (split_lf s) @ split_lf t \<and> last (split_lf s) = []"
proof (induction s)
  case (Cons c s)
  show ?case
  proof (cases "s = []")
    case True
    with Cons show ?thesis by simp
  next
    case False
    with Cons have IH: "split_lf (s @ t) = butlast (split_lf s) @ split_lf t" "last (split_lf s) = []" by auto
    obtain l ls where s: "split_lf s = l # ls" by (meson neq_Nil_conv split_lf_nonempty)
    have "ls \<noteq> []"
    proof
      assume "ls = []"
      with IH s have "split_lf s = [[]]" by simp
      moreover have "LF \<in> set s" using Cons.prems False by (auto dest: last_in_set)
      then have "length (split_lf s) \<ge> 2" by (induction s) (auto split: list.splits simp: Suc_le_eq)
      ultimately show False by simp
    qed
    with IH s show ?thesis by (cases ls) auto
  qed
qed simp

lemma lines_eq: "t \<noteq> [] \<Longrightarrow> splitLinesForUnifiedDiff t =
    (let r = split_lf (lf t) in if last r = [] then butlast r else r)"
  by (simp add: splitLinesForUnifiedDiff_def strings_ReplaceAll_def)

lemma lines_Nil [simp]: "splitLinesForUnifiedDiff [] = []"
  by (simp add: splitLinesForUnifiedDiff_def)

lemma lines_append:
  assumes "s \<noteq> []" "last s = LF"
  shows "splitLinesForUnifiedDiff (s @ t) = splitLinesForUnifiedDiff s @ splitLinesForUnifiedDiff t"
proof -
  have l: "lf s \<noteq> []" "last (lf s) = LF" using last_lf assms by auto
  have s: "splitLinesForUnifiedDiff s = butlast (split_lf (lf s))"
    using split_lf_append_LF [OF l, of "[]"] assms by (simp add: lines_eq Let_def)
  show ?thesis
  proof (cases "t = []")
    case False
    then show ?thesis
      using assms s split_lf_append_LF [OF l, of "lf t"]
      by (simp add: lines_eq Let_def lf_append butlast_append)
  qed simp
qed

text \<open>Texts that are whole lines, up to the last of them.\<close>

fun whole_lines :: "string list \<Rightarrow> bool" where
  "whole_lines [] = True"
| "whole_lines [t] = True"
| "whole_lines (t # u # ts) = (t \<noteq> [] \<and> last t = LF \<and> whole_lines (u # ts))"

lemma lines_concat: "whole_lines ts \<Longrightarrow> concat (map splitLinesForUnifiedDiff ts) = splitLinesForUnifiedDiff (concat ts)"
  by (induction ts rule: whole_lines.induct) (auto simp: lines_append)

definition old_side :: "(diff_op \<times> string) list \<Rightarrow> string list" where
  "old_side xs = map snd (filter (\<lambda>(op, _). op \<noteq> DiffInsert) xs)"

definition new_side :: "(diff_op \<times> string) list \<Rightarrow> string list" where
  "new_side xs = map snd (filter (\<lambda>(op, _). op \<noteq> DiffDelete) xs)"

lemma side_simps [simp]:
  "old_side [] = []" "new_side [] = []"
  "old_side ((op, t) # xs) = (if op = DiffInsert then old_side xs else t # old_side xs)"
  "new_side ((op, t) # xs) = (if op = DiffDelete then new_side xs else t # new_side xs)"
  "old_side (xs @ ys) = old_side xs @ old_side ys" "new_side (xs @ ys) = new_side xs @ new_side ys"
  by (auto simp: old_side_def new_side_def)

lemma counts_sides: "orig_count xs = length (old_side xs)" "new_count xs = length (new_side xs)"
  by (simp_all add: orig_count_def new_count_def old_side_def new_side_def)

lemma side_map_Pair: "old_side (map (Pair op) ls) = (if op = DiffInsert then [] else ls)"
    "new_side (map (Pair op) ls) = (if op = DiffDelete then [] else ls)"
  by (induction ls) auto

lemma splitDiffLines_sides:
  "old_side (splitDiffLines ds) = concat (map splitLinesForUnifiedDiff (old_side ds)) \<and>
   new_side (splitDiffLines ds) = concat (map splitLinesForUnifiedDiff (new_side ds))"
  by (induction ds) (auto simp: splitDiffLines_def side_map_Pair)

text \<open>What is relied on of the line diff.\<close>

definition line_diff_ok :: "(diff_op \<times> string) list \<Rightarrow> string \<Rightarrow> string \<Rightarrow> bool" where
  "line_diff_ok ds before after \<longleftrightarrow>
     concat (old_side ds) = before \<and> concat (new_side ds) = after \<and> whole_lines (old_side ds) \<and> whole_lines (new_side ds)"

lemma diff_lines_sides:
  assumes "line_diff_ok ds before after"
  shows "old_side (splitDiffLines ds) = splitLinesForUnifiedDiff before"
    and "new_side (splitDiffLines ds) = splitLinesForUnifiedDiff after"
  using assms splitDiffLines_sides [of ds] by (auto simp: line_diff_ok_def lines_concat)

subsection \<open>Patching with the hunks\<close>

text \<open>
  What a reader of the diff does with a hunk and with a list of hunks: the lines before a hunk are kept,
  its kept and deleted lines must be those of the text, and its position in the new text must be the
  announced one. The result is the new text, or none if the hunks do not fit.
\<close>

fun apply_items :: "(diff_op \<times> string) list \<Rightarrow> string list \<Rightarrow> (string list \<times> string list) option" where
  "apply_items [] ls = Some ([], ls)"
| "apply_items ((DiffInsert, t) # items) ls = map_option (\<lambda>(out, rest). (t # out, rest)) (apply_items items ls)"
| "apply_items ((op, t) # items) [] = None"
| "apply_items ((op, t) # items) (l # ls) =
     (if l = t then map_option (\<lambda>(out, rest). (if op = DiffEqual then t # out else out, rest)) (apply_items items ls) else None)"

fun patch_lines :: "nat \<Rightarrow> nat \<Rightarrow> hunk list \<Rightarrow> string list \<Rightarrow> string list option" where
  "patch_lines origLine newLine [] ls = Some ls"
| "patch_lines origLine newLine (h # hs) ls =
     (let k = hk_OrigStart h - origLine
      in if hk_OrigStart h < origLine \<or> length ls < k \<or> hk_NewStart h \<noteq> newLine + k then None
         else case apply_items (hk_Items h) (drop k ls) of
                None \<Rightarrow> None
              | Some (out, rest) \<Rightarrow>
                  map_option (\<lambda>r. take k ls @ out @ r)
                    (patch_lines (origLine + k + orig_count (hk_Items h)) (newLine + k + new_count (hk_Items h)) hs rest))"

lemma apply_items_sides: "apply_items items (old_side items @ rest) = Some (new_side items, rest)"
proof (induction items)
  case (Cons i items)
  obtain op t where "i = (op, t)" by fastforce
  with Cons show ?case by (cases op) auto
qed simp

lemma diff_hunks_start: "h # hs = diff_hunks o' n xs \<Longrightarrow> o' \<le> hk_OrigStart h"
proof (induction o' n xs rule: diff_hunks.induct)
  case (2 o' n op t shown rest)
  then show ?case by (cases shown) (auto simp: Let_def split: if_splits)
qed simp

lemma patch_skip:
  assumes "\<And>h hs'. hs = h # hs' \<Longrightarrow> o' + 1 \<le> hk_OrigStart h"
  shows "patch_lines o' n hs (t # ls) = map_option ((#) t) (patch_lines (o' + 1) (n + 1) hs ls)"
proof (cases hs)
  case (Cons h hs')
  define k where "k = hk_OrigStart h - (o' + 1)"
  have k: "hk_OrigStart h - o' = Suc k" "\<not> hk_OrigStart h < o'" "\<not> hk_OrigStart h < o' + 1" "hk_OrigStart h - (o' + 1) = k"
    using assms [OF Cons] by (auto simp: k_def)
  show ?thesis
    unfolding Cons patch_lines.simps Let_def k
    using k(2,3) by (auto simp: option.map_comp comp_def add.assoc not_less_eq split: option.splits)
qed simp

lemma patch_diff_hunks:
  "(\<And>op t. ((op, t), False) \<in> set xs \<Longrightarrow> op = DiffEqual) \<Longrightarrow>
   patch_lines o' n (diff_hunks o' n xs) (old_side (map fst xs)) = Some (new_side (map fst xs))"
proof (induction o' n xs rule: diff_hunks.induct)
  case (2 o' n op t shown rest)
  show ?case
  proof (cases shown)
    case False
    with "2.prems" have op: "op = DiffEqual" by auto
    have IH: "patch_lines (o' + 1) (n + 1) (diff_hunks (o' + 1) (n + 1) rest) (old_side (map fst rest)) = Some (new_side (map fst rest))"
      using "2.IH"(1) "2.prems" False op by (auto simp del: One_nat_def)
    have "\<And>h hs. diff_hunks (o' + 1) (n + 1) rest = h # hs \<Longrightarrow> o' + 1 \<le> hk_OrigStart h"
      using diff_hunks_start by metis
    from patch_skip [OF this] IH show ?thesis using False op by (simp del: One_nat_def)
  next
    case True
    let ?xs = "((op, t), shown) # rest"
    let ?items = "map fst (takeWhile snd ?xs)" and ?after = "dropWhile snd ?xs"
    have split: "map fst ?xs = ?items @ map fst ?after" by (metis map_append takeWhile_dropWhile_id)
    have IH: "patch_lines (o' + orig_count ?items) (n + new_count ?items)
        (diff_hunks (o' + orig_count ?items) (n + new_count ?items) ?after) (old_side (map fst ?after)) = Some (new_side (map fst ?after))"
      using "2.IH"(2) [OF _ refl] "2.prems" True by (metis set_dropWhileD)
    have h: "diff_hunks o' n ?xs = \<lparr>hk_OrigStart = o', hk_NewStart = n, hk_Items = ?items\<rparr>
        # diff_hunks (o' + orig_count ?items) (n + new_count ?items) ?after"
      unfolding diff_hunks.simps Let_def using True by simp
    show ?thesis
      unfolding h split by (simp add: apply_items_sides IH del: takeWhile.simps dropWhile.simps)
  qed
qed simp

lemma included_changed:
  "((op, t), False) \<in> set (zip items (included items)) \<Longrightarrow> op = DiffEqual"
proof -
  assume "((op, t), False) \<in> set (zip items (included items))"
  then obtain i where i: "i < length items" "items ! i = (op, t)" "\<not> included items ! i"
    by (auto simp: in_set_zip included_def)
  then have "\<not> list_ex (\<lambda>j. fst (items ! j) \<noteq> DiffEqual \<and> j - contextRadius \<le> i \<and> i \<le> min (length items - 1) (j + contextRadius))
              [0..<length items]"
    by (simp add: included_def)
  with i show "op = DiffEqual"
    by (auto simp: list_ex_iff dest!: bspec [of _ _ i])
qed

lemma map_fst_zip_included: "map fst (zip items (included items)) = items"
  by (simp add: included_def)

lemma no_change_sides: "\<not> list_ex (\<lambda>(op, _). op \<noteq> DiffEqual) items \<Longrightarrow> old_side items = new_side items"
  by (induction items) auto

lemma show_nat_1 [simp]: "show_nat 0 = ''0''" "show_nat (Suc 0) = ''1''"
  by code_simp+

lemma hunk_text_insert:
  "ls \<noteq> [] \<Longrightarrow> hunk_text \<lparr>hk_OrigStart = 1, hk_NewStart = 1, hk_Items = map (Pair DiffInsert) ls\<rparr> =
     (if length ls = 1 then ''@@ -0,0 +1 @@'' @ [LF] else ''@@ -0,0 +1,'' @ show_nat (length ls) @ '' @@'' @ [LF])
     @ concat (map (\<lambda>l. CHR ''+'' # l @ [LF]) ls)"
  by (auto simp: hunk_text_def formatHunkRange_def counts_sides side_map_Pair comp_def)

lemma hunk_text_delete:
  "ls \<noteq> [] \<Longrightarrow> hunk_text \<lparr>hk_OrigStart = 1, hk_NewStart = 1, hk_Items = map (Pair DiffDelete) ls\<rparr> =
     (if length ls = 1 then ''@@ -1 +0,0 @@'' @ [LF] else ''@@ -1,'' @ show_nat (length ls) @ '' +0,0 @@'' @ [LF])
     @ concat (map (\<lambda>l. CHR ''-'' # l @ [LF]) ls)"
  by (auto simp: hunk_text_def formatHunkRange_def counts_sides side_map_Pair comp_def)

lemma patch_one_hunk:
  "patch_lines 1 1 [\<lparr>hk_OrigStart = 1, hk_NewStart = 1, hk_Items = items\<rparr>] (old_side items) = Some (new_side items)"
  using apply_items_sides [of items "[]"] by simp

lemma render_patches:
  assumes ok: "line_diff_ok ds before after"
  shows "\<exists>hs. renderUnifiedDiff before after ds = concat (map hunk_text hs) \<and>
    patch_lines 1 1 hs (splitLinesForUnifiedDiff before) = Some (splitLinesForUnifiedDiff after)"
proof -
  let ?old = "splitLinesForUnifiedDiff before" and ?new = "splitLinesForUnifiedDiff after"
  let ?items = "splitDiffLines ds"
  have sides: "old_side ?items = ?old" "new_side ?items = ?new" using diff_lines_sides [OF ok] .
  consider (same) "before = after" | (insert) "before \<noteq> after" "before = []" | (delete) "before \<noteq> after" "before \<noteq> []" "after = []"
    | (both) "before \<noteq> after" "before \<noteq> []" "after \<noteq> []" by blast
  then show ?thesis
  proof cases
    case same
    then show ?thesis by (intro exI [of _ "[]"]) (simp add: renderUnifiedDiff_def)
  next
    case insert
    show ?thesis
    proof (cases "?new = []")
      case True
      with insert show ?thesis by (intro exI [of _ "[]"]) (simp add: renderUnifiedDiff_def)
    next
      case False
      from patch_one_hunk [of "map (Pair DiffInsert) ?new"] insert False show ?thesis
        by (intro exI [of _ "[\<lparr>hk_OrigStart = 1, hk_NewStart = 1, hk_Items = map (Pair DiffInsert) ?new\<rparr>]"])
          (simp add: renderUnifiedDiff_def hunk_text_insert [simplified] side_map_Pair Let_def del: patch_lines.simps)
    qed
  next
    case delete
    show ?thesis
    proof (cases "?old = []")
      case True
      with delete show ?thesis by (intro exI [of _ "[]"]) (simp add: renderUnifiedDiff_def)
    next
      case False
      from patch_one_hunk [of "map (Pair DiffDelete) ?old"] delete False show ?thesis
        by (intro exI [of _ "[\<lparr>hk_OrigStart = 1, hk_NewStart = 1, hk_Items = map (Pair DiffDelete) ?old\<rparr>]"])
          (simp add: renderUnifiedDiff_def hunk_text_delete [simplified] side_map_Pair Let_def del: patch_lines.simps)
    qed
  next
    case both
    show ?thesis
    proof (cases "?items = [] \<or> \<not> list_ex (\<lambda>(op, _). op \<noteq> DiffEqual) ?items")
      case True
      then have "old_side ?items = new_side ?items" using no_change_sides by auto
      with True both sides show ?thesis by (intro exI [of _ "[]"]) (auto simp: renderUnifiedDiff_def Let_def)
    next
      case False
      have "patch_lines 1 1 (diff_hunks 1 1 (zip ?items (included ?items))) (old_side ?items) = Some (new_side ?items)"
        using patch_diff_hunks [of "zip ?items (included ?items)" 1 1] included_changed
        by (metis map_fst_zip_included)
      with False both sides show ?thesis
        by (intro exI [of _ "diff_hunks 1 1 (zip ?items (included ?items))"]) (simp add: renderUnifiedDiff_def Let_def)
    qed
  qed
qed

text \<open>A line diff that deletes the old text and inserts the new one, as an example of one that is relied on.\<close>

definition demo_differ :: line_differ where
  "demo_differ before after = [(DiffDelete, before), (DiffInsert, after)]"

lemma demo_differ_ok: "line_diff_ok (demo_differ before after) before after"
  by (simp add: line_diff_ok_def demo_differ_def)



subsection \<open>What a patch edit does\<close>

lemma join_with_Cons: "xs \<noteq> [] \<Longrightarrow> join_with sep (x # xs) = x @ sep @ join_with sep xs"
  by (cases xs) auto

lemma join_with_head: "join_with sep ((c # x) # xs) = c # join_with sep (x # xs)"
  by (cases xs) auto

lemma match_prefix:
  "p \<noteq> [] \<Longrightarrow> count_matches (p @ r) p = Suc (count_matches r p) \<and> replace_matches p q (p @ r) = q @ replace_matches p q r"
  by (cases p) (auto simp: has_prefix_iff replace_matches.simps(2))

lemma count_matches_split:
  "p \<noteq> [] \<Longrightarrow> \<exists>parts. s = join_with p parts \<and> length parts = Suc (count_matches s p) \<and>
    (\<forall>q. replace_matches p q s = join_with q parts) \<and> (\<forall>x \<in> set parts. count_matches x p = 0)"
proof (induction s p rule: count_matches.induct)
  case (1 p)
  then show ?case by (intro exI [of _ "[[]]"]) simp
next
  case (2 c cs p)
  show ?case
  proof (cases "has_prefix (c # cs) p")
    case True
    then obtain rest where rest: "c # cs = p @ rest" by (auto simp: has_prefix_iff)
    obtain parts where parts: "rest = join_with p parts" "length parts = Suc (count_matches rest p)"
        "\<And>q. replace_matches p q rest = join_with q parts" "\<forall>x \<in> set parts. count_matches x p = 0"
      using "2.IH"(1) "2.prems" True rest by (metis append_eq_conv_conj)
    from parts have "parts \<noteq> []" by auto
    with parts True rest "2.prems" show ?thesis
      unfolding rest by (intro exI [of _ "[] # parts"]) (simp add: join_with_Cons match_prefix)
  next
    case False
    with "2.IH"(2) "2.prems" obtain parts where parts: "cs = join_with p parts" "length parts = Suc (count_matches cs p)"
        "\<And>q. replace_matches p q cs = join_with q parts" "\<forall>x \<in> set parts. count_matches x p = 0" by auto
    then obtain x xs where x: "parts = x # xs" by (cases parts) auto
    have "\<not> has_prefix (c # x) p"
    proof
      assume "has_prefix (c # x) p"
      then obtain t where "c # x = p @ t" by (auto simp: has_prefix_iff)
      moreover obtain u where "cs = x @ u" using parts(1) x by (cases xs) auto
      ultimately have "c # cs = p @ t @ u" by simp
      with False show False by (auto simp: has_prefix_iff)
    qed
    with parts False x show ?thesis
      by (intro exI [of _ "(c # x) # xs"]) (auto simp: join_with_head replace_matches.simps(2))
  qed
qed

lemma count_zero_iff: "p \<noteq> [] \<Longrightarrow> count_matches s p = 0 \<longleftrightarrow> \<not> strings_Contains s p"
  by (induction s p rule: count_matches.induct) (auto simp: has_prefix_iff)

lemma replace_first_split:
  "count_matches s p = 1 \<Longrightarrow> p \<noteq> [] \<Longrightarrow> replace_first p q s = replace_matches p q s"
proof (induction s p rule: count_matches.induct)
  case (2 c cs p)
  show ?case
  proof (cases "has_prefix (c # cs) p")
    case True
    with 2 have "count_matches (drop (length p) (c # cs)) p = 0" by (simp split: if_splits)
    then have "replace_matches p q (drop (length p) (c # cs)) = drop (length p) (c # cs)"
      using "2.prems"(2) by (simp add: count_zero_iff replace_none)
    with True "2.prems" show ?thesis by (simp add: replace_matches.simps(2))
  next
    case False
    with 2 show ?thesis by (simp add: replace_matches.simps(2))
  qed
qed simp

lemma lf_nonempty: "s \<noteq> [] \<Longrightarrow> lf s \<noteq> []"
  by (induction s rule: lf_induct) (auto simp: lf_cases)

lemma countChangedLines_Nil [simp]: "countChangedLines [] = 0"
  by (simp add: countChangedLines_def)

lemma split_lf_single: "split_lf t = [l] \<Longrightarrow> l = t"
  by (induction t arbitrary: l) (auto split: list.splits if_splits)

lemma last_split_lf: "t \<noteq> [] \<Longrightarrow> last (split_lf t) = [] \<longleftrightarrow> last t = LF"
proof (induction t)
  case (Cons c t)
  show ?case
  proof (cases "t = []")
    case False
    obtain l ls where s: "split_lf t = l # ls" by (meson neq_Nil_conv split_lf_nonempty)
    with split_lf_single [of t] False have "ls = [] \<Longrightarrow> l \<noteq> []" by auto
    with s Cons.IH [OF False] False show ?thesis by (cases "c = LF"; cases ls; simp)
  qed simp
qed simp

text \<open>The number of lines announced for a diff of texts without carriage returns.\<close>

lemma lines_count: "CR \<notin> set t \<Longrightarrow> int (length (splitLinesForUnifiedDiff t)) = countChangedLines t"
proof (cases "t = []")
  case False
  assume cr: "CR \<notin> set t"
  have len: "int (length (split_lf t)) = count_newlines t + 1" for t
    by (induction t) (auto simp: count_newlines_def split: list.splits)
  have "last (split_lf t) = [] \<longleftrightarrow> last t = LF"
    by (rule last_split_lf [OF False])
  then show ?thesis
    using False cr len [of t] by (cases "split_lf t") (auto simp: lines_eq lf_id countChangedLines_def Let_def)
qed (simp add: countChangedLines_def)

lemma replace_matches_CR: "CR \<notin> set s \<Longrightarrow> CR \<notin> set q \<Longrightarrow> CR \<notin> set (replace_matches p q s)"
proof (induction p q s rule: replace_matches.induct)
  case (2 p q c cs)
  show ?case
  proof (cases "p \<noteq> [] \<and> has_prefix (c # cs) p")
    case True
    then have "CR \<notin> set (drop (length p) (c # cs))" using "2.prems"(1) in_set_dropD by metis
    with True "2.IH"(1) "2.prems"(2) show ?thesis by (simp add: replace_matches.simps(2))
  next
    case False
    with 2 show ?thesis by (auto simp: replace_matches.simps(2))
  qed
qed simp

lemma side_texts: "(op, t) \<in> set ds \<Longrightarrow> op \<noteq> DiffInsert \<Longrightarrow> set t \<subseteq> set (concat (old_side ds))"
    "(op, t) \<in> set ds \<Longrightarrow> op \<noteq> DiffDelete \<Longrightarrow> set t \<subseteq> set (concat (new_side ds))"
  by (force simp: old_side_def new_side_def)+

text \<open>The numbers of added and removed lines are those of the lines of the diff marked so.\<close>

lemma diff_counts:
  assumes "line_diff_ok (dmp b a) b a" "CR \<notin> set b" "CR \<notin> set a"
  shows "snd (computeEditDiff dmp b a) =
    (int (length (filter (\<lambda>(op, _). op = DiffInsert) (splitDiffLines (dmp b a)))),
     int (length (filter (\<lambda>(op, _). op = DiffDelete) (splitDiffLines (dmp b a)))))"
proof -
  have "sum_list (map (\<lambda>(op, t). if op = k then countChangedLines t else 0) ds) =
      int (length (filter (\<lambda>(op, _). op = k) (splitDiffLines ds)))" if "\<forall>(op, t) \<in> set ds. CR \<notin> set t" for ds k
    using that
    by (induction ds) (auto simp: splitDiffLines_def lines_count filter_map comp_def)
  moreover have "\<forall>(op, t) \<in> set (dmp b a). CR \<notin> set t"
  proof (rule ballI, clarify)
    fix op t
    assume m: "(op, t) \<in> set (dmp b a)" and cr: "CR \<in> set t"
    show False
    proof (cases "op = DiffInsert")
      case True
      with side_texts(2) [OF m] assms(1) have "set t \<subseteq> set a" by (simp add: line_diff_ok_def del: set_concat)
      with cr assms(3) show False by auto
    next
      case False
      with side_texts(1) [OF m] assms(1) have "set t \<subseteq> set b" by (simp add: line_diff_ok_def del: set_concat)
      with cr assms(2) show False by auto
    qed
  qed
  ultimately show ?thesis by (simp add: computeEditDiff_def Let_def)
qed

text \<open>
  C27. PatchEdit does what it announces, for every non-empty old string and every line diff that works: it
  reports that the old string is missing exactly when the normalised file does not contain it, and that it
  is not unique when it occurs more than once and not all occurrences are asked for. Otherwise the
  occurrences (one, unless all are asked for) are replaced by the new string and nothing else changes, and
  the diff and the numbers of lines shown describe this change.
\<close>
theorem patch_edit_replaces:
  assumes "pe_OldString args \<noteq> []" and "\<forall>b a. line_diff_ok (dmp b a) b a"
  shows "let b = normalizeLineEndingsToLF content; old = normalizeLineEndingsToLF (pe_OldString args);
             new = normalizeLineEndingsToLF (pe_NewString args)
         in case computePatchEdit dmp args content of
              Inl e \<Rightarrow> (e = OldStringNotFound \<and> \<not> strings_Contains b old) \<or>
                (\<exists>n. e = OldStringNotUnique n \<and> 1 < n \<and> n = strings_Count b old \<and> \<not> pe_ReplaceAll args)
            | Inr c \<Rightarrow>
                (\<exists>parts. b = join_with old parts \<and> ec_AfterContent c = join_with new parts \<and>
                  2 \<le> length parts \<and> (pe_ReplaceAll args \<or> length parts = 2) \<and> (\<forall>x \<in> set parts. \<not> strings_Contains x old)) \<and>
                (\<exists>hs. ec_DiffString c = concat (map hunk_text hs) \<and>
                  patch_lines 1 1 hs (splitLinesForUnifiedDiff b) = Some (splitLinesForUnifiedDiff (ec_AfterContent c))) \<and>
                ec_LinesAdded c = int (length (filter (\<lambda>(op, _). op = DiffInsert) (splitDiffLines (dmp b (ec_AfterContent c))))) \<and>
                ec_LinesRemoved c = int (length (filter (\<lambda>(op, _). op = DiffDelete) (splitDiffLines (dmp b (ec_AfterContent c)))))"
proof -
  define b where "b = normalizeLineEndingsToLF content"
  define old where "old = normalizeLineEndingsToLF (pe_OldString args)"
  define new where "new = normalizeLineEndingsToLF (pe_NewString args)"
  define a where "a = (if pe_ReplaceAll args then strings_ReplaceAll b old new else replace_first old new b)"
  have old: "old \<noteq> []" using assms(1) lf_nonempty by (simp add: old_def normalizeLineEndingsToLF_eq)
  have cr: "CR \<notin> set b" "CR \<notin> set new" using lf_no_CR by (simp_all add: b_def new_def normalizeLineEndingsToLF_eq)
  obtain parts where parts: "b = join_with old parts" "length parts = Suc (count_matches b old)"
      "\<And>q. replace_matches old q b = join_with q parts" "\<forall>x \<in> set parts. count_matches x old = 0"
    using count_matches_split [OF old] by metis
  have count: "strings_Count b old = count_matches b old" using old by (simp add: strings_Count_def)
  have comp: "computePatchEdit dmp args content =
      (if count_matches b old = 0 then Inl OldStringNotFound
       else if 1 < count_matches b old \<and> \<not> pe_ReplaceAll args then Inl (OldStringNotUnique (count_matches b old))
       else let (d, n, m) = computeEditDiff dmp b a
            in Inr \<lparr>ec_BeforeContent = b, ec_AfterContent = a, ec_DiffString = d, ec_LinesAdded = n, ec_LinesRemoved = m,
                 ec_Message = ''PatchEdit applied''\<rparr>)"
    unfolding computePatchEdit_def Let_def b_def [symmetric] old_def [symmetric] new_def [symmetric] count
    by (simp add: a_def)
  show ?thesis
  proof (cases "count_matches b old = 0")
    case True
    then have "computePatchEdit dmp args content = Inl OldStringNotFound" by (simp add: comp)
    with True old show ?thesis
      unfolding Let_def b_def [symmetric] old_def [symmetric] by (simp add: count_zero_iff)
  next
    case False
    show ?thesis
    proof (cases "1 < count_matches b old \<and> \<not> pe_ReplaceAll args")
      case True
      then have "computePatchEdit dmp args content = Inl (OldStringNotUnique (count_matches b old))" by (simp add: comp)
      with True show ?thesis
        unfolding Let_def b_def [symmetric] old_def [symmetric] by (simp add: count)
    next
      case once: False
      have a: "a = replace_matches old new b"
        using once False old replace_first_split [of b old new]
        by (auto simp: a_def strings_ReplaceAll_def not_less le_Suc_eq)
      have "CR \<notin> set a" unfolding a by (rule replace_matches_CR [OF cr])
      note counts = diff_counts [of dmp b a, OF assms(2) [rule_format, of b a] cr(1) this]
      note diff = render_patches [OF assms(2) [rule_format, of b a]]
      obtain d n m where d: "computeEditDiff dmp b a = (d, n, m)" by (metis surj_pair)
      then have comp: "computePatchEdit dmp args content = Inr \<lparr>ec_BeforeContent = b, ec_AfterContent = a, ec_DiffString = d,
          ec_LinesAdded = n, ec_LinesRemoved = m, ec_Message = ''PatchEdit applied''\<rparr>"
        using False once by (auto simp: comp)
      have d': "d = renderUnifiedDiff b a (dmp b a)" using d by (simp add: computeEditDiff_def Let_def)
      have nm: "n = fst (snd (computeEditDiff dmp b a))" "m = snd (snd (computeEditDiff dmp b a))" using d by simp_all
      have "2 \<le> length parts" using parts(2) False by simp
      moreover have "pe_ReplaceAll args \<or> length parts = 2" using parts(2) False once by (cases "pe_ReplaceAll args") simp_all
      moreover have "\<forall>x \<in> set parts. \<not> strings_Contains x old" using parts(4) count_zero_iff [OF old] by simp
      moreover have "a = join_with new parts" using a parts(3) by simp
      ultimately have "b = join_with old parts \<and> a = join_with new parts \<and> 2 \<le> length parts \<and>
          (pe_ReplaceAll args \<or> length parts = 2) \<and> (\<forall>x \<in> set parts. \<not> strings_Contains x old)"
        using parts(1) by blast
      then have "\<exists>parts. b = join_with old parts \<and> a = join_with new parts \<and> 2 \<le> length parts \<and>
          (pe_ReplaceAll args \<or> length parts = 2) \<and> (\<forall>x \<in> set parts. \<not> strings_Contains x old)" by blast
      then show ?thesis
        using diff unfolding Let_def comp sum.case editComputation.simps b_def [symmetric] old_def [symmetric] new_def [symmetric] d' nm counts
        by simp
    qed
  qed
qed

definition demo_patch :: patchEditArgs where
  "demo_patch = \<lparr>pe_Path = ''/f'', pe_OldString = ''b'', pe_NewString = ''cd'', pe_NewStringSet = True, pe_ReplaceAll = False,
     pe_ReplaceAllSet = False\<rparr>"

theorem patch_edit_replaces_witness:
  "let b = normalizeLineEndingsToLF ''abc''; old = normalizeLineEndingsToLF ''b''; new = normalizeLineEndingsToLF ''cd''
   in case computePatchEdit demo_differ demo_patch ''abc'' of
        Inl e \<Rightarrow> (e = OldStringNotFound \<and> \<not> strings_Contains b old) \<or>
          (\<exists>n. e = OldStringNotUnique n \<and> 1 < n \<and> n = strings_Count b old \<and> \<not> False)
      | Inr c \<Rightarrow>
          (\<exists>parts. b = join_with old parts \<and> ec_AfterContent c = join_with new parts \<and>
            2 \<le> length parts \<and> (False \<or> length parts = 2) \<and> (\<forall>x \<in> set parts. \<not> strings_Contains x old)) \<and>
          (\<exists>hs. ec_DiffString c = concat (map hunk_text hs) \<and>
            patch_lines 1 1 hs (splitLinesForUnifiedDiff b) = Some (splitLinesForUnifiedDiff (ec_AfterContent c))) \<and>
          ec_LinesAdded c = int (length (filter (\<lambda>(op, _). op = DiffInsert) (splitDiffLines (demo_differ b (ec_AfterContent c))))) \<and>
          ec_LinesRemoved c = int (length (filter (\<lambda>(op, _). op = DiffDelete) (splitDiffLines (demo_differ b (ec_AfterContent c)))))"
  using patch_edit_replaces [of demo_patch demo_differ "''abc''"]
  by (simp only: demo_patch_def patchEditArgs.simps) (simp only: demo_differ_ok simp_thms list.distinct not_Cons_self2)

text \<open>
  The old string must match exactly one occurrence, but occurrences that overlap are counted as one:
  replacing \<open>aa\<close> in \<open>aaa\<close> is accepted although \<open>aa\<close> occurs at two positions, and changes the first.
\<close>
theorem patch_edit_overlap_accepted:
  "\<exists>c. computePatchEdit demo_differ (demo_patch\<lparr>pe_OldString := ''aa'', pe_NewString := ''b''\<rparr>) ''aaa'' = Inr c \<and>
     ec_AfterContent c = ''ba'' \<and> ''aaa'' = [] @ ''aa'' @ ''a'' \<and> ''aaa'' = ''a'' @ ''aa'' @ []"
  by (simp add: computePatchEdit_def demo_patch_def normalizeLineEndingsToLF_def strings_Count_def computeEditDiff_def Let_def)

text \<open>
  C28. Both normalisers of line endings, that of the edits and that of the files observed after a write,
  agree with one scan over the text and have no carriage return left to change. So what a client reads back
  is accepted for a patch edit exactly when it differs in line endings only, and the text sent to the client
  to be written is the one that is expected.
\<close>
theorem line_ending_normalisers_agree:
  "normalizeObservedLineEndingsToLF s = normalizeLineEndingsToLF s \<and>
   ne_Text (normalizeEditContentLineEndings s) = normalizeLineEndingsToLF s \<and>
   preparePatchEditWriteContentsForClient s = normalizeLineEndingsToLF s \<and>
   normalizeLineEndingsToLF (normalizeLineEndingsToLF s) = normalizeLineEndingsToLF s \<and>
   CR \<notin> set (normalizeLineEndingsToLF s) \<and>
   (snd (snd (reconcilePatchEditObservedContent expected s)) \<longleftrightarrow> normalizeLineEndingsToLF s = normalizeLineEndingsToLF expected)"
proof -
  have "ne_Text (normalizeEditContentLineEndings s) = lf s"
    by (simp add: normalizeEditContentLineEndings_def split_beta lf_scan [of s 0, symmetric])
  moreover have "preparePatchEditWriteContentsForClient s = lf s"
    by (simp add: preparePatchEditWriteContentsForClient_def normalizeObserved_eq contains_CR_iff lf_id)
  ultimately show ?thesis
    using lf_no_CR [of s] lf_idem [of s]
    by (auto simp: normalizeObserved_eq normalizeLineEndingsToLF_eq reconcilePatchEditObservedContent_def)
qed


end
