(* ===== verification/Text_Limits.thy ===== *)
theory Text_Limits
  imports Edit_Text "HOL-Library.List_Lexorder" "HOL-Library.Multiset"
begin

text \<open>
  The limits on texts that are replayed to a model or stored: the truncation of tool results
  (\<open>tool_result_replay_truncation.go\<close>) and the guards on prompts (\<open>prompt_guard.go\<close>). The truncation
  loops are partial functions, so that their result is an option: that they return is a theorem.
\<close>

subsection \<open>Runes\<close>

definition ascii :: "char \<Rightarrow> bool" where
  "ascii c \<longleftrightarrow> (of_char c :: nat) < 0x80"

function ValidString :: "string \<Rightarrow> bool" where
  "ValidString [] = True"
| "ValidString (c # cs) =
     ((ascii c \<or> 1 < rune_size (c # cs)) \<and> ValidString (drop (rune_size (c # cs)) (c # cs)))"
  by pat_completeness auto
termination by (relation "measure length") (auto simp: Suc_le_eq)

text \<open>\<open>[]rune(text)\<close>, each rune as the bytes \<open>string\<close> makes of it: a byte that is not part of a rune becomes U+FFFD.\<close>

definition rune_bytes :: "string \<Rightarrow> string" where
  "rune_bytes s = (if rune_size s = 1 \<and> \<not> ascii (hd s) then [CHR 0xEF, CHR 0xBF, CHR 0xBD] else take (rune_size s) s)"

function runes :: "string \<Rightarrow> string list" where
  "runes [] = []"
| "runes (c # cs) = rune_bytes (c # cs) # runes (drop (rune_size (c # cs)) (c # cs))"
  by pat_completeness auto
termination by (relation "measure length") (auto simp: Suc_le_eq)

subsection \<open>Truncated tool results\<close>

definition projectedReplayKiB :: int where "projectedReplayKiB = 1024"
definition projectedReadReplayLimit :: int where "projectedReadReplayLimit = 64 * projectedReplayKiB"
definition projectedShellReplayLimit :: int where "projectedShellReplayLimit = 128 * projectedReplayKiB"
definition projectedShellStreamLimit :: int where "projectedShellStreamLimit = 16 * projectedReplayKiB"
definition projectedShellInterleavedLimit :: int where "projectedShellInterleavedLimit = 32 * projectedReplayKiB"
definition projectedGrepReplayLimit :: int where "projectedGrepReplayLimit = 32 * projectedReplayKiB"
definition projectedEditReplayLimit :: int where "projectedEditReplayLimit = 32 * projectedReplayKiB"
definition projectedPatchEditReplayLimit :: int where "projectedPatchEditReplayLimit = 32 * projectedReplayKiB"
definition projectedWebFetchReplayLimit :: int where "projectedWebFetchReplayLimit = 32 * projectedReplayKiB"
definition projectedWebSearchReplayLimit :: int where "projectedWebSearchReplayLimit = 16 * projectedReplayKiB"
definition projectedMcpReplayLimit :: int where "projectedMcpReplayLimit = 32 * projectedReplayKiB"

lemmas replay_limits = projectedReplayKiB_def projectedReadReplayLimit_def projectedShellReplayLimit_def
  projectedShellStreamLimit_def projectedShellInterleavedLimit_def projectedGrepReplayLimit_def
  projectedEditReplayLimit_def projectedPatchEditReplayLimit_def projectedWebFetchReplayLimit_def
  projectedWebSearchReplayLimit_def projectedMcpReplayLimit_def

function drop_last_until_valid :: "string \<Rightarrow> string" where
  "drop_last_until_valid s = (if ValidString s \<or> s = [] then s else drop_last_until_valid (butlast s))"
  by pat_completeness auto
termination by (relation "measure length") auto

declare drop_last_until_valid.simps [simp del]

fun drop_first_until_valid :: "string \<Rightarrow> string" where
  "drop_first_until_valid [] = []"
| "drop_first_until_valid (c # cs) = (if ValidString (c # cs) then c # cs else drop_first_until_valid cs)"

definition truncateProjectedUTF8 :: "string \<Rightarrow> int \<Rightarrow> string" where
  "truncateProjectedUTF8 t limit =
     (if limit \<le> 0 then [] else if int (length t) \<le> limit then t else drop_last_until_valid (take (nat limit) t))"

definition truncateProjectedUTF8Suffix :: "string \<Rightarrow> int \<Rightarrow> string" where
  "truncateProjectedUTF8Suffix t limit =
     (if limit \<le> 0 then [] else if int (length t) \<le> limit then t
      else drop_first_until_valid (drop (length t - nat limit) t))"

definition replay_notice :: "string \<Rightarrow> int \<Rightarrow> int \<Rightarrow> int \<Rightarrow> string" where
  "replay_notice toolName limit shown original =
     [CHR 0x0A, CHR 0x0A] @ ''[truncated: '' @ toolName @ '' result exceeded '' @ show_int limit @ '' bytes; showing '' @
     show_int shown @ '' of '' @ show_int original @ '' bytes]''"

definition trim_newlines_right :: "string \<Rightarrow> string" where
  "trim_newlines_right s = rev (dropWhile (\<lambda>c. c = CHR 0x0A) (rev s))"

partial_function (option) replay_loop :: "string \<Rightarrow> string \<Rightarrow> int \<Rightarrow> string \<Rightarrow> string option" where
  "replay_loop toolName t limit notice =
     (let keep = limit - int (length notice)
      in if keep \<le> 0 then Some (truncateProjectedUTF8 t limit)
         else let kept = truncateProjectedUTF8 t keep;
                  nextNotice = replay_notice toolName limit (int (length kept)) (int (length t));
                  out = trim_newlines_right kept @ nextNotice
              in if int (length out) \<le> limit \<or> nextNotice = notice then Some out
                 else replay_loop toolName t limit nextNotice)"

definition truncateProjectedReplayText :: "string \<Rightarrow> string \<Rightarrow> int \<Rightarrow> string option" where
  "truncateProjectedReplayText toolName t limit =
     (if limit \<le> 0 \<or> int (length t) \<le> limit then Some (TrimSpace t)
      else replay_loop toolName t limit (replay_notice toolName limit limit (int (length t))))"

definition middle_notice :: "string \<Rightarrow> int \<Rightarrow> int \<Rightarrow> int \<Rightarrow> string" where
  "middle_notice toolName limit shown original =
     [CHR 0x0A, CHR 0x0A] @ ''[truncated: '' @ toolName @ '' result exceeded '' @ show_int limit @ '' bytes; omitted middle; showing '' @
     show_int shown @ '' of '' @ show_int original @ '' bytes]'' @ [CHR 0x0A, CHR 0x0A]"

partial_function (option) middle_loop :: "string \<Rightarrow> string \<Rightarrow> int \<Rightarrow> string \<Rightarrow> string option" where
  "middle_loop toolName t limit notice =
     (let keep = limit - int (length notice)
      in if keep \<le> 0 then Some (truncateProjectedUTF8 t limit)
         else let headLimit = keep div 2; tailLimit = keep - headLimit;
                  head = truncateProjectedUTF8 t headLimit; tail = truncateProjectedUTF8Suffix t tailLimit;
                  kept = int (length head) + int (length tail);
                  nextNotice = middle_notice toolName limit kept (int (length t));
                  out = head @ nextNotice @ tail
              in if int (length out) \<le> limit \<or> nextNotice = notice then Some out
                 else middle_loop toolName t limit nextNotice)"

definition truncateProjectedReplayTextMiddle :: "string \<Rightarrow> string \<Rightarrow> int \<Rightarrow> string option" where
  "truncateProjectedReplayTextMiddle toolName t limit =
     (if limit \<le> 0 then Some [] else if int (length t) \<le> limit then Some t
      else middle_loop toolName t limit (middle_notice toolName limit limit (int (length t))))"

definition projectedToolReplayLimit :: "string \<Rightarrow> int option" where
  "projectedToolReplayLimit toolName =
     (let n = TrimSpace toolName
      in if n = ''GenerateImage'' then Some projectedWebSearchReplayLimit
         else if n = ''Read'' then Some projectedReadReplayLimit
         else if n = ''Shell'' then Some projectedShellReplayLimit
         else if n = ''Grep'' then Some projectedGrepReplayLimit
         else if n \<in> {''PatchEdit'', ''PatchEditLines'', ''PatchEditSpan''} then Some projectedPatchEditReplayLimit
         else if n \<in> {''Edit'', ''Write''} then Some projectedEditReplayLimit
         else if n = ''WebFetch'' then Some projectedWebFetchReplayLimit
         else if n = ''WebSearch'' then Some projectedWebSearchReplayLimit
         else if n \<in> {''CallMcpTool'', ''FetchMcpResource'', ''ListMcpResources''} then Some projectedMcpReplayLimit
         else None)"

subsection \<open>Compacted tool results\<close>

text \<open>
  \<open>encoding/json\<close> on the text of a result: what the bytes denote, if they are JSON, and the bytes written
  for a value.
\<close>

record json_codec =
  jc_decode :: "string \<Rightarrow> json option"
  jc_encode :: "json \<Rightarrow> string"

definition decode_object :: "json_codec \<Rightarrow> string \<Rightarrow> (string \<times> json) list option" where
  "decode_object codec t =
     (case jc_decode codec t of Some (JObj ms) \<Rightarrow> Some ms | Some JNull \<Rightarrow> Some [] | _ \<Rightarrow> None)"

definition image_data_notice :: "string \<Rightarrow> string" where
  "image_data_notice t = ''[base64 image data omitted from replay; bytes='' @ show_int (int (length (TrimSpace t))) @ '']''"

fun compactGenerateImagePayload :: "json \<Rightarrow> json \<times> bool"
  and compact_image_members :: "(string \<times> json) list \<Rightarrow> (string \<times> json) list \<times> bool"
  and compact_image_items :: "json list \<Rightarrow> json list \<times> bool" where
  "compactGenerateImagePayload (JObj ms) = (let (ms', ch) = compact_image_members ms in (JObj ms', ch))"
| "compactGenerateImagePayload (JArr vs) = (let (vs', ch) = compact_image_items vs in (JArr vs', ch))"
| "compactGenerateImagePayload v = (v, False)"
| "compact_image_members [] = ([], False)"
| "compact_image_members ((key, v) # ms) =
     (let (v', ch) = (case v of
             JStr t \<Rightarrow> if key = ''image_data'' \<or> key = ''imageData'' then (JStr (image_data_notice t), True) else (v, False)
           | _ \<Rightarrow> compactGenerateImagePayload v);
          (ms', ch') = compact_image_members ms
      in ((key, v') # ms', ch \<or> ch'))"
| "compact_image_items [] = ([], False)"
| "compact_image_items (v # vs) =
     (let (v', ch) = compactGenerateImagePayload v; (vs', ch') = compact_image_items vs in (v' # vs', ch \<or> ch'))"

definition blank_result :: "string \<Rightarrow> bool" where
  "blank_result t \<longleftrightarrow> t = [] \<or> t = ''{}'' \<or> t = ''null''"

text \<open>\<open>None\<close>: the truncation does not return; \<open>Some None\<close>: the result is not compacted.\<close>

definition compactProjectedGenerateImageResultReplay ::
  "json_codec \<Rightarrow> string \<Rightarrow> string \<Rightarrow> string \<Rightarrow> string option option" where
  "compactProjectedGenerateImageResultReplay codec toolName content resultText =
     (if TrimSpace toolName \<noteq> ''GenerateImage'' then Some None
      else let fallback = TrimSpace resultText; t = TrimSpace content
           in if blank_result t then (if fallback = [] then Some None else Some (Some fallback))
              else case jc_decode codec t of
                     None \<Rightarrow>
                       (if fallback = [] then map_option Some (truncateProjectedReplayText ''GenerateImage'' t projectedWebSearchReplayLimit)
                        else Some (Some fallback))
                   | Some payload \<Rightarrow>
                       (let (payload', changed) = compactGenerateImagePayload payload
                        in if changed then Some (Some (jc_encode codec payload'))
                           else if fallback \<noteq> [] then Some (Some fallback) else Some (Some t)))"

definition patchEditReplayLimit :: "string \<Rightarrow> int" where
  "patchEditReplayLimit toolName =
     (if TrimSpace toolName \<in> {''PatchEdit'', ''PatchEditLines'', ''PatchEditSpan''} then projectedPatchEditReplayLimit
      else projectedEditReplayLimit)"

definition shell_field :: "string \<Rightarrow> string \<Rightarrow> string option option" where
  "shell_field key t =
     (if key = ''stdout'' \<or> key = ''stderr'' then Some (truncateProjectedReplayTextMiddle (''Shell '' @ key) t projectedShellStreamLimit)
      else if key = ''interleaved_output'' \<or> key = ''interleavedOutput''
      then Some (truncateProjectedReplayTextMiddle ''Shell interleaved output'' t projectedShellInterleavedLimit)
      else None)"

fun compactProjectedShellFields :: "json \<Rightarrow> (json \<times> bool) option"
  and compact_shell_members :: "(string \<times> json) list \<Rightarrow> ((string \<times> json) list \<times> bool) option"
  and compact_shell_items :: "json list \<Rightarrow> (json list \<times> bool) option" where
  "compactProjectedShellFields (JObj ms) = map_option (\<lambda>(ms', ch). (JObj ms', ch)) (compact_shell_members ms)"
| "compactProjectedShellFields (JArr vs) = map_option (\<lambda>(vs', ch). (JArr vs', ch)) (compact_shell_items vs)"
| "compactProjectedShellFields v = Some (v, False)"
| "compact_shell_members [] = Some ([], False)"
| "compact_shell_members ((key, v) # ms) =
     (case (case v of
              JStr t \<Rightarrow> (case shell_field key t of
                           None \<Rightarrow> Some (v, False)
                         | Some r \<Rightarrow> map_option (\<lambda>t'. (JStr t', t' \<noteq> t)) r)
            | _ \<Rightarrow> compactProjectedShellFields v) of
        None \<Rightarrow> None
      | Some (v', ch) \<Rightarrow> map_option (\<lambda>(ms', ch'). ((key, v') # ms', ch \<or> ch')) (compact_shell_members ms))"
| "compact_shell_items [] = Some ([], False)"
| "compact_shell_items (v # vs) =
     (case compactProjectedShellFields v of
        None \<Rightarrow> None
      | Some (v', ch) \<Rightarrow> map_option (\<lambda>(vs', ch'). (v' # vs', ch \<or> ch')) (compact_shell_items vs))"

definition compactProjectedShellToolResultReplay :: "json_codec \<Rightarrow> string \<Rightarrow> string \<Rightarrow> string option option" where
  "compactProjectedShellToolResultReplay codec toolName content =
     (if TrimSpace toolName \<noteq> ''Shell'' then Some None
      else let t = TrimSpace content
           in if blank_result t then Some None
              else case jc_decode codec t of
                     None \<Rightarrow> Some None
                   | Some payload \<Rightarrow>
                       map_option (\<lambda>(payload', changed). if changed then Some (jc_encode codec payload') else None)
                         (compactProjectedShellFields payload))"

fun firstJSONText :: "(string \<times> json) list \<Rightarrow> string list \<Rightarrow> string" where
  "firstJSONText payload [] = []"
| "firstJSONText payload (key # keys) =
     (case obj_get payload key of Some (JStr v) \<Rightarrow> v | _ \<Rightarrow> firstJSONText payload keys)"

definition is_edit_tool :: "string \<Rightarrow> bool" where
  "is_edit_tool toolName \<longleftrightarrow> TrimSpace toolName \<in> {''PatchEdit'', ''PatchEditLines'', ''PatchEditSpan'', ''Edit'', ''Write''}"

definition compactProjectedEditToolResultReplay ::
  "line_differ \<Rightarrow> json_codec \<Rightarrow> string \<Rightarrow> string \<Rightarrow> string option option" where
  "compactProjectedEditToolResultReplay dmp codec toolName content =
     (let t = TrimSpace content
      in if \<not> is_edit_tool toolName \<or> blank_result t then Some None
         else case decode_object codec t of
                None \<Rightarrow> Some None
              | Some payload \<Rightarrow>
                  (case obj_get payload ''success'' of
                     Some (JObj success) \<Rightarrow>
                       (let d0 = firstJSONText success [''diff_string'', ''diffString''];
                            before = (if d0 = [] then firstJSONText success [''before_full_file_content'', ''beforeFullFileContent''] else []);
                            after = (if d0 = [] then firstJSONText success [''after_full_file_content'', ''afterFullFileContent''] else []);
                            d = (if d0 = [] \<and> before \<noteq> [] then fst (computeEditDiff dmp before after) else d0)
                        in if d \<noteq> [] then
                             map_option (\<lambda>d'. Some (jc_encode codec (JObj [(''success'', JObj [(''diff_string'', JStr d')])])))
                               (truncateProjectedReplayText (firstNonEmpty [TrimSpace toolName, ''PatchEdit'']) d (patchEditReplayLimit toolName))
                           else if after \<noteq> [] then
                             map_option (\<lambda>a'. Some (jc_encode codec (JObj [(''success'', JObj [(''after_full_file_content'', JStr a')])])))
                               (truncateProjectedReplayText (firstNonEmpty [TrimSpace toolName, ''Write'']) after (patchEditReplayLimit toolName))
                           else Some None)
                   | _ \<Rightarrow> Some None))"

definition compactHistoricalEditErrorReplay :: "json_codec \<Rightarrow> string \<Rightarrow> string \<Rightarrow> string option" where
  "compactHistoricalEditErrorReplay codec toolName content =
     (let t = TrimSpace content
      in if \<not> is_edit_tool toolName \<or> t = [] then None
         else case decode_object codec t of
                None \<Rightarrow> None
              | Some payload \<Rightarrow>
                  (case obj_get payload ''error'' of
                     Some (JObj e) \<Rightarrow>
                       (if firstJSONText e [''error'', ''modelVisibleError''] = [] then None
                        else Some (jc_encode codec (JObj [(''error'',
                          JObj [(''error'', JStr ''historical edit error omitted from replay; re-read the file before editing'')])])))
                   | _ \<Rightarrow> None))"

text \<open>What is left of a result that is too long: its text if the content is a stored tool call.\<close>

definition limit_result :: "string \<Rightarrow> string \<Rightarrow> string \<Rightarrow> bool \<Rightarrow> string option" where
  "limit_result toolName content resultText fromStoredToolCall =
     (case projectedToolReplayLimit toolName of
        None \<Rightarrow> Some (TrimSpace content)
      | Some limit \<Rightarrow>
          (let t = TrimSpace content
           in if int (length t) \<le> limit then Some t
              else if fromStoredToolCall then
                let fallback = TrimSpace resultText;
                    notice = ''[tool result replay truncated: stored ToolCall result exceeded '' @ show_int limit @ '' bytes]''
                in truncateProjectedReplayText toolName
                     (if fallback = [] then notice else fallback @ [CHR 0x0A, CHR 0x0A] @ notice) limit
              else truncateProjectedReplayText toolName t limit))"

definition limitProjectedToolResultReplay ::
  "line_differ \<Rightarrow> json_codec \<Rightarrow> string \<Rightarrow> string \<Rightarrow> string \<Rightarrow> bool \<Rightarrow> bool \<Rightarrow> string option" where
  "limitProjectedToolResultReplay dmp codec toolName content resultText fromStoredToolCall historical =
     (case compactProjectedGenerateImageResultReplay codec toolName content resultText of
        None \<Rightarrow> None
      | Some (Some compacted) \<Rightarrow> Some compacted
      | Some None \<Rightarrow>
          (let (content1, stored1) =
                 (case if historical then compactHistoricalEditErrorReplay codec toolName content else None of
                    Some compacted \<Rightarrow> (compacted, False) | None \<Rightarrow> (content, fromStoredToolCall))
           in case compactProjectedEditToolResultReplay dmp codec toolName content1 of
                None \<Rightarrow> None
              | Some edit \<Rightarrow>
                  (let (content2, stored2) = (case edit of Some compacted \<Rightarrow> (compacted, False) | None \<Rightarrow> (content1, stored1))
                   in case compactProjectedShellToolResultReplay codec toolName content2 of
                        None \<Rightarrow> None
                      | Some shell \<Rightarrow>
                          (let (content3, stored3) = (case shell of Some compacted \<Rightarrow> (compacted, False) | None \<Rightarrow> (content2, stored2))
                           in limit_result toolName content3 resultText stored3))))"

subsection \<open>The truncation loops return, within the limit\<close>

lemma length_show_nat_mono: "m \<le> n \<Longrightarrow> length (show_nat m) \<le> length (show_nat n)"
proof (induction m arbitrary: n rule: less_induct)
  case (less m)
  show ?case
  proof (cases "m < 10")
    case True
    have "1 \<le> length (show_nat n)" by (subst show_nat.simps) simp
    with True show ?thesis by (subst show_nat.simps) simp
  next
    case False
    with less.prems have "length (show_nat (m div 10)) \<le> length (show_nat (n div 10))"
      by (intro less.IH) (auto intro: div_le_mono)
    with False less.prems show ?thesis
      by (simp add: show_nat.simps [of m] show_nat.simps [of n])
  qed
qed

lemma length_show_int_mono: "0 \<le> a \<Longrightarrow> a \<le> b \<Longrightarrow> length (show_int a) \<le> length (show_int b)"
  by (auto simp: show_int_def intro!: length_show_nat_mono nat_mono)

lemma length_drop_last: "length (drop_last_until_valid s) \<le> length s"
proof (induction s rule: drop_last_until_valid.induct)
  case (1 s)
  then show ?case by (subst drop_last_until_valid.simps) (auto intro: order_trans)
qed

lemma length_drop_first: "length (drop_first_until_valid s) \<le> length s"
  by (induction s) auto

lemma length_truncateUTF8: "0 \<le> limit \<Longrightarrow> int (length (truncateProjectedUTF8 t limit)) \<le> limit"
proof -
  assume "0 \<le> limit"
  moreover have "length (drop_last_until_valid (take (nat limit) t)) \<le> nat limit"
    using length_drop_last [of "take (nat limit) t"] by simp
  ultimately show ?thesis by (auto simp: truncateProjectedUTF8_def)
qed

lemma length_truncateUTF8Suffix: "0 \<le> limit \<Longrightarrow> int (length (truncateProjectedUTF8Suffix t limit)) \<le> limit"
proof -
  assume l: "0 \<le> limit"
  have "int (length (drop_first_until_valid (drop (length t - nat limit) t))) \<le> limit" if "limit < int (length t)"
    using length_drop_first [of "drop (length t - nat limit) t"] l that by simp
  with l show ?thesis by (auto simp: truncateProjectedUTF8Suffix_def)
qed

lemma drop_last_prefix: "\<exists>r. s = drop_last_until_valid s @ r"
proof (induction s rule: drop_last_until_valid.induct)
  case (1 s)
  show ?case
  proof (cases "ValidString s \<or> s = []")
    case True
    then show ?thesis by (subst drop_last_until_valid.simps) simp
  next
    case False
    with 1 obtain r where "butlast s = drop_last_until_valid (butlast s) @ r" by auto
    with False have "s = drop_last_until_valid (butlast s) @ r @ [last s]"
      by (metis append.assoc append_butlast_last_id)
    with False show ?thesis by (subst drop_last_until_valid.simps) auto
  qed
qed

lemma drop_last_valid: "ValidString (drop_last_until_valid s)"
  by (induction s rule: drop_last_until_valid.induct) (subst drop_last_until_valid.simps, auto)

lemma drop_first_suffix: "\<exists>r. s = r @ drop_first_until_valid s"
proof (induction s)
  case (Cons c s)
  then obtain r where "s = r @ drop_first_until_valid s" by blast
  then show ?case by (auto intro: exI [of _ "c # r"])
qed simp

lemma drop_first_valid: "ValidString (drop_first_until_valid s)"
  by (induction s) auto

lemma truncateUTF8_prefix: "\<exists>r. t = truncateProjectedUTF8 t limit @ r"
proof -
  obtain r where "take (nat limit) t = drop_last_until_valid (take (nat limit) t) @ r" using drop_last_prefix by blast
  then have "t = drop_last_until_valid (take (nat limit) t) @ r @ drop (nat limit) t" by (metis append.assoc append_take_drop_id)
  then show ?thesis by (auto simp: truncateProjectedUTF8_def)
qed

lemma truncateUTF8Suffix_suffix: "\<exists>r. t = r @ truncateProjectedUTF8Suffix t limit"
proof -
  obtain r where "drop (length t - nat limit) t = r @ drop_first_until_valid (drop (length t - nat limit) t)"
    using drop_first_suffix by blast
  then have "t = take (length t - nat limit) t @ r @ drop_first_until_valid (drop (length t - nat limit) t)"
    by (metis append_take_drop_id)
  then show ?thesis unfolding truncateProjectedUTF8Suffix_def by (auto intro: exI [of _ "take (length t - nat limit) t @ r"])
qed

lemma trim_newlines_prefix: "\<exists>r. s = trim_newlines_right s @ r"
proof -
  have "rev s = takeWhile (\<lambda>c. c = CHR 0x0A) (rev s) @ dropWhile (\<lambda>c. c = CHR 0x0A) (rev s)" by simp
  then have "s = trim_newlines_right s @ rev (takeWhile (\<lambda>c. c = CHR 0x0A) (rev s))"
    unfolding trim_newlines_right_def by (metis rev_append rev_rev_ident)
  then show ?thesis by blast
qed

lemma length_trim_newlines: "length (trim_newlines_right s) \<le> length s"
  using trim_newlines_prefix [of s] by (metis length_append le_add1)

lemma replay_loop_returns:
  fixes toolName t :: string
  assumes "0 < limit"
  defines "notice \<equiv> replay_notice toolName limit limit (int (length t))"
  shows "\<exists>out. replay_loop toolName t limit notice = Some out \<and> int (length out) \<le> limit \<and>
    ((\<exists>r. t = out @ r) \<or> (\<exists>kept r. t = kept @ r \<and> out = kept @ replay_notice toolName limit (int (length (truncateProjectedUTF8 t (limit - int (length notice))))) (int (length t))))"
proof (cases "limit - int (length notice) \<le> 0")
  case True
  then have "replay_loop toolName t limit notice = Some (truncateProjectedUTF8 t limit)"
    by (subst replay_loop.simps) (simp add: Let_def)
  then show ?thesis using length_truncateUTF8 [of limit t] truncateUTF8_prefix [of t limit] assms(1) by auto
next
  case False
  define kept where "kept = truncateProjectedUTF8 t (limit - int (length notice))"
  define n' where "n' = replay_notice toolName limit (int (length kept)) (int (length t))"
  have kept: "int (length kept) \<le> limit - int (length notice)"
    unfolding kept_def using False by (intro length_truncateUTF8) simp
  then have "length (show_int (int (length kept))) \<le> length (show_int limit)" by (intro length_show_int_mono) auto
  then have "length n' \<le> length notice" by (simp add: n'_def notice_def replay_notice_def)
  with kept length_trim_newlines [of kept] have out: "int (length (trim_newlines_right kept @ n')) \<le> limit" by simp
  then have "replay_loop toolName t limit notice = Some (trim_newlines_right kept @ n')"
    using False by (subst replay_loop.simps) (simp add: Let_def n'_def kept_def)
  moreover obtain r where "t = kept @ r" using truncateUTF8_prefix unfolding kept_def by blast
  moreover obtain r' where "kept = trim_newlines_right kept @ r'" using trim_newlines_prefix by blast
  ultimately show ?thesis using out unfolding n'_def kept_def by (metis append.assoc)
qed

lemma middle_loop_returns:
  fixes toolName t :: string
  assumes "0 < limit"
  defines "notice \<equiv> middle_notice toolName limit limit (int (length t))"
  shows "\<exists>out. middle_loop toolName t limit notice = Some out \<and> int (length out) \<le> limit"
proof (cases "limit - int (length notice) \<le> 0")
  case True
  then have "middle_loop toolName t limit notice = Some (truncateProjectedUTF8 t limit)"
    by (subst middle_loop.simps) (simp add: Let_def)
  then show ?thesis using length_truncateUTF8 [of limit t] assms(1) by auto
next
  case False
  define keep where "keep = limit - int (length notice)"
  define head where "head = truncateProjectedUTF8 t (keep div 2)"
  define tail where "tail = truncateProjectedUTF8Suffix t (keep - keep div 2)"
  define n' where "n' = middle_notice toolName limit (int (length head) + int (length tail)) (int (length t))"
  have "int (length head) \<le> keep div 2" "int (length tail) \<le> keep - keep div 2"
    using False unfolding head_def tail_def keep_def by (auto intro!: length_truncateUTF8 length_truncateUTF8Suffix)
  then have both: "int (length head) + int (length tail) \<le> keep" by simp
  then have "length (show_int (int (length head) + int (length tail))) \<le> length (show_int limit)"
    by (intro length_show_int_mono) (auto simp: keep_def)
  then have "length n' \<le> length notice" by (simp add: n'_def notice_def middle_notice_def)
  with both have out: "int (length (head @ n' @ tail)) \<le> limit" by (simp add: keep_def)
  then have "middle_loop toolName t limit notice = Some (head @ n' @ tail)"
    using False by (subst middle_loop.simps) (simp add: Let_def n'_def head_def tail_def keep_def)
  with out show ?thesis by auto
qed

text \<open>
  C30. Truncating a tool result ends and its result keeps the limit: the loops that fit the notice into the
  limit return for every text and positive limit, and the text they return is not longer than the limit;
  truncation at the end returns a beginning of the text, with a notice that says how much is shown.
\<close>
theorem truncation_returns_within_limit:
  "0 < limit \<Longrightarrow>
   (\<exists>out. truncateProjectedReplayText toolName t limit = Some out \<and> int (length out) \<le> limit \<and>
      (if int (length t) \<le> limit then out = TrimSpace t
       else (\<exists>r. t = out @ r) \<or> (\<exists>kept r shown. t = kept @ r \<and> out = kept @ replay_notice toolName limit shown (int (length t))))) \<and>
   (\<exists>out. truncateProjectedReplayTextMiddle toolName t limit = Some out \<and> int (length out) \<le> limit)"
proof (intro conjI)
  assume l: "0 < limit"
  show "\<exists>out. truncateProjectedReplayText toolName t limit = Some out \<and> int (length out) \<le> limit \<and>
      (if int (length t) \<le> limit then out = TrimSpace t
       else (\<exists>r. t = out @ r) \<or> (\<exists>kept r shown. t = kept @ r \<and> out = kept @ replay_notice toolName limit shown (int (length t))))"
  proof (cases "int (length t) \<le> limit")
    case True
    with l show ?thesis by (auto simp: truncateProjectedReplayText_def intro: order_trans [OF of_nat_mono [OF length_TrimSpace]])
  next
    case False
    with l replay_loop_returns [OF l, of toolName t] show ?thesis by (simp add: truncateProjectedReplayText_def) blast
  qed
  show "\<exists>out. truncateProjectedReplayTextMiddle toolName t limit = Some out \<and> int (length out) \<le> limit"
    using l middle_loop_returns [OF l, of toolName t] by (auto simp: truncateProjectedReplayTextMiddle_def)
qed

theorem truncation_returns_within_limit_witness:
  "(\<exists>out. truncateProjectedReplayText ''Read'' ''some text'' 5 = Some out \<and> int (length out) \<le> 5 \<and>
      (if int (length ''some text'') \<le> 5 then out = TrimSpace ''some text''
       else (\<exists>r. ''some text'' = out @ r) \<or>
         (\<exists>kept r shown. ''some text'' = kept @ r \<and> out = kept @ replay_notice ''Read'' 5 shown (int (length ''some text''))))) \<and>
   (\<exists>out. truncateProjectedReplayTextMiddle ''Read'' ''some text'' 5 = Some out \<and> int (length out) \<le> 5)"
  by (rule truncation_returns_within_limit) simp

lemma truncateReplay_total: "\<exists>out. truncateProjectedReplayText toolName t limit = Some out"
proof (cases "0 < limit")
  case True
  from replay_loop_returns [OF True, of toolName t] show ?thesis by (auto simp: truncateProjectedReplayText_def)
qed (simp add: truncateProjectedReplayText_def)

lemma truncateMiddle_total: "\<exists>out. truncateProjectedReplayTextMiddle toolName t limit = Some out"
proof (cases "0 < limit")
  case True
  from middle_loop_returns [OF True, of toolName t] show ?thesis by (auto simp: truncateProjectedReplayTextMiddle_def)
qed (simp add: truncateProjectedReplayTextMiddle_def)

lemma truncateReplay_le:
  "0 < limit \<Longrightarrow> \<exists>out. truncateProjectedReplayText toolName t limit = Some out \<and> int (length out) \<le> limit"
  using replay_loop_returns [of limit toolName t]
  by (cases "int (length t) \<le> limit")
    (auto simp: truncateProjectedReplayText_def intro: order_trans [OF of_nat_mono [OF length_TrimSpace]])

lemma shell_field_total: "shell_field key t = Some r \<Longrightarrow> \<exists>v. r = Some v"
  using truncateMiddle_total by (auto simp: shell_field_def split: if_splits)

lemma shell_fields_total:
  "\<exists>r. compactProjectedShellFields v = Some r"
  "\<exists>r. compact_shell_members ms = Some r"
  "\<exists>r. compact_shell_items vs = Some r"
proof (induction v and ms and vs rule: compactProjectedShellFields_compact_shell_members_compact_shell_items.induct)
  case (5 key v ms)
  then show ?case
    by (cases v) (fastforce dest!: shell_field_total split: option.splits)+
qed (auto split: option.splits)

lemma compact_shell_total: "\<exists>r. compactProjectedShellToolResultReplay codec toolName content = Some r"
  using shell_fields_total(1) by (auto simp: compactProjectedShellToolResultReplay_def Let_def split: option.splits)

lemma returns_if: "(b \<Longrightarrow> \<exists>r. x = Some r) \<Longrightarrow> (\<not> b \<Longrightarrow> \<exists>r. y = Some r) \<Longrightarrow> \<exists>r. (if b then x else y) = Some r"
  by simp

lemma returns_let: "(\<And>v. \<exists>r. f v = Some r) \<Longrightarrow> \<exists>r. Let v f = Some r"
  by simp

lemma returns_option: "\<exists>r. x = Some r \<Longrightarrow> (\<And>v. \<exists>r. f v = Some r) \<Longrightarrow> \<exists>r. (case u of None \<Rightarrow> x | Some v \<Rightarrow> f v) = Some r"
  by (cases u) auto

lemma returns_object:
  "\<exists>r. x = Some r \<Longrightarrow> (\<And>v. \<exists>r. f v = Some r) \<Longrightarrow> \<exists>r. (case u of Some (JObj v) \<Rightarrow> f v | _ \<Rightarrow> x) = Some r"
  by (cases u rule: option.exhaust; simp split: json.split)

lemma returns_map: "\<exists>r. x = Some r \<Longrightarrow> \<exists>r. map_option f x = Some r"
  by auto

lemma compact_edit_total: "\<exists>r. compactProjectedEditToolResultReplay dmp codec toolName content = Some r"
  unfolding compactProjectedEditToolResultReplay_def
  by (intro returns_let returns_if returns_option returns_object returns_map truncateReplay_total) simp_all

lemma limit_pos: "projectedToolReplayLimit toolName = Some limit \<Longrightarrow> 0 < limit"
  by (auto simp: projectedToolReplayLimit_def replay_limits Let_def split: if_splits)

lemma limit_result_le:
  assumes "projectedToolReplayLimit toolName = Some limit"
  shows "\<exists>out. limit_result toolName content resultText stored = Some out \<and> int (length out) \<le> limit"
  using limit_pos [OF assms] truncateReplay_le [of limit] by (auto simp: limit_result_def assms Let_def)

text \<open>
  C31. Every tool whose results are limited is replayed within its limit, whatever the result, stored or
  not, old or new, and however JSON is written: only a generated image is not.
\<close>
theorem replayed_result_within_limit:
  assumes "projectedToolReplayLimit toolName = Some limit" and "TrimSpace toolName \<noteq> ''GenerateImage''"
  shows "\<exists>out. limitProjectedToolResultReplay dmp codec toolName content resultText stored historical = Some out \<and>
    int (length out) \<le> limit"
proof -
  have image: "compactProjectedGenerateImageResultReplay codec toolName content resultText = Some None"
    using assms(2) by (simp add: compactProjectedGenerateImageResultReplay_def)
  obtain c1 s1 where 1: "(case if historical then compactHistoricalEditErrorReplay codec toolName content else None of
      Some compacted \<Rightarrow> (compacted, False) | None \<Rightarrow> (content, stored)) = (c1, s1)" by (metis surj_pair)
  obtain edit where edit: "compactProjectedEditToolResultReplay dmp codec toolName c1 = Some edit" using compact_edit_total by blast
  obtain c2 s2 where 2: "(case edit of Some compacted \<Rightarrow> (compacted, False) | None \<Rightarrow> (c1, s1)) = (c2, s2)" by (metis surj_pair)
  obtain shell where shell: "compactProjectedShellToolResultReplay codec toolName c2 = Some shell" using compact_shell_total by blast
  obtain c3 s3 where 3: "(case shell of Some compacted \<Rightarrow> (compacted, False) | None \<Rightarrow> (c2, s2)) = (c3, s3)" by (metis surj_pair)
  have "limitProjectedToolResultReplay dmp codec toolName content resultText stored historical = limit_result toolName c3 resultText s3"
    unfolding limitProjectedToolResultReplay_def image option.case Let_def 1 prod.case edit 2 shell 3 ..
  with limit_result_le [OF assms(1)] show ?thesis by auto
qed

definition demo_codec :: json_codec where
  "demo_codec = \<lparr>jc_decode = (\<lambda>_. None), jc_encode = (\<lambda>_. [])\<rparr>"

theorem replayed_result_within_limit_witness:
  "\<exists>out. limitProjectedToolResultReplay demo_differ demo_codec ''Grep'' ''found'' [] True True = Some out \<and>
    int (length out) \<le> projectedGrepReplayLimit"
proof (rule replayed_result_within_limit)
  have "TrimSpace ''Grep'' = ''Grep''" by code_simp
  then show "projectedToolReplayLimit ''Grep'' = Some projectedGrepReplayLimit" "TrimSpace ''Grep'' \<noteq> ''GenerateImage''"
    by (simp_all add: projectedToolReplayLimit_def)
qed

text \<open>
  A generated image is listed with a limit but not replayed within it: its text is replayed in full,
  however long it is, when the result has no content of its own or one that is not JSON.
\<close>
theorem generated_image_not_limited:
  "\<exists>limit. projectedToolReplayLimit ''GenerateImage'' = Some limit \<and>
     (\<forall>resultText. TrimSpace resultText \<noteq> [] \<longrightarrow>
        limitProjectedToolResultReplay dmp codec ''GenerateImage'' [] resultText stored historical = Some (TrimSpace resultText))"
proof -
  have "TrimSpace ''GenerateImage'' = ''GenerateImage''" by code_simp
  then show ?thesis
    by (simp add: projectedToolReplayLimit_def limitProjectedToolResultReplay_def compactProjectedGenerateImageResultReplay_def
        blank_result_def)
qed

subsection \<open>Guards on prompts\<close>

definition promptGuardUserTextChars :: nat where "promptGuardUserTextChars = 32000"
definition promptGuardSelectedFileChars :: nat where "promptGuardSelectedFileChars = 16000"
definition promptGuardSelectedFilesTotalChars :: nat where "promptGuardSelectedFilesTotalChars = 64000"
definition promptGuardSelectedFilesMaxCount :: nat where "promptGuardSelectedFilesMaxCount = 12"
definition promptGuardCursorCommandNameChars :: nat where "promptGuardCursorCommandNameChars = 256"
definition promptGuardCursorCommandChars :: nat where "promptGuardCursorCommandChars = 12000"
definition promptGuardCursorCommandsTotalChars :: nat where "promptGuardCursorCommandsTotalChars = 32000"
definition promptGuardCursorCommandsMaxCount :: nat where "promptGuardCursorCommandsMaxCount = 8"
definition promptGuardRuleChars :: nat where "promptGuardRuleChars = 6000"
definition promptGuardRulesTotalChars :: nat where "promptGuardRulesTotalChars = 24000"
definition promptGuardRulesMaxCount :: nat where "promptGuardRulesMaxCount = 40"
definition promptGuardSkillDescriptionChars :: nat where "promptGuardSkillDescriptionChars = 800"
definition promptGuardSkillDescriptionsTotal :: nat where "promptGuardSkillDescriptionsTotal = 16000"
definition promptGuardSkillDescriptorsMaxCount :: nat where "promptGuardSkillDescriptorsMaxCount = 32"
definition promptGuardAgentSkillContentChars :: nat where "promptGuardAgentSkillContentChars = 6000"
definition promptGuardAgentSkillsMaxCount :: nat where "promptGuardAgentSkillsMaxCount = 16"
definition promptGuardCompiledMessageChars :: nat where "promptGuardCompiledMessageChars = 120000"

definition guard_notice :: "string \<Rightarrow> nat \<Rightarrow> nat \<Rightarrow> string" where
  "guard_notice label limit runeCount =
     [CHR 0x0A, CHR 0x0A] @ ''[truncated: '' @ TrimSpace label @ '' exceeded '' @ show_nat limit @ '' chars; kept head and tail from '' @
     show_nat runeCount @ '' chars]'' @ [CHR 0x0A, CHR 0x0A]"

definition truncatePromptGuardText :: "string \<Rightarrow> string \<Rightarrow> nat \<Rightarrow> string" where
  "truncatePromptGuardText label t limit =
     (if limit = 0 then []
      else if RuneCount t \<le> limit then t
      else let rs = runes t; notice = guard_notice label limit (length rs); keep = int limit - int (RuneCount notice)
           in if keep \<le> 0 then concat (take limit rs)
              else let head = nat keep * 2 div 3; tail = nat keep - head
                   in if tail = 0 then concat (take head rs) @ notice
                      else concat (take head rs) @ notice @ concat (drop (length rs - tail) rs))"

text \<open>
  The loop all guards share, over items with one text: blank items are left out, at most \<open>maxItems\<close> are
  kept, each up to \<open>itemLimit\<close> and all together up to \<open>totalLimit\<close> runes. \<open>finish\<close> is what else a guard does
  to an item it keeps.
\<close>

fun guard_items ::
  "('a \<Rightarrow> string) \<Rightarrow> ('a \<Rightarrow> string \<Rightarrow> 'a) \<Rightarrow> string \<Rightarrow> nat \<Rightarrow> nat \<Rightarrow> nat \<Rightarrow> 'a list \<Rightarrow> 'a list" where
  "guard_items get put label itemLimit remaining maxItems [] = []"
| "guard_items get put label itemLimit remaining maxItems (x # xs) =
     (if maxItems = 0 then []
      else let content = TrimSpace (get x)
           in if content = [] then guard_items get put label itemLimit remaining maxItems xs
              else let limit = min itemLimit remaining
                   in if limit = 0 then []
                      else let v = truncatePromptGuardText label content limit
                           in put x v # guard_items get put label itemLimit (remaining - RuneCount v) (maxItems - 1) xs)"

record SelectedFile = sf_Path :: string sf_Content :: string
record SelectedCursorCommand = sc_Name :: string sc_Content :: string
record CursorRule = cr_FullPath :: string cr_Content :: string
record SkillDescriptor = sd_Name :: string sd_Description :: string
record AgentSkill = ak_FullPath :: string ak_Content :: string ak_Description :: string

definition guardSelectedFiles :: "SelectedFile list \<Rightarrow> SelectedFile list" where
  "guardSelectedFiles = guard_items sf_Content (\<lambda>f v. f\<lparr>sf_Content := v\<rparr>) ''selected_context.files.content''
     promptGuardSelectedFileChars promptGuardSelectedFilesTotalChars promptGuardSelectedFilesMaxCount"

definition guardSelectedCursorCommands :: "SelectedCursorCommand list \<Rightarrow> SelectedCursorCommand list" where
  "guardSelectedCursorCommands = guard_items sc_Content
     (\<lambda>c v. c\<lparr>sc_Name := truncatePromptGuardText ''selected_context.cursor_commands.name'' (TrimSpace (sc_Name c))
                          promptGuardCursorCommandNameChars, sc_Content := v\<rparr>)
     ''selected_context.cursor_commands.content'' promptGuardCursorCommandChars promptGuardCursorCommandsTotalChars
     promptGuardCursorCommandsMaxCount"

definition guardCursorRules :: "CursorRule list \<Rightarrow> CursorRule list" where
  "guardCursorRules = guard_items cr_Content (\<lambda>r v. r\<lparr>cr_Content := v\<rparr>) ''request_context.rules.content''
     promptGuardRuleChars promptGuardRulesTotalChars promptGuardRulesMaxCount"

definition guardSkillDescriptors :: "SkillDescriptor list \<Rightarrow> SkillDescriptor list" where
  "guardSkillDescriptors = guard_items sd_Description (\<lambda>d v. d\<lparr>sd_Description := v\<rparr>) ''skill.description''
     promptGuardSkillDescriptionChars promptGuardSkillDescriptionsTotal promptGuardSkillDescriptorsMaxCount"

definition guardStringSlice :: "string list \<Rightarrow> string \<Rightarrow> nat \<Rightarrow> nat \<Rightarrow> nat \<Rightarrow> string list" where
  "guardStringSlice input label itemLimit totalLimit maxItems =
     guard_items (\<lambda>s. s) (\<lambda>_ v. v) label itemLimit totalLimit maxItems input"

definition guard_skill :: "AgentSkill \<Rightarrow> AgentSkill" where
  "guard_skill s =
     s\<lparr>ak_Content := (if TrimSpace (ak_Content s) = [] then ak_Content s
          else truncatePromptGuardText ''agent_skill.content'' (TrimSpace (ak_Content s)) promptGuardAgentSkillContentChars),
       ak_Description := (if TrimSpace (ak_Description s) = [] then ak_Description s
          else truncatePromptGuardText ''agent_skill.description'' (TrimSpace (ak_Description s)) promptGuardSkillDescriptionChars)\<rparr>"

definition guardAgentSkills :: "AgentSkill list \<Rightarrow> AgentSkill list" where
  "guardAgentSkills skills = map guard_skill (take promptGuardAgentSkillsMaxCount skills)"

text \<open>
  A map of texts: the first value of each trimmed name counts, and names are taken in order. The order of
  the given map's members is the order in which the map is read.
\<close>

fun trimmed_members :: "(string, string) gomap \<Rightarrow> (string, string) gomap" where
  "trimmed_members [] = []"
| "trimmed_members ((k, v) # ms) =
     (let rest = filter (\<lambda>(k', _). k' \<noteq> TrimSpace k) (trimmed_members ms)
      in if TrimSpace k = [] \<or> TrimSpace v = [] then trimmed_members ms else (TrimSpace k, TrimSpace v) # rest)"

definition guardStringMap :: "(string, string) gomap \<Rightarrow> string \<Rightarrow> nat \<Rightarrow> nat \<Rightarrow> nat \<Rightarrow> (string, string) gomap" where
  "guardStringMap input label itemLimit totalLimit maxItems =
     guard_items snd (\<lambda>(k, _) v. (k, v)) label itemLimit totalLimit maxItems
       (sort_key (map of_char \<circ> fst :: string \<times> string \<Rightarrow> nat list) (trimmed_members input))"

subsection \<open>What the guards keep\<close>

lemma rune_size_ascii [simp]: "ascii c \<Longrightarrow> rune_size (c # cs) = 1"
  by (cases "c # cs" rule: rune_size.cases) (auto simp: ascii_def byte_in_def)

lemma RuneCount_runes: "length (runes s) = RuneCount s"
  by (induction s rule: runes.induct) auto

lemma RuneCount_ascii: "(\<forall>c \<in> set s. ascii c) \<Longrightarrow> RuneCount (s @ t) = length s + RuneCount t"
  by (induction s) auto

lemma rune_size_le: "s \<noteq> [] \<Longrightarrow> rune_size s \<le> length s"
  by (cases s rule: rune_size.cases) auto

definition two_bytes :: "char \<Rightarrow> char \<Rightarrow> bool" where
  "two_bytes a b \<longleftrightarrow> byte_in 0xC2 0xDF a \<and> cont_byte b"

definition three_bytes :: "char \<Rightarrow> char \<Rightarrow> char \<Rightarrow> bool" where
  "three_bytes a b c \<longleftrightarrow>
     (byte_in 0xE0 0xE0 a \<and> byte_in 0xA0 0xBF b \<or> byte_in 0xE1 0xEC a \<and> cont_byte b \<or>
      byte_in 0xED 0xED a \<and> byte_in 0x80 0x9F b \<or> byte_in 0xEE 0xEF a \<and> cont_byte b) \<and> cont_byte c"

definition four_bytes :: "char \<Rightarrow> char \<Rightarrow> char \<Rightarrow> char \<Rightarrow> bool" where
  "four_bytes a b c d \<longleftrightarrow>
     (byte_in 0xF0 0xF0 a \<and> byte_in 0x90 0xBF b \<or> byte_in 0xF1 0xF3 a \<and> cont_byte b \<or>
      byte_in 0xF4 0xF4 a \<and> byte_in 0x80 0x8F b) \<and> cont_byte c \<and> cont_byte d"

lemma rune_size_bytes:
  "rune_size (a # b # c # d # r) = (if two_bytes a b then 2 else if three_bytes a b c then 3 else if four_bytes a b c d then 4 else 1)"
  "rune_size [a, b, c] = (if two_bytes a b then 2 else if three_bytes a b c then 3 else 1)"
  "rune_size [a, b] = (if two_bytes a b then 2 else 1)"
  by (simp_all only: rune_size.simps two_bytes_def three_bytes_def four_bytes_def)

lemma bytes_exclusive: "three_bytes a b c \<Longrightarrow> \<not> two_bytes a b'" "four_bytes a b c d \<Longrightarrow> \<not> two_bytes a b'"
    "four_bytes a b c d \<Longrightarrow> \<not> three_bytes a b' c'"
  by (auto simp: two_bytes_def three_bytes_def four_bytes_def byte_in_def)

lemma rune_size_two: "two_bytes a b \<Longrightarrow> rune_size (a # b # t) = 2"
  by (cases t; cases "tl t") (simp_all add: rune_size_bytes del: rune_size.simps)

lemma rune_size_three: "three_bytes a b c \<Longrightarrow> rune_size (a # b # c # t) = 3"
  by (cases t) (simp_all add: rune_size_bytes bytes_exclusive del: rune_size.simps)

lemma rune_size_four: "four_bytes a b c d \<Longrightarrow> rune_size (a # b # c # d # t) = 4"
  by (simp add: rune_size_bytes bytes_exclusive del: rune_size.simps)

lemma rune_size_multi:
  assumes "1 < rune_size s"
  shows "(\<exists>a b r. s = a # b # r \<and> two_bytes a b) \<or> (\<exists>a b c r. s = a # b # c # r \<and> three_bytes a b c) \<or>
    (\<exists>a b c d r. s = a # b # c # d # r \<and> four_bytes a b c d)"
  using assms
  by (cases s rule: rune_size.cases) (auto simp: rune_size_bytes simp del: rune_size.simps(1-3) split: if_splits)

lemma rune_size_take:
  assumes "1 < rune_size s"
  shows "rune_size (take (rune_size s) s @ t) = rune_size s"
  using rune_size_multi [OF assms]
  by (elim disjE exE conjE) (simp_all add: rune_size_two rune_size_three rune_size_four del: rune_size.simps)

lemma rune_size_replacement: "rune_size (CHR 0xEF # CHR 0xBF # CHR 0xBD # t) = 3"
  by (cases t) (simp_all add: byte_in_def)

lemma RuneCount_replacement: "RuneCount (CHR 0xEF # CHR 0xBF # CHR 0xBD # t) = Suc (RuneCount t)"
  by (simp add: rune_size_replacement)

lemma RuneCount_rune:
  assumes "s \<noteq> []"
  shows "RuneCount (rune_bytes s @ t) = Suc (RuneCount t)"
proof -
  obtain c cs where s: "s = c # cs" using assms by (cases s) auto
  consider (multi) "1 < rune_size s" | (ascii) "rune_size s = 1" "ascii c" | (bad) "rune_size s = 1" "\<not> ascii c"
    using rune_size_pos [of s] by linarith
  then show ?thesis
  proof cases
    case multi
    have ne: "take (rune_size s) s @ t = hd s # (tl (take (rune_size s) s) @ t)" using multi s by (cases "rune_size s") auto
    have "RuneCount (take (rune_size s) s @ t) = Suc (RuneCount (drop (rune_size s) (take (rune_size s) s @ t)))"
      using rune_size_take [OF multi, of t] ne by (metis RuneCount.simps(2))
    also have "drop (rune_size s) (take (rune_size s) s @ t) = t" using rune_size_le [OF assms] by simp
    finally show ?thesis using multi by (simp add: rune_bytes_def)
  next
    case ascii
    then show ?thesis by (simp add: rune_bytes_def s)
  next
    case bad
    then have "rune_bytes s = [CHR 0xEF, CHR 0xBF, CHR 0xBD]" by (simp add: rune_bytes_def s)
    then show ?thesis by (simp only: append_Cons append_Nil RuneCount_replacement)
  qed
qed

lemma runes_from: "r \<in> set (runes s) \<Longrightarrow> \<exists>u. u \<noteq> [] \<and> r = rune_bytes u"
  by (induction s rule: runes.induct) auto

lemma RuneCount_concat:
  "(\<And>r. r \<in> set rs \<Longrightarrow> \<exists>u. u \<noteq> [] \<and> r = rune_bytes u) \<Longrightarrow> RuneCount (concat rs @ t) = length rs + RuneCount t"
proof (induction rs)
  case (Cons r rs)
  then obtain u where "u \<noteq> []" "r = rune_bytes u" by auto
  with Cons show ?case by (simp add: RuneCount_rune)
qed simp

lemma set_TrimSpace: "set (TrimSpace s) \<subseteq> set s"
proof -
  obtain p q where "s = p @ TrimSpace s @ q" using TrimSpace_infix by blast
  then show ?thesis by (metis Un_iff set_append subsetI)
qed

lemma ascii_digit: "d < 10 \<Longrightarrow> ascii (digit_char d)"
  by (simp add: ascii_def digit_char_def)

lemma ascii_show_nat: "c \<in> set (show_nat n) \<Longrightarrow> ascii c"
  by (induction n rule: show_nat.induct) (subst (asm) (2) show_nat.simps, auto simp: ascii_digit split: if_splits)

lemma ascii_notice: "\<forall>c \<in> set label. ascii c \<Longrightarrow> \<forall>c \<in> set (guard_notice label limit n). ascii c"
  using set_TrimSpace [of label] ascii_show_nat [of _ limit] ascii_show_nat [of _ n]
  by (auto simp: guard_notice_def) (simp_all add: ascii_def)

lemma guard_text_le:
  assumes label: "\<forall>c \<in> set label. ascii c"
  shows "RuneCount (truncatePromptGuardText label t limit) \<le> limit"
proof (cases "limit = 0 \<or> RuneCount t \<le> limit")
  case True
  then show ?thesis by (auto simp: truncatePromptGuardText_def)
next
  case False
  define rs where "rs = runes t"
  define notice where "notice = guard_notice label limit (length rs)"
  have n: "length rs = RuneCount t" by (simp add: rs_def RuneCount_runes)
  have count: "RuneCount (concat us @ v) = length us + RuneCount v" if "set us \<subseteq> set rs" for us v
    using that runes_from [of _ t] by (intro RuneCount_concat) (auto simp: rs_def)
  have notice: "RuneCount (notice @ v) = length notice + RuneCount v" for v
    using ascii_notice [OF label] unfolding notice_def by (intro RuneCount_ascii)
  have notice': "RuneCount notice = length notice" using notice [of "[]"] by simp
  have out: "truncatePromptGuardText label t limit =
      (if int limit - int (RuneCount notice) \<le> 0 then concat (take limit rs)
       else let head = nat (int limit - int (RuneCount notice)) * 2 div 3; tail = nat (int limit - int (RuneCount notice)) - head
            in if tail = 0 then concat (take head rs) @ notice
               else concat (take head rs) @ notice @ concat (drop (length rs - tail) rs))"
    using False by (simp add: truncatePromptGuardText_def Let_def rs_def notice_def)
  show ?thesis
  proof (cases "int limit - int (RuneCount notice) \<le> 0")
    case True
    then show ?thesis using count [of "take limit rs" "[]"] False n by (simp add: out set_take_subset)
  next
    case keep: False
    define k where "k = nat (int limit - int (RuneCount notice))"
    have k: "k + length notice = limit" using keep notice' by (simp add: k_def)
    have "RuneCount (concat (take (k * 2 div 3) rs) @ notice @ concat (drop (length rs - (k - k * 2 div 3)) rs)) \<le> limit"
      using count [of "take (k * 2 div 3) rs"] count [of "drop (length rs - (k - k * 2 div 3)) rs" "[]"] notice k False n
      by (simp add: set_take_subset set_drop_subset)
    moreover have "RuneCount (concat (take (k * 2 div 3) rs) @ notice) \<le> limit"
      using count [of "take (k * 2 div 3) rs"] notice' k by (simp add: set_take_subset)
    ultimately show ?thesis using keep by (simp add: out Let_def flip: k_def)
  qed
qed

lemmas guard_limits = promptGuardSelectedFileChars_def promptGuardSelectedFilesTotalChars_def
  promptGuardSelectedFilesMaxCount_def promptGuardCursorCommandChars_def promptGuardCursorCommandsTotalChars_def
  promptGuardCursorCommandsMaxCount_def promptGuardCursorCommandNameChars_def promptGuardRuleChars_def
  promptGuardRulesTotalChars_def promptGuardRulesMaxCount_def promptGuardSkillDescriptionChars_def
  promptGuardSkillDescriptionsTotal_def promptGuardSkillDescriptorsMaxCount_def

definition within :: "('a \<Rightarrow> string) \<Rightarrow> nat \<Rightarrow> nat \<Rightarrow> nat \<Rightarrow> 'a list \<Rightarrow> bool" where
  "within get itemLimit totalLimit maxItems xs \<longleftrightarrow>
     length xs \<le> maxItems \<and> (\<forall>x \<in> set xs. RuneCount (get x) \<le> itemLimit) \<and> sum_list (map (RuneCount \<circ> get) xs) \<le> totalLimit"

text \<open>What a guard relies on: the text it stores in an item is the text it reads from it.\<close>

locale guarded_items =
  fixes get :: "'a \<Rightarrow> string" and put :: "'a \<Rightarrow> string \<Rightarrow> 'a" and label :: string
  assumes get_put: "get (put x v) = v"
    and ascii_label: "c \<in> set label \<Longrightarrow> ascii c"
begin

lemma guard_within: "within get itemLimit remaining maxItems (guard_items get put label itemLimit remaining maxItems xs)"
proof (induction xs arbitrary: remaining maxItems)
  case Nil
  then show ?case by (simp add: within_def)
next
  case (Cons x xs)
  define v where "v = truncatePromptGuardText label (TrimSpace (get x)) (min itemLimit remaining)"
  have "RuneCount v \<le> min itemLimit remaining" unfolding v_def by (intro guard_text_le) (simp add: ascii_label)
  then have v: "RuneCount v \<le> itemLimit" "RuneCount v \<le> remaining" by simp_all
  have "within get itemLimit remaining maxItems (put x v # guard_items get put label itemLimit (remaining - RuneCount v) (maxItems - 1) xs)"
    if "maxItems \<noteq> 0"
    using Cons.IH [of "remaining - RuneCount v" "maxItems - 1"] v that by (auto simp: within_def get_put)
  moreover have "within get itemLimit r m []" for r m by (simp add: within_def)
  ultimately show ?case using Cons.IH by (simp add: Let_def v_def)
qed

text \<open>Items that fit are all kept, trimmed.\<close>

lemma guard_keeps:
  "within (TrimSpace \<circ> get) itemLimit remaining maxItems xs \<Longrightarrow> (\<And>x. x \<in> set xs \<Longrightarrow> TrimSpace (get x) \<noteq> []) \<Longrightarrow>
   guard_items get put label itemLimit remaining maxItems xs = map (\<lambda>x. put x (TrimSpace (get x))) xs"
proof (induction xs arbitrary: remaining maxItems)
  case (Cons x xs)
  let ?c = "TrimSpace (get x)"
  have pos: "0 < RuneCount ?c" using Cons.prems(2) by (intro RuneCount_pos) simp
  have fit: "RuneCount ?c \<le> itemLimit" "RuneCount ?c \<le> remaining" "maxItems \<noteq> 0"
      "within (TrimSpace \<circ> get) itemLimit (remaining - RuneCount ?c) (maxItems - 1) xs"
    using Cons.prems(1) by (auto simp: within_def comp_def)
  then have m: "min itemLimit remaining \<noteq> 0" using pos by linarith
  with fit have "truncatePromptGuardText label ?c (min itemLimit remaining) = ?c" by (auto simp: truncatePromptGuardText_def min_def)
  moreover have "guard_items get put label itemLimit (remaining - RuneCount ?c) (maxItems - 1) xs = map (\<lambda>x. put x (TrimSpace (get x))) xs"
    using Cons.IH [OF fit(4)] Cons.prems(2) by simp
  moreover have "?c \<noteq> []" using Cons.prems(2) by simp
  ultimately show ?case using fit(3) m by (simp add: Let_def)
qed simp

end

interpretation files: guarded_items sf_Content "\<lambda>f v. f\<lparr>sf_Content := v\<rparr>" "''selected_context.files.content''"
  by unfold_locales (auto simp: ascii_def)

interpretation commands: guarded_items sc_Content
    "\<lambda>c v. c\<lparr>sc_Name := truncatePromptGuardText ''selected_context.cursor_commands.name'' (TrimSpace (sc_Name c))
       promptGuardCursorCommandNameChars, sc_Content := v\<rparr>" "''selected_context.cursor_commands.content''"
  by unfold_locales (auto simp: ascii_def)

interpretation rules: guarded_items cr_Content "\<lambda>r v. r\<lparr>cr_Content := v\<rparr>" "''request_context.rules.content''"
  by unfold_locales (auto simp: ascii_def)

interpretation skills: guarded_items sd_Description "\<lambda>d v. d\<lparr>sd_Description := v\<rparr>" "''skill.description''"
  by unfold_locales (auto simp: ascii_def)

interpretation extra: guarded_items "\<lambda>s. s" "\<lambda>_ v. v" "''selected_context.extra_context''"
  by unfold_locales (auto simp: ascii_def)

interpretation members: guarded_items snd "\<lambda>(k, _) v. (k, v)" "''request_context.file_contents''"
  by unfold_locales (auto simp: ascii_def split: prod.splits)

lemma guard_items_keys: "distinct (map fst xs) \<Longrightarrow>
    distinct (map fst (guard_items snd (\<lambda>(k, _) v. (k, v)) label itemLimit remaining maxItems xs)) \<and>
    set (map fst (guard_items snd (\<lambda>(k, _) v. (k, v)) label itemLimit remaining maxItems xs)) \<subseteq> set (map fst xs)"
proof (induction xs arbitrary: remaining maxItems)
  case (Cons x xs)
  obtain k u where x: "x = (k, u)" by fastforce
  with Cons.prems have d: "distinct (map fst xs)" "k \<notin> set (map fst xs)" by auto
  show ?case using Cons.IH [OF d(1)] d(2) unfolding x by (simp add: Let_def) blast
qed simp

lemma trimmed_members_keys: "distinct (map fst (trimmed_members ms))"
proof (induction ms)
  case (Cons m ms)
  then show ?case by (cases m) (auto simp: Let_def distinct_map_filter)
qed simp

text \<open>
  C32. What the guards keep of a prompt is within their limits, for every input: the number of items, the
  runes of each item and the runes of all items together; and the names of a guarded map stay distinct.
\<close>
theorem prompt_guards_bound:
  "within sf_Content 16000 64000 12 (guardSelectedFiles selectedFiles) \<and>
   within sc_Content 12000 32000 8 (guardSelectedCursorCommands cursorCommands) \<and>
   within cr_Content 6000 24000 40 (guardCursorRules cursorRules) \<and>
   within sd_Description 800 16000 32 (guardSkillDescriptors descriptors) \<and>
   within id 12000 12000 16 (guardStringSlice extraContext ''selected_context.extra_context'' 12000 12000 16) \<and>
   within snd 16000 64000 12 (guardStringMap fileContents ''request_context.file_contents'' 16000 64000 12) \<and>
   gomap_ok (guardStringMap fileContents ''request_context.file_contents'' 16000 64000 12)"
proof -
  have "gomap_ok (guardStringMap m l i t n)" for m l i t n
  proof -
    let ?xs = "sort_key (map of_char \<circ> fst :: string \<times> string \<Rightarrow> nat list) (trimmed_members m)"
    have "image_mset fst (mset ?xs) = image_mset fst (mset (trimmed_members m))" by (simp only: mset_sort)
    then have "mset (map fst ?xs) = mset (map fst (trimmed_members m))" by (simp only: mset_map)
    then have "distinct (map fst ?xs)" using trimmed_members_keys mset_eq_imp_distinct_iff by metis
    then show ?thesis unfolding guardStringMap_def using guard_items_keys by blast
  qed
  moreover have "within sf_Content 16000 64000 12 (guardSelectedFiles selectedFiles)"
    unfolding guardSelectedFiles_def guard_limits by (rule files.guard_within)
  moreover have "within sc_Content 12000 32000 8 (guardSelectedCursorCommands cursorCommands)"
    unfolding guardSelectedCursorCommands_def guard_limits by (rule commands.guard_within [unfolded guard_limits])
  moreover have "within cr_Content 6000 24000 40 (guardCursorRules cursorRules)"
    unfolding guardCursorRules_def guard_limits by (rule rules.guard_within)
  moreover have "within sd_Description 800 16000 32 (guardSkillDescriptors descriptors)"
    unfolding guardSkillDescriptors_def guard_limits by (rule skills.guard_within)
  moreover have "within id 12000 12000 16 (guardStringSlice extraContext ''selected_context.extra_context'' 12000 12000 16)"
    unfolding guardStringSlice_def id_def by (rule extra.guard_within)
  moreover have "within snd 16000 64000 12 (guardStringMap fileContents ''request_context.file_contents'' 16000 64000 12)"
    unfolding guardStringMap_def by (rule members.guard_within)
  ultimately show ?thesis by blast
qed

end
