(* ===== verification/Stream_Broker.thy ===== *)
theory Stream_Broker
  imports Stream_Types
begin

text \<open>
  The registry of active streams of \<open>internal/backend/forwarder/broker.go\<close>. A stream keeps a backlog
  of the events published for a request; subscribers read it by cursor and acknowledge what they
  have delivered, which lets the broker drop the acknowledged prefix. The broker's map is an
  association list; an operation that locks a stream is a function on that stream, composed with
  the lookup and the write-back the code does. A critical section is one function; where an
  operation takes a lock twice (\<open>Complete\<close>, \<open>Fail\<close>, \<open>Cancel\<close>), its sections are composed in order.
\<close>

record StreamBroker =
  br_streams :: "(string, ActiveStream) gomap"
  br_nextID :: u64
  br_backlogLimit :: int
  br_canceledContexts :: "nat list"

definition defaultStreamBacklogLimit :: int where
  "defaultStreamBacklogLimit = 1024"

definition NewStreamBrokerWithBacklogLimit :: "int \<Rightarrow> StreamBroker" where
  "NewStreamBrokerWithBacklogLimit backlogLimit =
     \<lparr>br_streams = [], br_nextID = 0,
      br_backlogLimit = (if backlogLimit < 1 then defaultStreamBacklogLimit else backlogLimit),
      br_canceledContexts = []\<rparr>"

definition NewStreamBroker :: StreamBroker where
  "NewStreamBroker = NewStreamBrokerWithBacklogLimit defaultStreamBacklogLimit"

subsection \<open>Operations on one locked stream\<close>

definition fresh_stream ::
  "string \<Rightarrow> string \<Rightarrow> int \<Rightarrow> string \<Rightarrow> string \<Rightarrow> AgentMode \<Rightarrow> string \<Rightarrow> gtime \<Rightarrow> ActiveStream" where
  "fresh_stream requestID conversationID turnSeq modelID modelName mode latestUserText now =
     \<lparr>as_RequestID = requestID, as_ConversationID = TrimSpace conversationID, as_TurnSeq = turnSeq,
      as_ModelID = TrimSpace modelID, as_ModelName = TrimSpace modelName, as_Mode = mode,
      as_LatestUserText = TrimSpace latestUserText, as_Status = StreamStatusCreated,
      as_TerminalActionClaimed = False, as_CurrentModelCallID = [], as_ProviderActive = False,
      as_ProviderCancel = None, as_ProviderPassCount = 0, as_ToolInvocationCount = 0,
      as_Phase = PhaseUnset, as_PendingProviderAction = providerActionNone,
      as_PendingProviderCompletion = None, as_CurrentProviderToken = 0, as_CurrentCompactionToken = 0,
      as_TimerTokens = [], as_AccumulatedText = [], as_AccumulatedReasoning = [],
      as_ReasoningSignature = [], as_ReasoningSignatureSource = [], as_ReasoningItemID = [],
      as_ReasoningStatus = [], as_ReasoningSummary = [], as_SyntheticThinkingStartedAt = 0,
      as_SyntheticThinkingPublished = False, as_FinishReason = [], as_Usage = zero_usage,
      as_TerminalToolInvocation = False, as_PendingCompaction = False, as_Backlog = [],
      as_BacklogBaseCursor = 0, as_Subscribers = [], as_PendingExecs = [], as_RecentCompletedExecs = [],
      as_PendingInteractions = [],
      as_PartialToolCallIDs = [], as_CompletedToolCallIDs = [], as_TerminalCleanupTimer = None,
      as_TerminalCleanupSeq = 0, as_CreatedAt = now, as_UpdatedAt = now\<rparr>"

text \<open>The branch of \<open>OpenStream\<close> that finds the request already open.\<close>

definition reopen_stream ::
  "string \<Rightarrow> int \<Rightarrow> string \<Rightarrow> string \<Rightarrow> AgentMode \<Rightarrow> string \<Rightarrow> gtime \<Rightarrow> ActiveStream \<Rightarrow> ActiveStream" where
  "reopen_stream conversationID turnSeq modelID modelName mode latestUserText now s =
     s\<lparr>as_ConversationID := TrimSpace conversationID, as_TurnSeq := turnSeq,
       as_ModelID := TrimSpace modelID, as_ModelName := TrimSpace modelName, as_Mode := mode,
       as_LatestUserText := TrimSpace latestUserText, as_Backlog := [], as_BacklogBaseCursor := 0,
       as_Subscribers := map (\<lambda>(k, sub). (k, sub\<lparr>sub_Cursor := 0\<rparr>)) (as_Subscribers s),
       as_Status := (if as_Status s = StatusUnset then StreamStatusCreated else as_Status s),
       as_UpdatedAt := now\<rparr>"

definition stopTerminalCleanupTimerLocked :: "ActiveStream \<Rightarrow> ActiveStream" where
  "stopTerminalCleanupTimerLocked s =
     s\<lparr>as_TerminalCleanupSeq := as_TerminalCleanupSeq s + 1, as_TerminalCleanupTimer := None\<rparr>"

definition upper_bound :: "ActiveStream \<Rightarrow> int" where
  "upper_bound s = as_BacklogBaseCursor s + int (length (as_Backlog s))"

fun lowest_cursor :: "int \<Rightarrow> (string, StreamSubscriber) gomap \<Rightarrow> int" where
  "lowest_cursor acknowledged [] = acknowledged"
| "lowest_cursor acknowledged ((k, sub) # subs) =
     lowest_cursor (if sub_Cursor sub < acknowledged then sub_Cursor sub else acknowledged) subs"

definition trimAcknowledgedBacklogLocked :: "ActiveStream \<Rightarrow> gtime \<Rightarrow> ActiveStream" where
  "trimAcknowledgedBacklogLocked s now =
     (if as_Subscribers s = [] \<or> as_Backlog s = [] then s
      else let acknowledged = lowest_cursor (upper_bound s) (as_Subscribers s);
               trimmed0 = acknowledged - as_BacklogBaseCursor s
           in if trimmed0 \<le> 0 then s
              else let trimmed = (if int (length (as_Backlog s)) < trimmed0
                                  then int (length (as_Backlog s)) else trimmed0)
                   in s\<lparr>as_Backlog := drop (nat trimmed) (as_Backlog s),
                        as_BacklogBaseCursor := as_BacklogBaseCursor s + trimmed,
                        as_UpdatedAt := now\<rparr>)"

definition acknowledge_stream ::
  "ActiveStream \<Rightarrow> string \<Rightarrow> int \<Rightarrow> gtime \<Rightarrow> fwd_error + ActiveStream" where
  "acknowledge_stream s subscriberID cursor now =
     (case map_of (as_Subscribers s) (TrimSpace subscriberID) of
        None \<Rightarrow> Inl (SubscriberNotActive (TrimSpace subscriberID))
      | Some sub \<Rightarrow>
          (if cursor < sub_Cursor sub \<or> upper_bound s < cursor then Inl (InvalidCursor cursor)
           else Inr (trimAcknowledgedBacklogLocked
                  (s\<lparr>as_Subscribers := AList.update (TrimSpace subscriberID) (sub\<lparr>sub_Cursor := cursor\<rparr>)
                       (as_Subscribers s)\<rparr>) now)))"

text \<open>\<open>Publish\<close>: a terminal stream takes only the end event; without subscribers the backlog is bounded.\<close>

definition publish_stream :: "int \<Rightarrow> StreamEvent \<Rightarrow> gtime \<Rightarrow> ActiveStream \<Rightarrow> ActiveStream" where
  "publish_stream limit event now s =
     (if \<not> ev_End event \<and> isTerminalStreamStatus (as_Status s) then s
      else let s1 = s\<lparr>as_Backlog := as_Backlog s @ [event]\<rparr>;
               s2 = (if as_Subscribers s1 = [] \<and> limit < int (length (as_Backlog s1))
                     then let overflow = int (length (as_Backlog s1)) - limit
                          in s1\<lparr>as_Backlog := drop (nat overflow) (as_Backlog s1),
                                as_BacklogBaseCursor := as_BacklogBaseCursor s1 + overflow\<rparr>
                     else s1)
           in s2\<lparr>as_UpdatedAt := now,
                 as_Subscribers := map (\<lambda>(k, sub). (k, sub\<lparr>sub_Signal := True\<rparr>)) (as_Subscribers s2)\<rparr>)"

text \<open>The locked sections of \<open>Subscribe\<close> and \<open>Unsubscribe\<close>.\<close>

definition attach_stream :: "string \<Rightarrow> gtime \<Rightarrow> ActiveStream \<Rightarrow> ActiveStream" where
  "attach_stream subscriberID now s =
     (let s1 = stopTerminalCleanupTimerLocked s;
          sub = \<lparr>sub_Signal = False, sub_Cursor = as_BacklogBaseCursor s\<rparr>
      in s1\<lparr>as_Subscribers := AList.update subscriberID sub (as_Subscribers s1), as_UpdatedAt := now\<rparr>)"

definition detach_stream :: "string \<Rightarrow> ActiveStream \<Rightarrow> ActiveStream" where
  "detach_stream subscriberID s =
     s\<lparr>as_Subscribers := AList.delete (TrimSpace subscriberID) (as_Subscribers s)\<rparr>"

definition read_stream :: "ActiveStream \<Rightarrow> int \<Rightarrow> StreamEvent list" where
  "read_stream s cursor0 =
     (let cursor = (if cursor0 < as_BacklogBaseCursor s then as_BacklogBaseCursor s else cursor0);
          offset = cursor - as_BacklogBaseCursor s
      in if int (length (as_Backlog s)) \<le> offset then [] else drop (nat offset) (as_Backlog s))"

subsection \<open>Operations of the broker\<close>

definition Get :: "StreamBroker \<Rightarrow> string \<Rightarrow> ActiveStream option" where
  "Get b requestID = map_of (br_streams b) (TrimSpace requestID)"

definition put_stream :: "StreamBroker \<Rightarrow> string \<Rightarrow> ActiveStream \<Rightarrow> StreamBroker" where
  "put_stream b requestID s = b\<lparr>br_streams := AList.update (TrimSpace requestID) s (br_streams b)\<rparr>"

definition OpenStream ::
  "StreamBroker \<Rightarrow> string \<Rightarrow> string \<Rightarrow> int \<Rightarrow> string \<Rightarrow> string \<Rightarrow> AgentMode \<Rightarrow> string \<Rightarrow> gtime \<Rightarrow>
   fwd_error + (ActiveStream option \<times> StreamBroker)" where
  "OpenStream b requestID conversationID turnSeq modelID modelName mode latestUserText now =
     (let rid = TrimSpace requestID
      in if rid = [] then Inr (None, b)
         else case validateSupportedActiveMode mode of
                Inl e \<Rightarrow> Inl e
              | Inr m \<Rightarrow>
                  (let s = (case map_of (br_streams b) rid of
                        Some existing \<Rightarrow>
                          reopen_stream conversationID turnSeq modelID modelName m latestUserText now existing
                      | None \<Rightarrow> fresh_stream rid conversationID turnSeq modelID modelName m latestUserText now)
                   in Inr (Some s, put_stream b rid s)))"

definition is_live :: "ActiveStream \<Rightarrow> bool" where
  "is_live s \<longleftrightarrow> \<not> isTerminalStreamStatus (as_Status s) \<and> as_Phase s \<noteq> TurnPhaseCanceled \<and>
     as_Phase s \<noteq> TurnPhaseCompleted \<and> as_Phase s \<noteq> TurnPhaseFailed"

fun single_active :: "ActiveStream option \<Rightarrow> ActiveStream list \<Rightarrow> ActiveStream option" where
  "single_active active [] = active"
| "single_active active (s # ss) =
     (if TrimSpace (as_ConversationID s) = [] \<or> \<not> is_live s then single_active active ss
      else case active of Some _ \<Rightarrow> None | None \<Rightarrow> single_active (Some s) ss)"

definition SingleActiveStream :: "StreamBroker \<Rightarrow> ActiveStream option" where
  "SingleActiveStream b = single_active None (map snd (br_streams b))"

text \<open>The new subscriber's id (empty for a terminal stream, which takes none) and the broker.\<close>

definition Subscribe :: "StreamBroker \<Rightarrow> string \<Rightarrow> gtime \<Rightarrow> fwd_error + (string \<times> StreamBroker)" where
  "Subscribe b requestID now =
     (let rid = TrimSpace requestID
      in if rid = [] then Inl RequestIDRequired
         else case (case Get b rid of
                      Some s \<Rightarrow> Inr (Some s, b)
                    | None \<Rightarrow> OpenStream b rid [] 0 [] [] AGENT_MODE_AGENT [] now) of
                Inl e \<Rightarrow> Inl e
              | Inr (None, b1) \<Rightarrow> Inl RequestIDRequired
              | Inr (Some s, b1) \<Rightarrow>
                  (let b2 = b1\<lparr>br_nextID := br_nextID b1 + 1\<rparr>;
                       subscriberID = ''sub-'' @ show_nat (unat (br_nextID b2))
                   in if isTerminalStreamStatus (as_Status s) then Inr ([], b2)
                      else Inr (subscriberID, put_stream b2 rid (attach_stream subscriberID now s))))"

definition Unsubscribe :: "StreamBroker \<Rightarrow> string \<Rightarrow> string \<Rightarrow> nat \<times> StreamBroker" where
  "Unsubscribe b requestID subscriberID =
     (case Get b requestID of
        None \<Rightarrow> (0, b)
      | Some s \<Rightarrow>
          (let s1 = detach_stream subscriberID s
           in (length (as_Subscribers s1), put_stream b requestID s1)))"

definition AcknowledgeCursor ::
  "StreamBroker \<Rightarrow> string \<Rightarrow> string \<Rightarrow> int \<Rightarrow> gtime \<Rightarrow> fwd_error + StreamBroker" where
  "AcknowledgeCursor b requestID subscriberID cursor now =
     (case Get b requestID of
        None \<Rightarrow> Inl (RequestNotActive (TrimSpace requestID))
      | Some s \<Rightarrow> map_sum id (put_stream b requestID) (acknowledge_stream s subscriberID cursor now))"

definition OtherConversationRequestIDs :: "StreamBroker \<Rightarrow> string \<Rightarrow> string \<Rightarrow> string list" where
  "OtherConversationRequestIDs b conversationID keepRequestID =
     (let conv = TrimSpace conversationID; keep = TrimSpace keepRequestID
      in if conv = [] then []
         else let candidates = filter (\<lambda>(k, s). TrimSpace k \<noteq> keep) (br_streams b)
              in map fst (filter (\<lambda>(k, s). TrimSpace (as_ConversationID s) = conv \<and> is_live s) candidates))"

definition schedule_stream :: "gtime \<Rightarrow> ActiveStream \<Rightarrow> bool \<times> ActiveStream" where
  "schedule_stream now s =
     (if as_Subscribers s \<noteq> [] then (False, stopTerminalCleanupTimerLocked s)
      else if as_Status s \<noteq> StreamStatusCompleted \<and> as_Status s \<noteq> StreamStatusCanceled \<and>
              as_Status s \<noteq> StreamStatusFailed
      then (False, stopTerminalCleanupTimerLocked s)
      else let sq = as_TerminalCleanupSeq s + 1
           in (True, s\<lparr>as_TerminalCleanupSeq := sq, as_TerminalCleanupTimer := Some sq, as_UpdatedAt := now\<rparr>))"

definition scheduleTerminalCleanup :: "StreamBroker \<Rightarrow> string \<Rightarrow> gtime \<Rightarrow> bool \<times> StreamBroker" where
  "scheduleTerminalCleanup b requestID now =
     (case Get b requestID of
        None \<Rightarrow> (False, b)
      | Some s \<Rightarrow> (let (r, s') = schedule_stream now s in (r, put_stream b requestID s')))"

definition RemoveIfIdle :: "StreamBroker \<Rightarrow> string \<Rightarrow> bool \<times> StreamBroker" where
  "RemoveIfIdle b requestID =
     (let rid = TrimSpace requestID
      in if rid = [] then (False, b)
         else case map_of (br_streams b) rid of
                None \<Rightarrow> (False, b)
              | Some s \<Rightarrow>
                  (let terminal = (as_Status s = StreamStatusCompleted \<or> as_Status s = StreamStatusCanceled \<or>
                                   as_Status s = StreamStatusFailed);
                       s1 = (if terminal then stopTerminalCleanupTimerLocked s else s);
                       b1 = put_stream b rid s1
                   in if as_Subscribers s \<noteq> [] then (False, b1)
                      else if terminal then (True, b1\<lparr>br_streams := AList.delete rid (br_streams b1)\<rparr>)
                      else if as_ProviderActive s \<or> as_Backlog s \<noteq> [] \<or> TrimSpace (as_ConversationID s) \<noteq> []
                      then (False, b1)
                      else (True, b1\<lparr>br_streams := AList.delete rid (br_streams b1)\<rparr>)))"

definition runScheduledTerminalCleanup :: "StreamBroker \<Rightarrow> string \<Rightarrow> u64 \<Rightarrow> StreamBroker" where
  "runScheduledTerminalCleanup b requestID sequence =
     (case Get b requestID of
        None \<Rightarrow> b
      | Some s \<Rightarrow>
          (if as_TerminalCleanupSeq s \<noteq> sequence then b
           else let s1 = s\<lparr>as_TerminalCleanupTimer := None\<rparr>; b1 = put_stream b requestID s1
                in if as_Subscribers s \<noteq> [] then b1
                   else if as_Status s \<noteq> StreamStatusCompleted \<and> as_Status s \<noteq> StreamStatusCanceled \<and>
                           as_Status s \<noteq> StreamStatusFailed then b1
                   else snd (RemoveIfIdle b1 requestID)))"

definition Publish :: "StreamBroker \<Rightarrow> string \<Rightarrow> StreamEvent \<Rightarrow> gtime \<Rightarrow> fwd_error + StreamBroker" where
  "Publish b requestID event now =
     (case Get b requestID of
        None \<Rightarrow> Inl (RequestNotActive (TrimSpace requestID))
      | Some s \<Rightarrow> Inr (put_stream b requestID (publish_stream (br_backlogLimit b) event now s)))"

definition ReadFromCursor :: "StreamBroker \<Rightarrow> string \<Rightarrow> int \<Rightarrow> fwd_error + StreamEvent list" where
  "ReadFromCursor b requestID cursor =
     (case Get b requestID of
        None \<Rightarrow> Inl (RequestNotActive (TrimSpace requestID))
      | Some s \<Rightarrow> Inr (read_stream s cursor))"

definition end_event :: "string \<Rightarrow> string \<Rightarrow> StreamEvent" where
  "end_event code message =
     \<lparr>ev_Message = None, ev_End = True, ev_TerminalErrorCode = code, ev_TerminalErrorMessage = message\<rparr>"

text \<open>
  The shared tail of \<open>Complete\<close>, \<open>Fail\<close> and \<open>Cancel\<close>: publish the end event and, when nobody was
  subscribed as the status changed, schedule the removal.
\<close>

definition publish_end ::
  "StreamBroker \<Rightarrow> string \<Rightarrow> StreamEvent \<Rightarrow> nat \<Rightarrow> gtime \<Rightarrow> fwd_error + StreamBroker" where
  "publish_end b requestID event subscriberCount now =
     (case Publish b requestID event now of
        Inl e \<Rightarrow> Inl e
      | Inr b1 \<Rightarrow> Inr (if subscriberCount = 0 then snd (scheduleTerminalCleanup b1 requestID now) else b1))"

definition Complete :: "StreamBroker \<Rightarrow> string \<Rightarrow> string \<Rightarrow> string \<Rightarrow> gtime \<Rightarrow> fwd_error + StreamBroker" where
  "Complete b requestID terminalCode terminalMessage now =
     (case Get b requestID of
        None \<Rightarrow> Inl (RequestNotActive (TrimSpace requestID))
      | Some s \<Rightarrow>
          (if as_Status s = StreamStatusCanceled \<or> as_Status s = StreamStatusFailed \<or>
              as_Status s = StreamStatusCompleted then Inr b
           else let s1 = (stopTerminalCleanupTimerLocked s)
                           \<lparr>as_Status := StreamStatusCompleted, as_UpdatedAt := now\<rparr>
                in publish_end (put_stream b requestID s1) requestID
                     (end_event (TrimSpace terminalCode) (TrimSpace terminalMessage))
                     (length (as_Subscribers s)) now))"

definition Fail :: "StreamBroker \<Rightarrow> string \<Rightarrow> string \<Rightarrow> string \<Rightarrow> gtime \<Rightarrow> fwd_error + StreamBroker" where
  "Fail b requestID terminalCode terminalMessage now =
     (case Get b requestID of
        None \<Rightarrow> Inl (RequestNotActive (TrimSpace requestID))
      | Some s \<Rightarrow>
          (if isTerminalStreamStatus (as_Status s) then Inr b
           else let s1 = (stopTerminalCleanupTimerLocked s)
                           \<lparr>as_Status := StreamStatusFailed, as_UpdatedAt := now\<rparr>
                in publish_end (put_stream b requestID s1) requestID
                     (end_event (TrimSpace terminalCode) (TrimSpace terminalMessage))
                     (length (as_Subscribers s)) now))"

definition Cancel :: "StreamBroker \<Rightarrow> string \<Rightarrow> string \<Rightarrow> gtime \<Rightarrow> fwd_error + StreamBroker" where
  "Cancel b requestID terminalMessage now =
     (case Get b requestID of
        None \<Rightarrow> Inl (RequestNotActive (TrimSpace requestID))
      | Some s \<Rightarrow>
          (if isTerminalStreamStatus (as_Status s) then Inr b
           else let s1 = (stopTerminalCleanupTimerLocked s)
                           \<lparr>as_ProviderCancel := None, as_ProviderActive := False,
                            as_Status := StreamStatusCanceled, as_UpdatedAt := now\<rparr>;
                    b1 = (case as_ProviderCancel s of
                            None \<Rightarrow> b
                          | Some ctx \<Rightarrow> b\<lparr>br_canceledContexts := br_canceledContexts b @ [ctx]\<rparr>)
                in publish_end (put_stream b1 requestID s1) requestID
                     (end_event ''canceled''
                        (firstNonEmpty [TrimSpace terminalMessage, ''[canceled] User aborted request'']))
                     (length (as_Subscribers s)) now))"

subsection \<open>The stream invariant\<close>

definition stream_ok :: "ActiveStream \<Rightarrow> bool" where
  "stream_ok s \<longleftrightarrow> gomap_ok (as_Subscribers s) \<and> 0 \<le> as_BacklogBaseCursor s \<and>
     (\<forall>(k, sub) \<in> set (as_Subscribers s).
        as_BacklogBaseCursor s \<le> sub_Cursor sub \<and> sub_Cursor sub \<le> upper_bound s)"

lemma stream_ok_cursor:
  assumes "stream_ok s" "map_of (as_Subscribers s) k = Some sub"
  shows "as_BacklogBaseCursor s \<le> sub_Cursor sub \<and> sub_Cursor sub \<le> upper_bound s"
  using assms by (auto simp: stream_ok_def dest: map_of_SomeD)

lemma lowest_cursor_le: "lowest_cursor a subs \<le> a"
  by (induction a subs rule: lowest_cursor.induct) (auto intro: order_trans)

lemma lowest_cursor_le_cursor: "(k, sub) \<in> set subs \<Longrightarrow> lowest_cursor a subs \<le> sub_Cursor sub"
proof (induction a subs rule: lowest_cursor.induct)
  case (2 a k' sub' subs)
  then show ?case
    using lowest_cursor_le [of "if sub_Cursor sub' < a then sub_Cursor sub' else a" subs]
    by (auto split: if_splits)
qed simp

lemma lowest_cursor_ge:
  "\<forall>(k, sub) \<in> set subs. x \<le> sub_Cursor sub \<Longrightarrow> x \<le> a \<Longrightarrow> x \<le> lowest_cursor a subs"
  by (induction a subs rule: lowest_cursor.induct) auto

lemma trim_upper_bound [simp]:
  assumes "stream_ok s"
  shows "upper_bound (trimAcknowledgedBacklogLocked s now) = upper_bound s"
  using assms lowest_cursor_le [of "upper_bound s" "as_Subscribers s"]
  by (auto simp: trimAcknowledgedBacklogLocked_def Let_def upper_bound_def)

lemma trim_subscribers [simp]: "as_Subscribers (trimAcknowledgedBacklogLocked s now) = as_Subscribers s"
  by (simp add: trimAcknowledgedBacklogLocked_def Let_def)

lemma trim_base:
  assumes "stream_ok s"
  shows "as_BacklogBaseCursor s \<le> as_BacklogBaseCursor (trimAcknowledgedBacklogLocked s now)"
    and "(k, sub) \<in> set (as_Subscribers s) \<Longrightarrow>
      as_BacklogBaseCursor (trimAcknowledgedBacklogLocked s now) \<le> sub_Cursor sub"
  using assms lowest_cursor_le_cursor [of k sub "as_Subscribers s" "upper_bound s"]
    lowest_cursor_le [of "upper_bound s" "as_Subscribers s"]
  by (auto simp: trimAcknowledgedBacklogLocked_def Let_def stream_ok_def upper_bound_def)

lemma stream_ok_trim [go_inv]:
  assumes ok: "stream_ok s"
  shows "stream_ok (trimAcknowledgedBacklogLocked s now)"
proof -
  let ?t = "trimAcknowledgedBacklogLocked s now"
  have ub: "upper_bound ?t = upper_bound s" using ok by simp
  have low: "as_BacklogBaseCursor ?t \<le> sub_Cursor sub" if "(k, sub) \<in> set (as_Subscribers s)" for k sub
    using trim_base(2) [OF ok that] .
  show ?thesis
    unfolding stream_ok_def [of ?t] ub trim_subscribers
    using ok low trim_base(1) [OF ok, of now] by (auto simp: stream_ok_def split_beta)
qed

lemma stream_ok_fresh [go_inv]: "stream_ok (fresh_stream r c n m mn mode u now)"
  by (simp add: stream_ok_def fresh_stream_def)

lemma stream_ok_reopen [go_inv]: "stream_ok s \<Longrightarrow> stream_ok (reopen_stream c n m mn mode u now s)"
  by (auto simp: stream_ok_def reopen_stream_def upper_bound_def)

lemma stream_ok_stop [go_inv]: "stream_ok s \<Longrightarrow> stream_ok (stopTerminalCleanupTimerLocked s)"
  by (auto simp: stream_ok_def stopTerminalCleanupTimerLocked_def upper_bound_def)

lemma stream_ok_attach [go_inv]: "stream_ok s \<Longrightarrow> stream_ok (attach_stream k now s)"
  by (auto simp: stream_ok_def attach_stream_def stopTerminalCleanupTimerLocked_def upper_bound_def
      Let_def set_update_iff)

lemma stream_ok_detach [go_inv]: "stream_ok s \<Longrightarrow> stream_ok (detach_stream k s)"
  by (auto simp: stream_ok_def detach_stream_def upper_bound_def in_set_delete_iff)

lemma stream_ok_publish [go_inv]:
  assumes "stream_ok s" "1 \<le> limit"
  shows "stream_ok (publish_stream limit e now s)"
  using assms by (fastforce simp: stream_ok_def publish_stream_def upper_bound_def Let_def)

lemma stream_ok_acknowledge [go_inv]:
  assumes ok: "stream_ok s" and ack: "acknowledge_stream s k c now = Inr s'"
  shows "stream_ok s'"
proof -
  from ack obtain sub where sub: "map_of (as_Subscribers s) (TrimSpace k) = Some sub"
    and c: "sub_Cursor sub \<le> c" "c \<le> upper_bound s"
    and s': "s' = trimAcknowledgedBacklogLocked (s\<lparr>as_Subscribers :=
        AList.update (TrimSpace k) (sub\<lparr>sub_Cursor := c\<rparr>) (as_Subscribers s)\<rparr>) now"
    by (auto simp: acknowledge_stream_def split: option.splits if_splits)
  have "as_BacklogBaseCursor s \<le> c" using stream_ok_cursor [OF ok sub] c by simp
  with ok c have "stream_ok (s\<lparr>as_Subscribers :=
      AList.update (TrimSpace k) (sub\<lparr>sub_Cursor := c\<rparr>) (as_Subscribers s)\<rparr>)"
    by (auto simp: stream_ok_def upper_bound_def set_update_iff)
  then show ?thesis unfolding s' by (rule stream_ok_trim)
qed

subsection \<open>The stream as an event log\<close>

text \<open>
  What a reader relies on: an ever-growing log of the accepted events, of which the stream retains
  a suffix that holds everything at or after each subscriber's cursor.
\<close>

locale event_feed =
  fixes repr :: "'e list \<Rightarrow> 's \<Rightarrow> bool"
    and cursor :: "'s \<Rightarrow> string \<Rightarrow> int option"
    and read :: "'s \<Rightarrow> int \<Rightarrow> 'e list"
    and accepts :: "'e \<Rightarrow> 's \<Rightarrow> bool"
    and publish :: "'p \<Rightarrow> 'e \<Rightarrow> 's \<Rightarrow> 's"
    and usable :: "'p \<Rightarrow> bool"
    and ack :: "'s \<Rightarrow> string \<Rightarrow> int \<Rightarrow> 's option"
    and same_key :: "string \<Rightarrow> string \<Rightarrow> bool"
  assumes read_log: "repr L s \<Longrightarrow> cursor s k = Some c \<Longrightarrow>
      0 \<le> c \<and> nat c \<le> length L \<and> read s c = drop (nat c) L"
    and publish_log: "repr L s \<Longrightarrow> usable p \<Longrightarrow>
      repr (if accepts e s then L @ [e] else L) (publish p e s)"
    and publish_cursor: "cursor (publish p e s) k = cursor s k"
    and ack_log: "repr L s \<Longrightarrow> cursor s k = Some c \<Longrightarrow> c \<le> d \<Longrightarrow> nat d \<le> length L \<Longrightarrow>
      \<exists>t. ack s k d = Some t \<and> repr L t \<and> cursor t k = Some d"
    and ack_frame: "repr L s \<Longrightarrow> ack s j d = Some t \<Longrightarrow>
      repr L t \<and> (same_key j k \<or> cursor t k = cursor s k)"
begin

text \<open>What a subscriber has still to read after more events were published.\<close>

lemma read_after_publish:
  assumes "repr L s" "cursor s k = Some c" "usable p"
  shows "read (publish p e s) c = read s c @ (if accepts e s then [e] else [])"
proof -
  have "0 \<le> c" "nat c \<le> length L" "read s c = drop (nat c) L"
    using read_log [OF assms(1,2)] by auto
  moreover have "read (publish p e s) c = drop (nat c) (if accepts e s then L @ [e] else L)"
    using read_log [OF publish_log [OF assms(1,3)], where k = k and c = c] assms(2) publish_cursor by simp
  ultimately show ?thesis by simp
qed

text \<open>Reading at the cursor and acknowledging everything read leaves nothing to read.\<close>

lemma drain:
  assumes "repr L s" "cursor s k = Some c"
  shows "\<exists>t. ack s k (c + int (length (read s c))) = Some t \<and> repr L t \<and>
    cursor t k = Some (int (length L)) \<and> read t (int (length L)) = []"
proof -
  have c: "0 \<le> c" "nat c \<le> length L" "read s c = drop (nat c) L"
    using read_log [OF assms] by auto
  then have "c + int (length (read s c)) = int (length L)" by simp
  moreover obtain t where "ack s k (int (length L)) = Some t" "repr L t" "cursor t k = Some (int (length L))"
    using ack_log [OF assms, of "int (length L)"] c by (auto simp: nat_le_iff)
  ultimately show ?thesis using read_log [of L t k "int (length L)"] by auto
qed

end

definition log_repr :: "StreamEvent list \<Rightarrow> ActiveStream \<Rightarrow> bool" where
  "log_repr L s \<longleftrightarrow> stream_ok s \<and> nat (as_BacklogBaseCursor s) \<le> length L \<and>
     as_Backlog s = drop (nat (as_BacklogBaseCursor s)) L"

definition accepts_event :: "StreamEvent \<Rightarrow> ActiveStream \<Rightarrow> bool" where
  "accepts_event e s \<longleftrightarrow> ev_End e \<or> \<not> isTerminalStreamStatus (as_Status s)"

definition cursor_of :: "ActiveStream \<Rightarrow> string \<Rightarrow> int option" where
  "cursor_of s k = map_option sub_Cursor (map_of (as_Subscribers s) (TrimSpace k))"

definition try_acknowledge :: "gtime \<Rightarrow> ActiveStream \<Rightarrow> string \<Rightarrow> int \<Rightarrow> ActiveStream option" where
  "try_acknowledge now s k c = (case acknowledge_stream s k c now of Inl _ \<Rightarrow> None | Inr t \<Rightarrow> Some t)"

lemma log_repr_upper_bound: "log_repr L s \<Longrightarrow> upper_bound s = int (length L)"
  by (auto simp: log_repr_def upper_bound_def stream_ok_def)

lemma read_stream_log:
  assumes "log_repr L s"
  shows "read_stream s c = drop (nat (max c (as_BacklogBaseCursor s))) L"
proof -
  let ?b = "as_BacklogBaseCursor s"
  have b: "0 \<le> ?b" "nat ?b \<le> length L" "as_Backlog s = drop (nat ?b) L"
    using assms by (auto simp: log_repr_def stream_ok_def)
  have "nat (max c ?b - ?b) + nat ?b = nat (max c ?b)" using b by simp
  then show ?thesis using b by (auto simp: read_stream_def Let_def max_def)
qed

lemma log_repr_trim:
  assumes "log_repr L s"
  shows "log_repr L (trimAcknowledgedBacklogLocked s now)"
proof -
  let ?t = "trimAcknowledgedBacklogLocked s now"
  have ok: "stream_ok s" and b: "0 \<le> as_BacklogBaseCursor s" "nat (as_BacklogBaseCursor s) \<le> length L"
    "as_Backlog s = drop (nat (as_BacklogBaseCursor s)) L"
    using assms by (auto simp: log_repr_def stream_ok_def)
  have "as_Backlog ?t = drop (nat (as_BacklogBaseCursor ?t)) L" "nat (as_BacklogBaseCursor ?t) \<le> length L"
    using b by (auto simp: trimAcknowledgedBacklogLocked_def Let_def nat_add_distrib nat_diff_distrib add.commute)
  with stream_ok_trim [OF ok, of now] show ?thesis by (simp add: log_repr_def)
qed

lemma log_repr_publish:
  assumes "log_repr L s" "1 \<le> limit"
  shows "log_repr (if accepts_event e s then L @ [e] else L) (publish_stream limit e now s)"
proof (cases "accepts_event e s")
  case False
  with assms show ?thesis by (simp add: publish_stream_def accepts_event_def)
next
  case True
  have b: "0 \<le> as_BacklogBaseCursor s" "nat (as_BacklogBaseCursor s) \<le> length L"
    "as_Backlog s = drop (nat (as_BacklogBaseCursor s)) L" and ok: "stream_ok s"
    using assms by (auto simp: log_repr_def stream_ok_def)
  have "as_Backlog (publish_stream limit e now s) =
      drop (nat (as_BacklogBaseCursor (publish_stream limit e now s))) (L @ [e])"
    "nat (as_BacklogBaseCursor (publish_stream limit e now s)) \<le> length (L @ [e])"
    using b True assms(2)
    by (auto simp: publish_stream_def accepts_event_def Let_def nat_add_distrib nat_diff_distrib
        Suc_diff_le nat_le_iff)
  with stream_ok_publish [OF ok assms(2)] True show ?thesis by (simp add: log_repr_def)
qed

lemma cursor_of_publish [simp]: "cursor_of (publish_stream limit e now s) k = cursor_of s k"
  by (auto simp: cursor_of_def publish_stream_def Let_def map_of_map_snd option.map_comp comp_def)

lemma acknowledge_cases:
  assumes "try_acknowledge now s k c = Some t"
  obtains sub where "map_of (as_Subscribers s) (TrimSpace k) = Some sub"
    "sub_Cursor sub \<le> c" "c \<le> upper_bound s"
    "t = trimAcknowledgedBacklogLocked (s\<lparr>as_Subscribers :=
       AList.update (TrimSpace k) (sub\<lparr>sub_Cursor := c\<rparr>) (as_Subscribers s)\<rparr>) now"
  using assms by (auto simp: try_acknowledge_def acknowledge_stream_def split: option.splits if_splits sum.splits)

lemma log_repr_acknowledge:
  assumes "log_repr L s" "try_acknowledge now s k c = Some t"
  shows "log_repr L t" "TrimSpace j \<noteq> TrimSpace k \<Longrightarrow> cursor_of t j = cursor_of s j"
    "cursor_of t k = Some c"
proof -
  from assms(2) obtain sub where sub: "map_of (as_Subscribers s) (TrimSpace k) = Some sub"
    "sub_Cursor sub \<le> c" "c \<le> upper_bound s" and t: "t = trimAcknowledgedBacklogLocked (s\<lparr>as_Subscribers :=
       AList.update (TrimSpace k) (sub\<lparr>sub_Cursor := c\<rparr>) (as_Subscribers s)\<rparr>) now"
    by (rule acknowledge_cases)
  have "acknowledge_stream s k c now = Inr t"
    using assms(2) by (auto simp: try_acknowledge_def split: sum.splits)
  have ok: "stream_ok s" using assms(1) by (simp add: log_repr_def)
  have "as_BacklogBaseCursor s \<le> c" using stream_ok_cursor [OF ok sub(1)] sub(2) by simp
  then have "log_repr L (s\<lparr>as_Subscribers :=
      AList.update (TrimSpace k) (sub\<lparr>sub_Cursor := c\<rparr>) (as_Subscribers s)\<rparr>)"
    using assms(1) sub(3) by (auto simp: log_repr_def stream_ok_def upper_bound_def set_update_iff)
  then show "log_repr L t" unfolding t by (rule log_repr_trim)
  show "TrimSpace j \<noteq> TrimSpace k \<Longrightarrow> cursor_of t j = cursor_of s j" "cursor_of t k = Some c"
    by (auto simp: t cursor_of_def map_of_update_gomap)
qed

interpretation feed: event_feed log_repr cursor_of read_stream accepts_event
  "\<lambda>p e s. publish_stream (fst p) e (snd p) s" "\<lambda>p. 1 \<le> fst p" "try_acknowledge now" "\<lambda>j k. TrimSpace j = TrimSpace k" for now
proof unfold_locales
  fix L s k c assume r: "log_repr L s" and c: "cursor_of s k = Some c"
  then obtain sub where sub: "map_of (as_Subscribers s) (TrimSpace k) = Some sub" "sub_Cursor sub = c"
    by (auto simp: cursor_of_def)
  have ok: "stream_ok s" using r by (simp add: log_repr_def)
  have b: "as_BacklogBaseCursor s \<le> c" "c \<le> int (length L)" "0 \<le> as_BacklogBaseCursor s"
    using stream_ok_cursor [OF ok sub(1)] sub(2) log_repr_upper_bound [OF r] ok by (auto simp: stream_ok_def)
  then show "0 \<le> c \<and> nat c \<le> length L \<and> read_stream s c = drop (nat c) L"
    by (simp add: read_stream_log [OF r] max_def)
next
  fix L s and p :: "int \<times> gtime" and e
  assume "log_repr L s" "1 \<le> fst p"
  then show "log_repr (if accepts_event e s then L @ [e] else L) (publish_stream (fst p) e (snd p) s)"
    by (rule log_repr_publish)
next
  fix L s k c d assume r: "log_repr L s" and c: "cursor_of s k = Some c" "c \<le> d" "nat d \<le> length L"
  then have "try_acknowledge now s k d \<noteq> None"
    by (auto simp: try_acknowledge_def acknowledge_stream_def cursor_of_def log_repr_upper_bound [OF r]
        split: option.splits)
  then show "\<exists>t. try_acknowledge now s k d = Some t \<and> log_repr L t \<and> cursor_of t k = Some d"
    using log_repr_acknowledge [OF r] by blast
next
  fix L s j d t k assume "log_repr L s" "try_acknowledge now s j d = Some t"
  then show "log_repr L t \<and> (TrimSpace j = TrimSpace k \<or> cursor_of t k = cursor_of s k)"
    using log_repr_acknowledge(1,2) [of L s now j d t] by metis
qed simp

subsection \<open>Runs of one stream\<close>

text \<open>
  Everything the broker does to a stream between opening and removing it, in any order: publishing,
  acknowledging, attaching and detaching subscribers, and the status and timer changes.
\<close>

datatype stream_op =
    DoPublish StreamEvent gtime
  | DoAck string int gtime
  | DoAttach string gtime
  | DoDetach string
  | DoStop
  | DoStatus StreamStatus

fun apply_stream_op :: "int \<Rightarrow> stream_op \<Rightarrow> ActiveStream \<Rightarrow> ActiveStream" where
  "apply_stream_op limit (DoPublish e now) s = publish_stream limit e now s"
| "apply_stream_op limit (DoAck k c now) s =
     (case acknowledge_stream s k c now of Inl _ \<Rightarrow> s | Inr t \<Rightarrow> t)"
| "apply_stream_op limit (DoAttach k now) s = attach_stream k now s"
| "apply_stream_op limit (DoDetach k) s = detach_stream k s"
| "apply_stream_op limit DoStop s = stopTerminalCleanupTimerLocked s"
| "apply_stream_op limit (DoStatus st) s = s\<lparr>as_Status := st\<rparr>"

fun run_stream :: "int \<Rightarrow> stream_op list \<Rightarrow> StreamEvent list \<times> ActiveStream \<Rightarrow> StreamEvent list \<times> ActiveStream" where
  "run_stream limit [] (L, s) = (L, s)"
| "run_stream limit (p # ps) (L, s) =
     run_stream limit ps
       (case p of DoPublish e now \<Rightarrow> if accepts_event e s then L @ [e] else L | _ \<Rightarrow> L,
        apply_stream_op limit p s)"

lemma log_repr_op:
  assumes "log_repr L s" "1 \<le> limit"
  shows "log_repr (case p of DoPublish e now \<Rightarrow> if accepts_event e s then L @ [e] else L | _ \<Rightarrow> L)
     (apply_stream_op limit p s)"
proof (cases p)
  case (DoPublish e now)
  with log_repr_publish [OF assms] show ?thesis by simp
next
  case (DoAck k c now)
  with assms log_repr_acknowledge(1) [OF assms(1), of now k c] show ?thesis
    by (auto simp: try_acknowledge_def split: sum.splits)
next
  case (DoAttach k now)
  have "stream_ok (attach_stream k now s)" using assms by (simp add: log_repr_def stream_ok_attach)
  with DoAttach assms show ?thesis
    by (simp add: log_repr_def attach_stream_def stopTerminalCleanupTimerLocked_def Let_def)
next
  case (DoDetach k)
  have "stream_ok (detach_stream k s)" using assms by (simp add: log_repr_def stream_ok_detach)
  with DoDetach assms show ?thesis by (simp add: log_repr_def detach_stream_def)
qed (use assms in \<open>auto simp: log_repr_def stream_ok_def upper_bound_def stopTerminalCleanupTimerLocked_def\<close>)

lemma log_repr_run: "log_repr L s \<Longrightarrow> 1 \<le> limit \<Longrightarrow> run_stream limit ps (L, s) = (L', s') \<Longrightarrow> log_repr L' s'"
proof (induction ps arbitrary: L s)
  case (Cons p ps)
  show ?case
    by (rule Cons.IH [OF log_repr_op [OF Cons.prems(1,2), of p] Cons.prems(2)])
      (use Cons.prems(3) in simp)
qed simp

lemma log_repr_fresh: "log_repr [] (fresh_stream r c n m mn mode u now)"
  using stream_ok_fresh by (simp add: log_repr_def) (simp add: fresh_stream_def)



text \<open>
  Without subscribers a publish leaves at most the configured number of events, the newest
  ones; with a subscriber it drops nothing.
\<close>

theorem publish_backlog_bound:
  assumes "1 \<le> limit" "accepts_event e s"
  shows "(as_Subscribers s = [] \<longrightarrow> int (length (as_Backlog (publish_stream limit e now s))) =
            min limit (int (length (as_Backlog s)) + 1)) \<and>
    (as_Subscribers s \<noteq> [] \<longrightarrow> as_Backlog (publish_stream limit e now s) = as_Backlog s @ [e]) \<and>
    last (as_Backlog (publish_stream limit e now s)) = e"
  using assms by (auto simp: publish_stream_def accepts_event_def Let_def)

theorem publish_backlog_bound_witness:
  "int (length (as_Backlog (publish_stream 1 (end_event ''c'' ''m'') 5
     (publish_stream 1 (end_event ''a'' ''b'') 4 (fresh_stream ''r'' [] 0 [] [] 1 [] 1))))) = 1"
  using publish_backlog_bound [of 1 "end_event ''c'' ''m''"
      "publish_stream 1 (end_event ''a'' ''b'') 4 (fresh_stream ''r'' [] 0 [] [] 1 [] 1)" 5]
  by (simp add: accepts_event_def end_event_def fresh_stream_def publish_stream_def)

subsection \<open>The broker invariant\<close>

definition timer_ok :: "ActiveStream \<Rightarrow> bool" where
  "timer_ok s \<longleftrightarrow> (case as_TerminalCleanupTimer s of None \<Rightarrow> True
     | Some q \<Rightarrow> q = as_TerminalCleanupSeq s \<and> isTerminalStreamStatus (as_Status s) \<and> as_Subscribers s = [])"

definition entry_ok :: "string \<Rightarrow> ActiveStream \<Rightarrow> bool" where
  "entry_ok k s \<longleftrightarrow> k \<noteq> [] \<and> TrimSpace k = k \<and> as_RequestID s = k \<and> stream_ok s \<and> timer_ok s"

definition broker_ok :: "StreamBroker \<Rightarrow> bool" where
  "broker_ok b \<longleftrightarrow> gomap_ok (br_streams b) \<and> 1 \<le> br_backlogLimit b \<and>
     (\<forall>(k, s) \<in> set (br_streams b). entry_ok k s)"

lemma trims_r [simp]: "TrimSpace ''r'' = ''r''"
  by code_simp

lemma broker_ok_new [go_inv]: "broker_ok (NewStreamBrokerWithBacklogLimit n)"
  by (simp add: broker_ok_def NewStreamBrokerWithBacklogLimit_def defaultStreamBacklogLimit_def)

lemma broker_ok_lookup:
  assumes "broker_ok b" "map_of (br_streams b) k = Some s"
  shows "entry_ok k s" "TrimSpace k = k" "k \<noteq> []"
  using assms by (auto simp: broker_ok_def entry_ok_def dest!: map_of_SomeD)

lemma broker_ok_Get:
  assumes "broker_ok b" "Get b r = Some s"
  shows "entry_ok (TrimSpace r) s"
  using broker_ok_lookup [OF assms(1)] assms(2) by (simp add: Get_def)

lemma broker_ok_put:
  assumes "broker_ok b" "entry_ok (TrimSpace r) s"
  shows "broker_ok (put_stream b r s)"
  using assms by (auto simp: broker_ok_def put_stream_def set_update_iff)

lemma broker_ok_remove: "broker_ok b \<Longrightarrow> broker_ok (b\<lparr>br_streams := AList.delete k (br_streams b)\<rparr>)"
  by (auto simp: broker_ok_def in_set_delete_iff)

lemma broker_ok_frame:
  "broker_ok (b\<lparr>br_nextID := n\<rparr>) = broker_ok b" "broker_ok (b\<lparr>br_canceledContexts := cs\<rparr>) = broker_ok b"
  by (simp_all add: broker_ok_def)

lemma Get_put [simp]:
  "Get (put_stream b r s) r' = (if TrimSpace r' = TrimSpace r then Some s else Get b r')"
  by (simp add: Get_def put_stream_def map_of_update_gomap)

lemma Get_frame [simp]:
  "Get (b\<lparr>br_nextID := n\<rparr>) r = Get b r" "Get (b\<lparr>br_canceledContexts := cs\<rparr>) r = Get b r"
  "Get (b\<lparr>br_streams := AList.delete k (br_streams b)\<rparr>) r = (if TrimSpace r = k then None else Get b r)"
  by (simp_all add: Get_def map_of_delete_gomap)

lemma Get_TrimSpace [simp]: "Get b (TrimSpace r) = Get b r"
  by (simp add: Get_def)

lemma put_stream_TrimSpace [simp]: "put_stream b (TrimSpace r) s = put_stream b r s"
  by (simp add: put_stream_def)

lemma put_stream_frame [simp]:
  "br_backlogLimit (put_stream b r s) = br_backlogLimit b" "br_nextID (put_stream b r s) = br_nextID b"
  "br_canceledContexts (put_stream b r s) = br_canceledContexts b"
  by (simp_all add: put_stream_def)

lemma entry_ok_fresh:
  "TrimSpace r = r \<Longrightarrow> r \<noteq> [] \<Longrightarrow> entry_ok r (fresh_stream r c n m mn mode u now)"
  using stream_ok_fresh by (simp add: entry_ok_def timer_ok_def) (simp add: fresh_stream_def)

lemma entry_ok_reopen: "entry_ok k s \<Longrightarrow> entry_ok k (reopen_stream c n m mn mode u now s)"
  using stream_ok_reopen [of s]
  by (auto simp: entry_ok_def timer_ok_def reopen_stream_def split: option.splits)

lemma entry_ok_stop: "entry_ok k s \<Longrightarrow> entry_ok k (stopTerminalCleanupTimerLocked s)"
  using stream_ok_stop [of s] by (auto simp: entry_ok_def timer_ok_def stopTerminalCleanupTimerLocked_def)

lemma entry_ok_attach: "entry_ok k s \<Longrightarrow> entry_ok k (attach_stream sid now s)"
  using stream_ok_attach [of s sid now]
  by (auto simp: entry_ok_def timer_ok_def attach_stream_def stopTerminalCleanupTimerLocked_def Let_def)

lemma entry_ok_detach: "entry_ok k s \<Longrightarrow> entry_ok k (detach_stream sid s)"
  using stream_ok_detach [of s sid]
  by (auto simp: entry_ok_def timer_ok_def detach_stream_def split: option.splits)

lemma publish_stream_frame [go_frame]:
  "as_RequestID (publish_stream l e now s) = as_RequestID s"
  "as_TerminalCleanupTimer (publish_stream l e now s) = as_TerminalCleanupTimer s"
  "as_TerminalCleanupSeq (publish_stream l e now s) = as_TerminalCleanupSeq s"
  "as_Status (publish_stream l e now s) = as_Status s"
  "(as_Subscribers (publish_stream l e now s) = []) = (as_Subscribers s = [])"
  by (auto simp: publish_stream_def Let_def)

lemma entry_ok_publish: "entry_ok k s \<Longrightarrow> 1 \<le> l \<Longrightarrow> entry_ok k (publish_stream l e now s)"
  using stream_ok_publish [of s l e now]
  by (auto simp: entry_ok_def timer_ok_def publish_stream_frame split: option.splits)

lemma trim_frame [go_frame]:
  "as_RequestID (trimAcknowledgedBacklogLocked s now) = as_RequestID s"
  "as_TerminalCleanupTimer (trimAcknowledgedBacklogLocked s now) = as_TerminalCleanupTimer s"
  "as_TerminalCleanupSeq (trimAcknowledgedBacklogLocked s now) = as_TerminalCleanupSeq s"
  "as_Status (trimAcknowledgedBacklogLocked s now) = as_Status s"
  by (auto simp: trimAcknowledgedBacklogLocked_def Let_def)

lemma entry_ok_acknowledge:
  "entry_ok k s \<Longrightarrow> acknowledge_stream s sid c now = Inr s' \<Longrightarrow> entry_ok k s'"
  using stream_ok_acknowledge [of s sid c now s']
  by (auto simp: entry_ok_def timer_ok_def acknowledge_stream_def go_frame split: option.splits if_splits)

lemma entry_ok_schedule: "entry_ok k s \<Longrightarrow> entry_ok k (snd (schedule_stream now s))"
  using entry_ok_stop [of k s]
  by (simp add: schedule_stream_def Let_def)
    (auto simp: entry_ok_def timer_ok_def stream_ok_def upper_bound_def)

lemma entry_ok_status:
  "entry_ok k s \<Longrightarrow> entry_ok k ((stopTerminalCleanupTimerLocked s)\<lparr>as_Status := st, as_UpdatedAt := now\<rparr>)"
  "entry_ok k s \<Longrightarrow> entry_ok k ((stopTerminalCleanupTimerLocked s)
     \<lparr>as_ProviderCancel := pc, as_ProviderActive := pa, as_Status := st, as_UpdatedAt := now\<rparr>)"
  by (auto simp: entry_ok_def timer_ok_def stopTerminalCleanupTimerLocked_def stream_ok_def upper_bound_def)

lemma broker_ok_put_Get:
  assumes "broker_ok b" "Get b r = Some s" "\<And>k. entry_ok k s \<Longrightarrow> entry_ok k t"
  shows "broker_ok (put_stream b r t)"
  using broker_ok_put [OF assms(1) assms(3) [OF broker_ok_Get [OF assms(1,2)]]] .

lemmas entry_ok_ops = entry_ok_stop entry_ok_attach entry_ok_detach entry_ok_publish
  entry_ok_schedule entry_ok_status

lemma broker_ok_OpenStream [go_inv]:
  assumes "broker_ok b" "OpenStream b r c n m mn mode u now = Inr (os, b')"
  shows "broker_ok b'"
proof (cases "TrimSpace r = []")
  case False
  from assms(2) False obtain md where b': "b' = put_stream b r (case map_of (br_streams b) (TrimSpace r) of
      Some existing \<Rightarrow> reopen_stream c n m mn md u now existing
    | None \<Rightarrow> fresh_stream (TrimSpace r) c n m mn md u now)"
    by (auto simp: OpenStream_def Let_def split: sum.splits)
  show ?thesis unfolding b'
    using assms(1) False broker_ok_lookup(1) [OF assms(1), of "TrimSpace r"]
    by (intro broker_ok_put) (auto split: option.split intro!: entry_ok_fresh entry_ok_reopen)
qed (use assms in \<open>auto simp: OpenStream_def\<close>)

lemma OpenStream_result:
  "OpenStream b r c n m mn mode u now = Inr (Some s, b') \<Longrightarrow> Get b' r = Some s"
  by (auto simp: OpenStream_def Let_def split: sum.splits if_splits)

lemma broker_ok_Subscribe [go_inv]:
  assumes "broker_ok b" "Subscribe b r now = Inr (sid, b')"
  shows "broker_ok b'"
proof -
  from assms(2) obtain s b1 where s: "Get b1 r = Some s" and b1: "broker_ok b1"
    and b': "b' = b1\<lparr>br_nextID := br_nextID b1 + 1\<rparr> \<or>
      b' = put_stream (b1\<lparr>br_nextID := br_nextID b1 + 1\<rparr>) r
        (attach_stream (''sub-'' @ show_nat (unat (br_nextID b1 + 1))) now s)"
    using OpenStream_result [of b "TrimSpace r" "[]" 0 "[]" "[]" 1 "[]" now]
      broker_ok_OpenStream [OF assms(1), of "TrimSpace r" "[]" 0 "[]" "[]" 1 "[]" now]
    by (auto simp: Subscribe_def Let_def assms(1) split: if_splits option.splits sum.splits prod.splits)
  show ?thesis using b' broker_ok_Get [OF b1 s] b1
    by (auto simp: broker_ok_frame intro!: broker_ok_put entry_ok_ops)
qed

lemma broker_ok_schedule [go_inv]: "broker_ok b \<Longrightarrow> broker_ok (snd (scheduleTerminalCleanup b r now))"
  by (auto simp: scheduleTerminalCleanup_def split_beta split: option.splits
      intro: broker_ok_put_Get [OF _ _ entry_ok_schedule])

lemma broker_ok_Publish [go_inv]:
  assumes "broker_ok b" "Publish b r e now = Inr b'"
  shows "broker_ok b'"
proof -
  have "1 \<le> br_backlogLimit b" using assms(1) by (simp add: broker_ok_def)
  with assms show ?thesis
    by (auto simp: Publish_def split: option.splits intro: broker_ok_put_Get [OF _ _ entry_ok_publish])
qed

lemma broker_ok_publish_end [go_inv]:
  "broker_ok b \<Longrightarrow> publish_end b r e n now = Inr b' \<Longrightarrow> broker_ok b'"
  using broker_ok_Publish [of b r e now] broker_ok_schedule
  by (auto simp: publish_end_def split: sum.splits if_splits)

lemma broker_ok_Unsubscribe [go_inv]: "broker_ok b \<Longrightarrow> broker_ok (snd (Unsubscribe b r k))"
  by (auto simp: Unsubscribe_def Let_def split: option.splits intro: broker_ok_put_Get [OF _ _ entry_ok_detach])

lemma broker_ok_Acknowledge [go_inv]:
  assumes "broker_ok b" "AcknowledgeCursor b r k c now = Inr b'"
  shows "broker_ok b'"
proof -
  from assms(2) obtain s t where "Get b r = Some s" "acknowledge_stream s k c now = Inr t" "b' = put_stream b r t"
    by (cases "Get b r"; cases "acknowledge_stream (the (Get b r)) k c now") (auto simp: AcknowledgeCursor_def)
  with assms(1) show ?thesis using broker_ok_put_Get entry_ok_acknowledge by blast
qed

lemma broker_ok_RemoveIfIdle [go_inv]:
  assumes "broker_ok b"
  shows "broker_ok (snd (RemoveIfIdle b r))"
proof (cases "Get b r")
  case (Some s)
  then have "entry_ok (TrimSpace r) s" by (rule broker_ok_Get [OF assms])
  then have "broker_ok (put_stream b r (stopTerminalCleanupTimerLocked s))" "broker_ok (put_stream b r s)"
    using assms broker_ok_put entry_ok_stop by blast+
  then show ?thesis using Some assms by (auto simp: RemoveIfIdle_def Get_def Let_def broker_ok_remove)
qed (use assms in \<open>auto simp: RemoveIfIdle_def Get_def Let_def\<close>)

lemma broker_ok_cleanup [go_inv]: "broker_ok b \<Longrightarrow> broker_ok (runScheduledTerminalCleanup b r q)"
proof (cases "Get b r")
  case (Some s)
  assume ok: "broker_ok b"
  have "entry_ok (TrimSpace r) (s\<lparr>as_TerminalCleanupTimer := None\<rparr>)"
    using broker_ok_Get [OF ok Some] by (simp add: entry_ok_def timer_ok_def stream_ok_def upper_bound_def)
  then have "broker_ok (put_stream b r (s\<lparr>as_TerminalCleanupTimer := None\<rparr>))" by (rule broker_ok_put [OF ok])
  then show ?thesis using ok Some by (auto simp: runScheduledTerminalCleanup_def Let_def broker_ok_RemoveIfIdle)
qed (simp add: runScheduledTerminalCleanup_def)

lemma broker_ok_terminal [go_inv]:
  assumes "broker_ok b"
  shows "Complete b r code msg now = Inr b' \<Longrightarrow> broker_ok b'"
    and "Fail b r code msg now = Inr b' \<Longrightarrow> broker_ok b'"
    and "Cancel b r msg now = Inr b' \<Longrightarrow> broker_ok b'"
proof -
  have put: "broker_ok (put_stream (b\<lparr>br_canceledContexts := cs\<rparr>) r t)"
    if "Get b r = Some s" "\<And>k. entry_ok k s \<Longrightarrow> entry_ok k t" for s t cs
    by (rule broker_ok_put_Get [of _ _ s]) (use that assms in \<open>simp_all add: broker_ok_frame\<close>)
  have put1: "broker_ok (put_stream b r t)"
    if "Get b r = Some s" "\<And>k. entry_ok k s \<Longrightarrow> entry_ok k t" for s t
    using broker_ok_put_Get [OF assms that] .
  show "Complete b r code msg now = Inr b' \<Longrightarrow> broker_ok b'" "Fail b r code msg now = Inr b' \<Longrightarrow> broker_ok b'"
    using assms
    by (auto simp: Complete_def Fail_def Let_def split: option.splits if_splits
        dest!: broker_ok_publish_end [OF put1, rotated 2] intro: entry_ok_status)
  show "Cancel b r msg now = Inr b' \<Longrightarrow> broker_ok b'"
    using assms
    by (auto simp: Cancel_def Let_def split: option.splits if_splits
        dest!: broker_ok_publish_end [OF put, rotated 2] broker_ok_publish_end [OF put1, rotated 2]
        intro: entry_ok_status)
qed

lemmas broker_ok_fallible = broker_ok_OpenStream broker_ok_Subscribe broker_ok_Acknowledge
  broker_ok_Publish broker_ok_terminal

lemmas broker_ok_total = broker_ok_Unsubscribe broker_ok_schedule broker_ok_cleanup broker_ok_RemoveIfIdle

subsection \<open>Runs of the broker\<close>

inductive broker_start :: "StreamBroker \<Rightarrow> bool" where
  start: "broker_start (NewStreamBrokerWithBacklogLimit n)"

inductive broker_step :: "StreamBroker \<Rightarrow> StreamBroker \<Rightarrow> bool" where
  step_open: "OpenStream b r c n m mn mode u now = Inr (os, b') \<Longrightarrow> broker_step b b'"
| step_subscribe: "Subscribe b r now = Inr (sid, b') \<Longrightarrow> broker_step b b'"
| step_unsubscribe: "broker_step b (snd (Unsubscribe b r sid))"
| step_acknowledge: "AcknowledgeCursor b r sid c now = Inr b' \<Longrightarrow> broker_step b b'"
| step_publish: "Publish b r e now = Inr b' \<Longrightarrow> broker_step b b'"
| step_complete: "Complete b r code msg now = Inr b' \<Longrightarrow> broker_step b b'"
| step_fail: "Fail b r code msg now = Inr b' \<Longrightarrow> broker_step b b'"
| step_cancel: "Cancel b r msg now = Inr b' \<Longrightarrow> broker_step b b'"
| step_schedule: "broker_step b (snd (scheduleTerminalCleanup b r now))"
| step_cleanup: "broker_step b (runScheduledTerminalCleanup b r q)"
| step_remove: "broker_step b (snd (RemoveIfIdle b r))"

interpretation br: invariant_of broker_start broker_step broker_ok
proof unfold_locales
  fix b assume "broker_start b"
  then show "broker_ok b" by cases (simp add: broker_ok_new)
next
  fix b b' assume "broker_ok b" "broker_step b b'"
  from this(2,1) show "broker_ok b'"
    by cases (erule (1) broker_ok_fallible | simp add: broker_ok_total)+
qed

lemma broker_run_demo:
  "reach broker_start broker_step (put_stream (NewStreamBrokerWithBacklogLimit 2) ''r''
     (fresh_stream ''r'' ''c'' 1 ''m'' ''n'' 1 ''u'' 7))"
proof -
  have "OpenStream (NewStreamBrokerWithBacklogLimit 2) ''r'' ''c'' 1 ''m'' ''n'' 1 ''u'' 7 =
     Inr (Some (fresh_stream ''r'' ''c'' 1 ''m'' ''n'' 1 ''u'' 7),
       put_stream (NewStreamBrokerWithBacklogLimit 2) ''r'' (fresh_stream ''r'' ''c'' 1 ''m'' ''n'' 1 ''u'' 7))"
    by (simp add: OpenStream_def trims_r NewStreamBrokerWithBacklogLimit_def validateSupportedActiveMode_def
        isSupportedActiveMode_def normalizeMode_def put_stream_def Let_def)
  then show ?thesis by (blast intro: reach_start reach_step broker_start.intros step_open)
qed

text \<open>
  C9. In every state the broker can reach, each stream is registered under its own trimmed,
  non-empty request id, every subscriber's cursor lies between the backlog's base and its end, and
  an armed cleanup timer carries the current sequence number and belongs to a terminal stream
  without subscribers.
\<close>

theorem broker_reachable_ok:
  assumes "reach broker_start broker_step b" "Get b r = Some s"
  shows "TrimSpace r \<noteq> [] \<and> as_RequestID s = TrimSpace r \<and>
    (\<forall>k sub. map_of (as_Subscribers s) k = Some sub \<longrightarrow>
       0 \<le> as_BacklogBaseCursor s \<and> as_BacklogBaseCursor s \<le> sub_Cursor sub \<and>
       sub_Cursor sub \<le> as_BacklogBaseCursor s + int (length (as_Backlog s))) \<and>
    (\<forall>q. as_TerminalCleanupTimer s = Some q \<longrightarrow> q = as_TerminalCleanupSeq s \<and>
       isTerminalStreamStatus (as_Status s) \<and> as_Subscribers s = [])"
proof -
  have ok: "entry_ok (TrimSpace r) s" using broker_ok_Get [OF br.inv_reach [OF assms(1)] assms(2)] .
  then have "\<forall>k sub. map_of (as_Subscribers s) k = Some sub \<longrightarrow>
      as_BacklogBaseCursor s \<le> sub_Cursor sub \<and> sub_Cursor sub \<le> upper_bound s"
    using stream_ok_cursor by (auto simp: entry_ok_def)
  with ok show ?thesis by (auto simp: entry_ok_def timer_ok_def upper_bound_def stream_ok_def)
qed

theorem broker_reachable_ok_witness:
  "as_RequestID (fresh_stream ''r'' ''c'' 1 ''m'' ''n'' 1 ''u'' 7) = TrimSpace ''r''"
  using broker_reachable_ok [OF broker_run_demo, of "''r''" "fresh_stream ''r'' ''c'' 1 ''m'' ''n'' 1 ''u'' 7"]
  by simp

text \<open>
  What ending a stream does to the registered stream: the status changes, the timer is stopped,
  the end event is appended and, when nobody is subscribed, the removal is scheduled.
\<close>

definition ended_stream :: "int \<Rightarrow> StreamEvent \<Rightarrow> gtime \<Rightarrow> nat \<Rightarrow> ActiveStream \<Rightarrow> ActiveStream" where
  "ended_stream limit e now n s =
     (let t = publish_stream limit e now s in if n = 0 then snd (schedule_stream now t) else t)"

lemma publish_end_Get:
  "publish_end (put_stream b r s) r e n now = Inr b' \<Longrightarrow>
     Get b' r = Some (ended_stream (br_backlogLimit b) e now n s) \<and>
     (TrimSpace r' \<noteq> TrimSpace r \<longrightarrow> Get b' r' = Get b r')"
  by (auto simp: publish_end_def Publish_def scheduleTerminalCleanup_def ended_stream_def split_beta Let_def
      split: if_splits)

lemma publish_end_total: "\<exists>b'. publish_end (put_stream b r s) r e n now = Inr b'"
  by (simp add: publish_end_def Publish_def)

lemma schedule_stream_frame [go_frame]:
  "as_Status (snd (schedule_stream now s)) = as_Status s"
  "as_Backlog (snd (schedule_stream now s)) = as_Backlog s"
  "as_Subscribers (snd (schedule_stream now s)) = as_Subscribers s"
  by (simp_all add: schedule_stream_def stopTerminalCleanupTimerLocked_def Let_def)

lemma ended_stream_props:
  assumes "ev_End e" "1 \<le> limit"
  shows "as_Status (ended_stream limit e now n s) = as_Status s"
    "as_Backlog (ended_stream limit e now n s) \<noteq> [] \<and> last (as_Backlog (ended_stream limit e now n s)) = e"
    "as_Subscribers s = [] \<and> n = 0 \<and> isTerminalStreamStatus (as_Status s) \<Longrightarrow>
       as_TerminalCleanupTimer (ended_stream limit e now n s) \<noteq> None"
proof -
  show "as_Status (ended_stream limit e now n s) = as_Status s"
    by (simp add: ended_stream_def Let_def go_frame)
  have "as_Backlog (publish_stream limit e now s) \<noteq> [] \<and> last (as_Backlog (publish_stream limit e now s)) = e"
    using assms by (auto simp: publish_stream_def Let_def)
  then show "as_Backlog (ended_stream limit e now n s) \<noteq> [] \<and> last (as_Backlog (ended_stream limit e now n s)) = e"
    by (simp add: ended_stream_def Let_def go_frame)
  show "as_TerminalCleanupTimer (ended_stream limit e now n s) \<noteq> None"
    if "as_Subscribers s = [] \<and> n = 0 \<and> isTerminalStreamStatus (as_Status s)"
    using that by (auto simp: ended_stream_def Let_def schedule_stream_def go_frame isTerminalStreamStatus_iff)
qed

text \<open>
  C10. Ending a stream is final and happens once: \<open>Complete\<close>, \<open>Fail\<close> and \<open>Cancel\<close> of an ended
  stream change nothing, whichever of them ended it, and the stream then refuses every event but an
  end event; of a stream still running, each of them succeeds, sets its own status, leaves its end
  event as the newest one, schedules the removal when nobody is subscribed, and leaves every other
  stream alone.
\<close>

theorem terminal_transition:
  assumes "broker_ok b" "Get b r = Some s"
    and "op = Complete b r code msg now \<and> st = StreamStatusCompleted \<or>
         op = Fail b r code msg now \<and> st = StreamStatusFailed \<or>
         op = Cancel b r msg now \<and> st = StreamStatusCanceled"
  shows "if isTerminalStreamStatus (as_Status s)
    then op = Inr b \<and> (\<not> ev_End e \<longrightarrow> map_sum id (\<lambda>b'. Get b' r) (Publish b r e now) = Inr (Some s))
    else \<exists>b' t. op = Inr b' \<and> Get b' r = Some t \<and> as_Status t = st \<and>
           as_Backlog t \<noteq> [] \<and> ev_End (last (as_Backlog t)) \<and>
           (as_Subscribers s = [] \<longrightarrow> as_TerminalCleanupTimer t \<noteq> None) \<and>
           (\<forall>r'. TrimSpace r' \<noteq> TrimSpace r \<longrightarrow> Get b' r' = Get b r')"
proof (cases "isTerminalStreamStatus (as_Status s)")
  case True
  with assms show ?thesis
    by (auto simp: Complete_def Fail_def Cancel_def isTerminalStreamStatus_iff Publish_def publish_stream_def)
next
  case False
  have lim: "1 \<le> br_backlogLimit b" using assms(1) by (simp add: broker_ok_def)
  from assms(2,3) False obtain b0 s1 e1 where b0: "op = publish_end (put_stream b0 r s1) r e1 (length (as_Subscribers s)) now"
    and g: "\<And>r'. Get b0 r' = Get b r'" "br_backlogLimit b0 = br_backlogLimit b"
    and e1: "ev_End e1" and s1: "as_Status s1 = st" "as_Subscribers s1 = as_Subscribers s"
    and st: "isTerminalStreamStatus st"
    by (auto simp: Complete_def Fail_def Cancel_def Let_def isTerminalStreamStatus_iff end_event_def
        stopTerminalCleanupTimerLocked_def Get_def split: option.splits)
  obtain b' where b': "op = Inr b'" using publish_end_total b0 by metis
  note G = publish_end_Get [OF b0 [symmetric, unfolded b']]
  show ?thesis
    using False b' G g s1 st ended_stream_props [OF e1, where limit = "br_backlogLimit b0" and now = now and n = "length (as_Subscribers s)" and s = s1]
      lim e1
    by auto
qed

theorem terminal_transition_witness:
  "\<exists>b' t. Cancel (put_stream (NewStreamBrokerWithBacklogLimit 2) ''r''
       (fresh_stream ''r'' ''c'' 1 ''m'' ''n'' 1 ''u'' 7)) ''r'' ''stop'' 9 = Inr b' \<and>
     Get b' ''r'' = Some t \<and> as_Status t = StreamStatusCanceled \<and> as_TerminalCleanupTimer t \<noteq> None"
  using terminal_transition [OF br.inv_reach [OF broker_run_demo], of "''r''"
      "fresh_stream ''r'' ''c'' 1 ''m'' ''n'' 1 ''u'' 7"
      "Cancel (put_stream (NewStreamBrokerWithBacklogLimit 2) ''r''
         (fresh_stream ''r'' ''c'' 1 ''m'' ''n'' 1 ''u'' 7)) ''r'' ''stop'' 9"
      "[]" "''stop''" 9 StreamStatusCanceled]
  by (auto simp: fresh_stream_def)

subsection \<open>Removal of idle streams\<close>

lemma RemoveIfIdle_Get:
  "Get (snd (RemoveIfIdle b r)) r' =
     (if TrimSpace r' = TrimSpace r \<and> fst (RemoveIfIdle b r) then None
      else if TrimSpace r' = TrimSpace r \<and> TrimSpace r \<noteq> [] then
        map_option (\<lambda>s. if isTerminalStreamStatus (as_Status s) then stopTerminalCleanupTimerLocked s else s) (Get b r)
      else Get b r')"
  by (auto simp: RemoveIfIdle_def Let_def Get_def put_stream_def map_of_update_gomap map_of_delete_gomap
      isTerminalStreamStatus_iff split: option.splits if_splits)

lemma RemoveIfIdle_iff:
  "fst (RemoveIfIdle b r) \<longleftrightarrow> TrimSpace r \<noteq> [] \<and> (\<exists>s. Get b r = Some s \<and> as_Subscribers s = [] \<and>
     (isTerminalStreamStatus (as_Status s) \<or>
      \<not> as_ProviderActive s \<and> as_Backlog s = [] \<and> TrimSpace (as_ConversationID s) = []))"
  by (auto simp: RemoveIfIdle_def Let_def Get_def isTerminalStreamStatus_iff split: option.splits if_splits)

text \<open>
  The delayed cleanup removes nothing but an ended stream nobody reads: when the callback that
  carries sequence number \<open>q\<close> runs, the stream of the request disappears exactly when it is ended,
  has no subscriber and \<open>q\<close> is still its current sequence number; every other stream stays as it is.
\<close>

theorem cleanup_removes_only_idle:
  assumes "broker_ok b"
  shows "Get (runScheduledTerminalCleanup b r q) r' =
    (if TrimSpace r' \<noteq> TrimSpace r then Get b r'
     else case Get b r of None \<Rightarrow> None
       | Some s \<Rightarrow> if as_TerminalCleanupSeq s \<noteq> q then Some s
                  else if isTerminalStreamStatus (as_Status s) \<and> as_Subscribers s = [] then None
                  else Some (s\<lparr>as_TerminalCleanupTimer := None\<rparr>))"
proof (cases "Get b r")
  case (Some s)
  then have "TrimSpace r \<noteq> []" using broker_ok_Get [OF assms] by (auto simp: entry_ok_def)
  moreover have "Get b r' = Some s" if "TrimSpace r' = TrimSpace r" using Some that by (simp add: Get_def)
  ultimately show ?thesis using Some
    by (auto simp: runScheduledTerminalCleanup_def Let_def RemoveIfIdle_Get RemoveIfIdle_iff isTerminalStreamStatus_iff)
next
  case None
  then have "Get b r' = None" if "TrimSpace r' = TrimSpace r" using that by (simp add: Get_def)
  with None show ?thesis by (simp add: runScheduledTerminalCleanup_def)
qed

theorem cleanup_removes_only_idle_witness:
  "Get (runScheduledTerminalCleanup (put_stream (NewStreamBrokerWithBacklogLimit 2) ''r''
      (fresh_stream ''r'' ''c'' 1 ''m'' ''n'' 1 ''u'' 7)) ''r'' 0) ''r'' =
   Some (fresh_stream ''r'' ''c'' 1 ''m'' ''n'' 1 ''u'' 7)"
  using cleanup_removes_only_idle [OF br.inv_reach [OF broker_run_demo], of "''r''" 0 "''r''"]
  by (simp add: fresh_stream_def)

text \<open>
  A subscriber makes every cleanup scheduled before it harmless: once a subscriber is attached
  to a live stream, a callback carrying the sequence number the stream had before leaves the stream
  registered, unchanged, with the subscriber attached at the oldest retained event.
\<close>

theorem subscribe_disarms_cleanup:
  assumes "Subscribe b r now = Inr (sid, b')" "Get b r = Some s" "\<not> isTerminalStreamStatus (as_Status s)"
  shows "\<exists>t. Get b' r = Some t \<and> Get (runScheduledTerminalCleanup b' r (as_TerminalCleanupSeq s)) r = Some t \<and>
    map_of (as_Subscribers t) sid = Some \<lparr>sub_Signal = False, sub_Cursor = as_BacklogBaseCursor s\<rparr>"
proof -
  from assms have "Get b' r = Some (attach_stream sid now s)"
    by (auto simp: Subscribe_def Let_def split: if_splits)
  then show ?thesis
    by (simp add: runScheduledTerminalCleanup_def attach_stream_def stopTerminalCleanupTimerLocked_def Let_def
        map_of_update_gomap)
qed

theorem subscribe_disarms_cleanup_witness:
  "\<exists>sid b' t. Subscribe (put_stream (NewStreamBrokerWithBacklogLimit 2) ''r''
      (fresh_stream ''r'' ''c'' 1 ''m'' ''n'' 1 ''u'' 7)) ''r'' 9 = Inr (sid, b') \<and>
    Get (runScheduledTerminalCleanup b' ''r'' 0) ''r'' = Some t"
proof -
  let ?s = "fresh_stream ''r'' ''c'' 1 ''m'' ''n'' 1 ''u'' 7"
  have "\<exists>sid b'. Subscribe (put_stream (NewStreamBrokerWithBacklogLimit 2) ''r'' ?s) ''r'' 9 = Inr (sid, b')"
    by (simp add: Subscribe_def Let_def)
  then obtain sid b' where s: "Subscribe (put_stream (NewStreamBrokerWithBacklogLimit 2) ''r'' ?s) ''r'' 9 = Inr (sid, b')"
    by blast
  have "as_TerminalCleanupSeq ?s = 0" by (simp add: fresh_stream_def)
  then show ?thesis using subscribe_disarms_cleanup [OF s, of ?s] s by (auto simp: fresh_stream_def)
qed

subsection \<open>Finding streams\<close>

abbreviation candidate :: "ActiveStream \<Rightarrow> bool" where
  "candidate s \<equiv> TrimSpace (as_ConversationID s) \<noteq> [] \<and> is_live s"

lemma single_active_filter:
  "single_active (Some a) ss = (if filter candidate ss = [] then Some a else None)"
  "single_active None ss = (case filter candidate ss of [x] \<Rightarrow> Some x | _ \<Rightarrow> None)"
proof -
  have one: "single_active (Some a) ss = (if filter candidate ss = [] then Some a else None)" for a ss
    by (induction ss) auto
  then show "single_active (Some a) ss = (if filter candidate ss = [] then Some a else None)" .
  show "single_active None ss = (case filter candidate ss of [x] \<Rightarrow> Some x | _ \<Rightarrow> None)"
    by (induction ss) (auto simp: one split: list.splits)
qed

text \<open>
  The fallback routing picks a stream only when it is the only one: the result is \<open>s\<close> exactly
  when \<open>s\<close> is the one live stream with a conversation, whatever order the map is walked in.
\<close>

theorem single_active_stream_unique:
  assumes "broker_ok b"
  shows "SingleActiveStream b = Some s \<longleftrightarrow>
    (\<exists>r. Get b r = Some s \<and> candidate s \<and> (\<forall>r' s'. Get b r' = Some s' \<and> candidate s' \<longrightarrow> TrimSpace r' = TrimSpace r))"
    (is "_ = (\<exists>r. ?only r)")
proof -
  have dist: "gomap_ok (br_streams b)" and key: "\<And>k t. (k, t) \<in> set (br_streams b) \<Longrightarrow> TrimSpace k = k"
    using assms by (auto simp: broker_ok_def entry_ok_def)
  have mem: "Get b r = Some t \<longleftrightarrow> (TrimSpace r, t) \<in> set (br_streams b)" for r t
    by (simp add: Get_def dist)
  let ?c = "filter (\<lambda>p. candidate (snd p)) (br_streams b)"
  have "SingleActiveStream b = Some s \<longleftrightarrow> (\<exists>k. ?c = [(k, s)])"
    unfolding SingleActiveStream_def single_active_filter(2) filter_map
    by (auto simp: comp_def split: list.splits)
  also have "\<dots> \<longleftrightarrow> (\<exists>r. ?only r)"
  proof
    assume "\<exists>k. ?c = [(k, s)]"
    then obtain k where k: "?c = [(k, s)]" by blast
    then have "set ?c = {(k, s)}" by simp
    then have S: "(x, t) \<in> set (br_streams b) \<and> candidate t \<longleftrightarrow> x = k \<and> t = s" for x t
      by (auto simp: set_eq_iff)
    with key have "TrimSpace k = k" by blast
    with S have "?only k" by (auto simp: mem)
    then show "\<exists>r. ?only r" by blast
  next
    assume "\<exists>r. ?only r"
    then obtain r where r: "Get b r = Some s" "candidate s"
      and only: "\<And>r' s'. Get b r' = Some s' \<Longrightarrow> candidate s' \<Longrightarrow> TrimSpace r' = TrimSpace r" by blast
    have "set ?c = {(TrimSpace r, s)}"
    proof (rule set_eqI, rule iffI)
      fix p assume p: "p \<in> set ?c"
      obtain x t where pt: "p = (x, t)" by (cases p)
      from p pt have a: "(x, t) \<in> set (br_streams b)" "candidate t" by simp_all
      have x: "TrimSpace x = x" using key [OF a(1)] .
      then have "Get b x = Some t" using a(1) by (simp only: mem)
      then have eq: "x = TrimSpace r" using only [OF _ a(2)] x by metis
      then have "Get b r = Some t" using a(1) by (simp only: mem)
      with r(1) eq pt show "p \<in> {(TrimSpace r, s)}" by simp
    next
      fix p assume "p \<in> {(TrimSpace r, s)}"
      then show "p \<in> set ?c" using r by (simp add: mem)
    qed
    have "distinct ?c" using dist by (simp add: distinct_map distinct_filter)
    then have "length ?c = card (set ?c)" by (rule distinct_card [symmetric])
    also have "\<dots> = 1" by (simp only: \<open>set ?c = _\<close>) simp
    finally have "length ?c = 1" .
    with \<open>set ?c = _\<close> show "\<exists>k. ?c = [(k, s)]" by (cases ?c) auto
  qed
  finally show ?thesis .
qed

theorem single_active_stream_unique_witness:
  "SingleActiveStream (put_stream (NewStreamBrokerWithBacklogLimit 2) ''r''
     (fresh_stream ''r'' ''c'' 1 ''m'' ''n'' 1 ''u'' 7)) = Some (fresh_stream ''r'' ''c'' 1 ''m'' ''n'' 1 ''u'' 7)"
proof -
  have c: "TrimSpace ''c'' = ''c''" by code_simp
  show ?thesis
    by (subst single_active_stream_unique [OF br.inv_reach [OF broker_run_demo]])
      (auto simp: c is_live_def fresh_stream_def put_stream_def NewStreamBrokerWithBacklogLimit_def Get_def
        intro!: exI [of _ "''r''"] split: if_splits)
qed

end
