(* ===== verification/Turn_State.thy ===== *)
theory Turn_State
  imports Stream_Broker
begin

text \<open>
  The state one stream actor works on and the small operations its handlers share (\<open>actor.go\<close> and the
  end of a turn in \<open>service.go\<close>): the stream in the broker, the checkpoint bookkeeping of
  \<open>checkpoint_blobs.go\<close>, and the timers it has started. All handlers of a stream run one after the other
  on its actor, so a handler is a function from state to state.
\<close>

subsection \<open>State\<close>

datatype streamTimerKind =
    streamTimerProviderResume | streamTimerNonStreamingRecovery | streamTimerShellForeground
  | streamTimerShellDispatch | streamTimerShellTransportClose | streamTimerCheckpointBlobs | streamTimerOrphanCancel

fun timerKindText :: "streamTimerKind \<Rightarrow> string" where
  "timerKindText streamTimerProviderResume = ''provider_resume''"
| "timerKindText streamTimerNonStreamingRecovery = ''non_streaming_recovery''"
| "timerKindText streamTimerShellForeground = ''shell_foreground''"
| "timerKindText streamTimerShellDispatch = ''shell_dispatch''"
| "timerKindText streamTimerShellTransportClose = ''shell_transport_close''"
| "timerKindText streamTimerCheckpointBlobs = ''checkpoint_blobs''"
| "timerKindText streamTimerOrphanCancel = ''orphan_cancel''"

record streamTimerEvent =
  te_Key :: string
  te_Kind :: streamTimerKind
  te_Token :: u64
  te_ExecID :: string
  te_MessageID :: u32
  te_Reason :: string

record CheckpointBlob =
  cb_ID :: string
  cb_Data :: string

record pendingCheckpointBlobWrite =
  pw_Key :: string
  pw_Generation :: u64
  pw_Dispatched :: gtime

datatype checkpointTerminalAction =
    checkpointTerminalActionNone
  | checkpointTerminalActionComplete pendingTurnCompletion
  | checkpointTerminalActionFail string string

record pendingCheckpointPublish =
  pp_Generation :: u64
  pp_QueuedAt :: gtime
  pp_TotalBlobBytes :: int
  pp_NewBlobCount :: int
  pp_State :: conversation_state
  pp_Required :: "string list"
  pp_Terminal :: checkpointTerminalAction

text \<open>
  The checkpoint fields of \<open>ActiveStream\<close>. The last three are history variables that no operation
  reads: the blob writes sent to the client, the writes it confirmed, and the checkpoints sent.
\<close>

record checkpoint_fields =
  ck_PendingCheckpointBlobWrites :: "(u32, pendingCheckpointBlobWrite) gomap"
  ck_ConfirmedCheckpointBlobs :: "string list"
  ck_NextCheckpointBlobRequestID :: u32
  ck_CheckpointGeneration :: u64
  ck_PendingCheckpoint :: "pendingCheckpointPublish option"
  ck_dispatched :: "(u32 \<times> string) list"
  ck_acked :: "u32 list"
  ck_sent :: "pendingCheckpointPublish list"

definition no_checkpoint :: checkpoint_fields where
  "no_checkpoint = \<lparr>ck_PendingCheckpointBlobWrites = [], ck_ConfirmedCheckpointBlobs = [],
     ck_NextCheckpointBlobRequestID = 0, ck_CheckpointGeneration = 0, ck_PendingCheckpoint = None,
     ck_dispatched = [], ck_acked = [], ck_sent = []\<rparr>"

text \<open>
  A turn: the broker, the request whose actor runs (the \<open>RequestID\<close> of its stream, under which the
  broker has registered it), its checkpoint fields, and the timers that are running. Each timer posts its event once, at some later moment. A stream that was removed from the
  broker (it was terminal or an unused placeholder) has no state any more.
\<close>

record turn =
  tn_broker :: StreamBroker
  tn_RequestID :: string
  tn_checkpoint :: checkpoint_fields
  tn_timers :: "streamTimerEvent list"

definition stream_of :: "turn \<Rightarrow> ActiveStream option" where
  "stream_of t = Get (tn_broker t) (tn_RequestID t)"

definition upd :: "(ActiveStream \<Rightarrow> ActiveStream) \<Rightarrow> turn \<Rightarrow> turn" where
  "upd f t =
     (case stream_of t of
        None \<Rightarrow> t
      | Some s \<Rightarrow> t\<lparr>tn_broker := put_stream (tn_broker t) (tn_RequestID t) (f s)\<rparr>)"

definition publish_to :: "turn \<Rightarrow> string \<Rightarrow> server_message \<Rightarrow> gtime \<Rightarrow> turn \<times> fwd_error option" where
  "publish_to t requestID m now =
     (case Publish (tn_broker t) requestID
             \<lparr>ev_Message = Some m, ev_End = False, ev_TerminalErrorCode = [], ev_TerminalErrorMessage = []\<rparr> now of
        Inl e \<Rightarrow> (t, Some e)
      | Inr b \<Rightarrow> (t\<lparr>tn_broker := b\<rparr>, None))"

subsection \<open>Phases and the claim on the end of a turn\<close>

definition setTurnPhase :: "turn \<Rightarrow> TurnPhase \<Rightarrow> gtime \<Rightarrow> turn" where
  "setTurnPhase t phase now = upd (\<lambda>s. s\<lparr>as_Phase := phase, as_UpdatedAt := now\<rparr>) t"

definition claimTerminalEvent :: "turn \<Rightarrow> gtime \<Rightarrow> bool \<times> turn" where
  "claimTerminalEvent t now =
     (case stream_of t of
        None \<Rightarrow> (False, t)
      | Some s \<Rightarrow>
          (if as_TerminalActionClaimed s \<or> isTerminalStreamStatus (as_Status s) then (False, t)
           else (True, upd (\<lambda>s. s\<lparr>as_TerminalActionClaimed := True, as_UpdatedAt := now\<rparr>) t)))"

definition finishSuccessfulTurnAfterCheckpoint ::
  "turn \<Rightarrow> pendingTurnCompletion \<Rightarrow> gtime \<Rightarrow> turn \<times> fwd_error option" where
  "finishSuccessfulTurnAfterCheckpoint t completion now =
     (let (claimed, t1) = claimTerminalEvent t now
      in if \<not> claimed then (t1, None)
         else let requestID = firstNonEmpty [TrimSpace (pc_RequestID completion), TrimSpace (tn_RequestID t)];
                  usage = pc_Usage completion
              in case publish_to t1 requestID
                        (buildTurnEndedMessage (tu_InputTokens usage) (tu_OutputTokens usage)
                           (tu_CacheReadTokens usage) (tu_CacheWriteTokens usage)) now of
                   (t2, Some e) \<Rightarrow> (t2, Some e)
                 | (t2, None) \<Rightarrow>
                     (case Complete (tn_broker t2) requestID [] [] now of
                        Inl e \<Rightarrow> (t2, Some e)
                      | Inr b \<Rightarrow> (setTurnPhase (t2\<lparr>tn_broker := b\<rparr>) TurnPhaseCompleted now, None)))"

definition finishCanceledTurnAfterCheckpoint :: "turn \<Rightarrow> string \<Rightarrow> gtime \<Rightarrow> turn \<times> fwd_error option" where
  "finishCanceledTurnAfterCheckpoint t terminalMessage now =
     (let (claimed, t1) = claimTerminalEvent t now
      in if \<not> claimed then (t1, None)
         else let t2 = setTurnPhase t1 TurnPhaseCanceled now
              in case Cancel (tn_broker t2) (tn_RequestID t2)
                        (firstNonEmpty [TrimSpace terminalMessage, ''[canceled] User aborted request'']) now of
                   Inl e \<Rightarrow> (t2, Some e)
                 | Inr b \<Rightarrow> (t2\<lparr>tn_broker := b\<rparr>, None))"

definition finishFailedTurnAfterCheckpoint :: "turn \<Rightarrow> string \<Rightarrow> string \<Rightarrow> gtime \<Rightarrow> turn \<times> fwd_error option" where
  "finishFailedTurnAfterCheckpoint t terminalCode terminalMessage now =
     (case Fail (tn_broker t) (tn_RequestID t) terminalCode terminalMessage now of
        Inl e \<Rightarrow> (setTurnPhase t TurnPhaseFailed now, Some e)
      | Inr b \<Rightarrow> (setTurnPhase (t\<lparr>tn_broker := b\<rparr>) TurnPhaseFailed now, None))"

subsection \<open>Timers\<close>

definition providerTimerKey :: "streamTimerKind \<Rightarrow> string \<Rightarrow> string" where
  "providerTimerKey kind execID =
     (if TrimSpace execID = [] then timerKindText kind else timerKindText kind @ '':'' @ TrimSpace execID)"

definition timer_token :: "ActiveStream \<Rightarrow> string \<Rightarrow> u64" where
  "timer_token s key = (case map_of (as_TimerTokens s) key of None \<Rightarrow> 0 | Some n \<Rightarrow> n)"

definition bump_token :: "string \<Rightarrow> gtime \<Rightarrow> ActiveStream \<Rightarrow> ActiveStream" where
  "bump_token key now s =
     s\<lparr>as_TimerTokens := AList.update key (timer_token s key + 1) (as_TimerTokens s), as_UpdatedAt := now\<rparr>"

definition scheduleStreamTimer ::
  "turn \<Rightarrow> string \<Rightarrow> streamTimerKind \<Rightarrow> string \<Rightarrow> u32 \<Rightarrow> string \<Rightarrow> gtime \<Rightarrow> turn" where
  "scheduleStreamTimer t key kind execID messageID reason now =
     (if TrimSpace key = [] then t
      else case stream_of t of
             None \<Rightarrow> t
           | Some s \<Rightarrow>
               (upd (bump_token key now) t)\<lparr>tn_timers := tn_timers t @
                  [\<lparr>te_Key = key, te_Kind = kind, te_Token = timer_token s key + 1, te_ExecID = TrimSpace execID,
                    te_MessageID = messageID, te_Reason = TrimSpace reason\<rparr>]\<rparr>)"

definition timerEventMatches :: "turn \<Rightarrow> streamTimerEvent \<Rightarrow> bool" where
  "timerEventMatches t e \<longleftrightarrow> TrimSpace (te_Key e) \<noteq> [] \<and>
     (case stream_of t of None \<Rightarrow> False | Some s \<Rightarrow> timer_token s (te_Key e) = te_Token e)"

definition clearStreamTimer :: "turn \<Rightarrow> string \<Rightarrow> gtime \<Rightarrow> turn" where
  "clearStreamTimer t key now =
     (if TrimSpace key = [] then t
      else upd (\<lambda>s. let s1 = bump_token key now s
                    in if timer_token s1 key = 0 then bump_token key now s1 else s1) t)"

end
