(* ===== verification/Checkpoint_Sync.thy ===== *)
theory Checkpoint_Sync
  imports Turn_State
begin

text \<open>
  Checkpoints (\<open>checkpoint_blobs.go\<close>): before a checkpoint message is sent, the blobs it refers to are
  written to the client and confirmed one by one; a newer checkpoint replaces one that is still
  waiting, a timeout or a rejected blob gives the checkpoint up, and a turn that waits for its last
  checkpoint is ended in each case.
\<close>

definition successfulCheckpointTerminalAction :: "pendingTurnCompletion option \<Rightarrow> checkpointTerminalAction" where
  "successfulCheckpointTerminalAction completion =
     (case completion of None \<Rightarrow> checkpointTerminalActionNone | Some c \<Rightarrow> checkpointTerminalActionComplete c)"

definition failedCheckpointTerminalAction :: "string \<Rightarrow> string \<Rightarrow> checkpointTerminalAction" where
  "failedCheckpointTerminalAction errorCode errorMessage =
     checkpointTerminalActionFail (TrimSpace errorCode) (TrimSpace errorMessage)"

definition finishCheckpointTerminalAction ::
  "turn \<Rightarrow> checkpointTerminalAction \<Rightarrow> gtime \<Rightarrow> turn \<times> fwd_error option" where
  "finishCheckpointTerminalAction t terminal now =
     (case terminal of
        checkpointTerminalActionComplete completion \<Rightarrow> finishSuccessfulTurnAfterCheckpoint t completion now
      | checkpointTerminalActionFail code message \<Rightarrow> finishFailedTurnAfterCheckpoint t code message now
      | checkpointTerminalActionNone \<Rightarrow> (t, None))"

definition checkpoint_timer :: string where
  "checkpoint_timer = providerTimerKey streamTimerCheckpointBlobs []"

definition finishAfterCheckpointSyncFailure :: "turn \<Rightarrow> gtime \<Rightarrow> turn \<times> fwd_error option" where
  "finishAfterCheckpointSyncFailure t now =
     (let pending = ck_PendingCheckpoint (tn_checkpoint t);
          t1 = t\<lparr>tn_checkpoint := (tn_checkpoint t)\<lparr>ck_PendingCheckpoint := None, ck_PendingCheckpointBlobWrites := []\<rparr>\<rparr>;
          t2 = clearStreamTimer t1 checkpoint_timer now
      in case pending of
           None \<Rightarrow> (t2, None)
         | Some p \<Rightarrow> finishCheckpointTerminalAction t2 (pp_Terminal p) now)"

definition discardPendingCheckpoint :: "turn \<Rightarrow> gtime \<Rightarrow> turn" where
  "discardPendingCheckpoint t now =
     clearStreamTimer
       (t\<lparr>tn_checkpoint := (tn_checkpoint t)\<lparr>ck_PendingCheckpoint := None, ck_PendingCheckpointBlobWrites := []\<rparr>\<rparr>)
       checkpoint_timer now"

definition required_confirmed :: "checkpoint_fields \<Rightarrow> pendingCheckpointPublish \<Rightarrow> bool" where
  "required_confirmed ck p \<longleftrightarrow> list_all (\<lambda>key. key \<in> set (ck_ConfirmedCheckpointBlobs ck)) (pp_Required p)"

definition checkpointProjectionReady :: "turn \<Rightarrow> bool" where
  "checkpointProjectionReady t =
     (case ck_PendingCheckpoint (tn_checkpoint t) of
        None \<Rightarrow> False
      | Some p \<Rightarrow> required_confirmed (tn_checkpoint t) p)"

definition publishReadyCheckpoint :: "turn \<Rightarrow> gtime \<Rightarrow> turn \<times> fwd_error option" where
  "publishReadyCheckpoint t now =
     (let ck = tn_checkpoint t
      in case ck_PendingCheckpoint ck of
           None \<Rightarrow> (t, None)
         | Some p \<Rightarrow>
             (if \<not> required_confirmed ck p then (t, None)
              else let t1 = t\<lparr>tn_checkpoint := ck\<lparr>ck_PendingCheckpoint := None\<rparr>\<rparr>;
                       t2 = clearStreamTimer t1 checkpoint_timer now
                   in case publish_to t2 (tn_RequestID t2) (buildCheckpointMessage (Some (pp_State p))) now of
                        (t3, Some e) \<Rightarrow>
                          (if pp_Terminal p \<noteq> checkpointTerminalActionNone
                           then finishCheckpointTerminalAction t3 (pp_Terminal p) now
                           else (t3, Some e))
                      | (t3, None) \<Rightarrow>
                          finishCheckpointTerminalAction
                            (t3\<lparr>tn_checkpoint := (tn_checkpoint t3)\<lparr>ck_sent := ck_sent (tn_checkpoint t3) @ [p]\<rparr>\<rparr>)
                            (pp_Terminal p) now))"

text \<open>The loop over the blobs of a projection: which are required, which have to be written now.\<close>

definition next_request_id :: "u32 \<Rightarrow> u32" where
  "next_request_id n = (if n + 1 = 0 then n + 2 else n + 1)"

fun dispatch_blobs ::
  "u64 \<Rightarrow> gtime \<Rightarrow> string list \<Rightarrow> CheckpointBlob list \<Rightarrow> checkpoint_fields \<Rightarrow>
   checkpoint_fields \<times> string list \<times> (u32 \<times> CheckpointBlob) list" where
  "dispatch_blobs generation startedAt pendingKeys [] ck = (ck, [], [])"
| "dispatch_blobs generation startedAt pendingKeys (blob # blobs) ck =
     (let key = cb_ID blob
      in if key = [] then dispatch_blobs generation startedAt pendingKeys blobs ck
         else if key \<in> set (ck_ConfirmedCheckpointBlobs ck) \<or> key \<in> set pendingKeys
         then (case dispatch_blobs generation startedAt pendingKeys blobs ck of
                 (ck1, required, toWrite) \<Rightarrow> (ck1, List.insert key required, toWrite))
         else let requestID = next_request_id (ck_NextCheckpointBlobRequestID ck);
                  write = \<lparr>pw_Key = key, pw_Generation = generation, pw_Dispatched = startedAt\<rparr>;
                  ck0 = ck\<lparr>ck_NextCheckpointBlobRequestID := requestID,
                           ck_PendingCheckpointBlobWrites :=
                             AList.update requestID write (ck_PendingCheckpointBlobWrites ck),
                           ck_dispatched := ck_dispatched ck @ [(requestID, key)]\<rparr>
              in case dispatch_blobs generation startedAt (key # pendingKeys) blobs ck0 of
                   (ck1, required, toWrite) \<Rightarrow> (ck1, List.insert key required, (requestID, blob) # toWrite))"

definition pending_keys :: "checkpoint_fields \<Rightarrow> string list" where
  "pending_keys ck = map (pw_Key \<circ> snd) (ck_PendingCheckpointBlobWrites ck)"

fun blob_bytes :: "CheckpointBlob list \<Rightarrow> int" where
  "blob_bytes [] = 0"
| "blob_bytes (blob # blobs) = (if cb_ID blob = [] then 0 else int (length (cb_Data blob))) + blob_bytes blobs"

text \<open>The locked section of \<open>queueCheckpointProjectionWithTerminal\<close> and the writes to send.\<close>

definition queue_section ::
  "turn \<Rightarrow> conversation_state \<Rightarrow> CheckpointBlob list \<Rightarrow> checkpointTerminalAction \<Rightarrow> gtime \<Rightarrow>
   turn \<times> (u32 \<times> CheckpointBlob) list" where
  "queue_section t state blobs terminal0 now =
     (let ck = tn_checkpoint t;
          generation = (if ck_CheckpointGeneration ck + 1 = 0 then ck_CheckpointGeneration ck + 2
                        else ck_CheckpointGeneration ck + 1);
          terminal = (case ck_PendingCheckpoint ck of
                        Some p \<Rightarrow> if terminal0 = checkpointTerminalActionNone then pp_Terminal p else terminal0
                      | None \<Rightarrow> terminal0);
          (ck1, required, toWrite) =
            dispatch_blobs generation now (pending_keys ck) blobs (ck\<lparr>ck_CheckpointGeneration := generation\<rparr>);
          p = \<lparr>pp_Generation = generation, pp_QueuedAt = now, pp_TotalBlobBytes = blob_bytes blobs,
               pp_NewBlobCount = int (length toWrite), pp_State = state, pp_Required = required, pp_Terminal = terminal\<rparr>;
          t1 = t\<lparr>tn_checkpoint := ck1\<lparr>ck_PendingCheckpoint := Some p\<rparr>\<rparr>
      in (upd (\<lambda>s. (if terminal \<noteq> checkpointTerminalActionNone then s\<lparr>as_Phase := TurnPhaseCheckpointing\<rparr> else s)
                    \<lparr>as_UpdatedAt := now\<rparr>) t1, toWrite))"

fun send_blobs :: "turn \<Rightarrow> (u32 \<times> CheckpointBlob) list \<Rightarrow> gtime \<Rightarrow> turn \<times> fwd_error option" where
  "send_blobs t [] now = (t, None)"
| "send_blobs t ((requestID, blob) # writes) now =
     (case publish_to t (tn_RequestID t) (buildSetCheckpointBlobMessage requestID (cb_ID blob) (cb_Data blob)) now of
        (t1, Some e) \<Rightarrow> (t1, Some e)
      | (t1, None) \<Rightarrow> send_blobs t1 writes now)"

definition scheduleCheckpointBlobTimeout :: "turn \<Rightarrow> u64 \<Rightarrow> gtime \<Rightarrow> turn" where
  "scheduleCheckpointBlobTimeout t generation now =
     (if generation = 0 then t
      else scheduleStreamTimer t checkpoint_timer streamTimerCheckpointBlobs [] 0
             (''checkpoint blob write timeout generation='' @ show_nat (unat generation)) now)"

definition queueCheckpointProjectionWithTerminal ::
  "turn \<Rightarrow> conversation_state \<Rightarrow> CheckpointBlob list \<Rightarrow> checkpointTerminalAction \<Rightarrow> gtime \<Rightarrow> turn \<times> fwd_error option" where
  "queueCheckpointProjectionWithTerminal t state blobs terminal now =
     (let (t1, toWrite) = queue_section t state blobs terminal now
      in case send_blobs t1 toWrite now of
           (t2, Some e) \<Rightarrow> finishAfterCheckpointSyncFailure t2 now
         | (t2, None) \<Rightarrow>
             (if checkpointProjectionReady t2 then publishReadyCheckpoint t2 now
              else (scheduleCheckpointBlobTimeout t2 (ck_CheckpointGeneration (tn_checkpoint t2)) now, None)))"

definition queueCheckpointProjection ::
  "turn \<Rightarrow> conversation_state \<Rightarrow> CheckpointBlob list \<Rightarrow> pendingTurnCompletion option \<Rightarrow> gtime \<Rightarrow> turn \<times> fwd_error option" where
  "queueCheckpointProjection t state blobs completion now =
     queueCheckpointProjectionWithTerminal t state blobs (successfulCheckpointTerminalAction completion) now"

text \<open>The client's answer to one write: its id, and whether it reports an error.\<close>

definition handleCheckpointBlobResult :: "turn \<Rightarrow> u32 \<Rightarrow> bool \<Rightarrow> gtime \<Rightarrow> turn \<times> fwd_error option" where
  "handleCheckpointBlobResult t0 i rejected now =
     (let ck0 = tn_checkpoint t0;
          ck = ck0\<lparr>ck_acked := (if rejected then ck_acked ck0 else i # ck_acked ck0)\<rparr>;
          t = t0\<lparr>tn_checkpoint := ck\<rparr>
      in case map_of (ck_PendingCheckpointBlobWrites ck) i of
           None \<Rightarrow> (upd (\<lambda>s. s\<lparr>as_UpdatedAt := now\<rparr>) t, None)
         | Some write \<Rightarrow>
             (let required = (case ck_PendingCheckpoint ck of
                     None \<Rightarrow> False | Some p \<Rightarrow> pw_Key write \<in> set (pp_Required p));
                  ck1 = ck\<lparr>ck_PendingCheckpointBlobWrites := AList.delete i (ck_PendingCheckpointBlobWrites ck),
                           ck_ConfirmedCheckpointBlobs :=
                             (if rejected then ck_ConfirmedCheckpointBlobs ck
                              else List.insert (pw_Key write) (ck_ConfirmedCheckpointBlobs ck))\<rparr>;
                  t1 = upd (\<lambda>s. s\<lparr>as_UpdatedAt := now\<rparr>) (t\<lparr>tn_checkpoint := ck1\<rparr>)
              in if rejected \<and> required then finishAfterCheckpointSyncFailure t1 now
                 else if checkpointProjectionReady t1 then publishReadyCheckpoint t1 now
                 else (t1, None)))"

definition handleCheckpointBlobTimeout :: "turn \<Rightarrow> gtime \<Rightarrow> turn \<times> fwd_error option" where
  "handleCheckpointBlobTimeout t now =
     (case ck_PendingCheckpoint (tn_checkpoint t) of
        None \<Rightarrow> (t, None)
      | Some p \<Rightarrow>
          (if required_confirmed (tn_checkpoint t) p then publishReadyCheckpoint t now
           else finishAfterCheckpointSyncFailure t now))"


subsection \<open>What leaves the checkpoint fields alone\<close>

lemma upd_frame [simp]:
  "tn_checkpoint (upd f t) = tn_checkpoint t" "tn_RequestID (upd f t) = tn_RequestID t" "tn_timers (upd f t) = tn_timers t"
  by (simp_all add: upd_def split: option.split)

lemma setTurnPhase_frame [simp]: "tn_checkpoint (setTurnPhase t p now) = tn_checkpoint t"
  by (simp add: setTurnPhase_def)

lemma clearStreamTimer_frame [simp]: "tn_checkpoint (clearStreamTimer t key now) = tn_checkpoint t"
  by (simp add: clearStreamTimer_def)

lemma scheduleStreamTimer_frame [simp]:
  "tn_checkpoint (scheduleStreamTimer t key kind x i r now) = tn_checkpoint t"
  by (simp add: scheduleStreamTimer_def split: option.split)

lemma scheduleCheckpointBlobTimeout_frame [simp]:
  "tn_checkpoint (scheduleCheckpointBlobTimeout t g now) = tn_checkpoint t"
  by (simp add: scheduleCheckpointBlobTimeout_def)

lemma publish_to_frame [simp]: "tn_checkpoint (fst (publish_to t r m now)) = tn_checkpoint t"
  by (simp add: publish_to_def split: sum.split)

lemma publish_to_frame': "publish_to t r m now = (t', e) \<Longrightarrow> tn_checkpoint t' = tn_checkpoint t"
  using publish_to_frame [of t r m now] by simp

lemma finish_frame [simp]:
  "tn_checkpoint (fst (finishSuccessfulTurnAfterCheckpoint t c now)) = tn_checkpoint t"
  "tn_checkpoint (fst (finishFailedTurnAfterCheckpoint t code msg now)) = tn_checkpoint t"
  "tn_checkpoint (fst (finishCheckpointTerminalAction t a now)) = tn_checkpoint t"
proof -
  show s: "tn_checkpoint (fst (finishSuccessfulTurnAfterCheckpoint t c now)) = tn_checkpoint t" for t c
  proof -
    obtain b t1 where c: "claimTerminalEvent t now = (b, t1)" by fastforce
    then have t1: "tn_checkpoint t1 = tn_checkpoint t" by (auto simp: claimTerminalEvent_def split: option.splits if_splits)
    let ?r = "firstNonEmpty [TrimSpace (pc_RequestID c), TrimSpace (tn_RequestID t)]" and ?u = "pc_Usage c"
    obtain t2 e where p: "publish_to t1 ?r (buildTurnEndedMessage (tu_InputTokens ?u) (tu_OutputTokens ?u)
        (tu_CacheReadTokens ?u) (tu_CacheWriteTokens ?u)) now = (t2, e)" by fastforce
    have t2: "tn_checkpoint t2 = tn_checkpoint t" using publish_to_frame' [OF p] t1 by simp
    show ?thesis
      unfolding finishSuccessfulTurnAfterCheckpoint_def c Let_def prod.case p
      using t1 t2 by (cases e; cases "Complete (tn_broker t2) ?r [] [] now") auto
  qed
  show f: "tn_checkpoint (fst (finishFailedTurnAfterCheckpoint t code msg now)) = tn_checkpoint t" for t code msg
    by (simp add: finishFailedTurnAfterCheckpoint_def split: sum.split)
  show "tn_checkpoint (fst (finishCheckpointTerminalAction t a now)) = tn_checkpoint t"
    by (simp add: finishCheckpointTerminalAction_def s f split: checkpointTerminalAction.split)
qed

lemma send_blobs_frame [simp]: "tn_checkpoint (fst (send_blobs t ws now)) = tn_checkpoint t"
proof (induction t ws now rule: send_blobs.induct)
  case (2 t i blob ws now)
  obtain t1 e where p: "publish_to t (tn_RequestID t) (buildSetCheckpointBlobMessage i (cb_ID blob) (cb_Data blob)) now = (t1, e)"
    by fastforce
  with 2 publish_to_frame' [OF p] show ?case by (cases e) auto
qed simp

subsection \<open>The invariant\<close>

text \<open>
  Writes are numbered 1, 2, ... in the order they are sent, as long as the 32-bit counter does not
  wrap around; a write in flight is one that was sent; no blob is in flight twice or although it is
  confirmed; a confirmed blob was sent and confirmed by the client; a checkpoint that was sent had
  all its blobs confirmed.
\<close>

definition ids_ok :: "checkpoint_fields \<Rightarrow> bool" where
  "ids_ok ck \<longleftrightarrow> ck_NextCheckpointBlobRequestID ck = of_nat (length (ck_dispatched ck)) \<and>
     map fst (ck_dispatched ck) = map of_nat [1..<Suc (length (ck_dispatched ck))]"

definition writes_ok :: "checkpoint_fields \<Rightarrow> bool" where
  "writes_ok ck \<longleftrightarrow> (\<forall>(i, w) \<in> set (ck_PendingCheckpointBlobWrites ck). (i, pw_Key w) \<in> set (ck_dispatched ck)) \<and>
     distinct (pending_keys ck) \<and> set (pending_keys ck) \<inter> set (ck_ConfirmedCheckpointBlobs ck) = {} \<and>
     gomap_ok (ck_PendingCheckpointBlobWrites ck)"

definition confirmed_ok :: "checkpoint_fields \<Rightarrow> bool" where
  "confirmed_ok ck \<longleftrightarrow>
     (\<forall>k \<in> set (ck_ConfirmedCheckpointBlobs ck). \<exists>i. (i, k) \<in> set (ck_dispatched ck) \<and> i \<in> set (ck_acked ck)) \<and>
     (\<forall>p \<in> set (ck_sent ck). set (pp_Required p) \<subseteq> set (ck_ConfirmedCheckpointBlobs ck))"

definition ck_ok :: "checkpoint_fields \<Rightarrow> bool" where
  "ck_ok ck \<longleftrightarrow> ids_ok ck \<and> writes_ok ck \<and> confirmed_ok ck"

lemmas ck_ok_defs = ck_ok_def ids_ok_def writes_ok_def confirmed_ok_def pending_keys_def

definition ck_inv :: "checkpoint_fields \<Rightarrow> bool" where
  "ck_inv ck \<longleftrightarrow> (length (ck_dispatched ck) < 2 ^ 32 \<longrightarrow> ck_ok ck)"

lemma u32_of_nat_eq: "m < 2 ^ 32 \<Longrightarrow> n < 2 ^ 32 \<Longrightarrow> (of_nat m :: u32) = of_nat n \<longleftrightarrow> m = n"
  using take_bit_nat_eq_self [of m 32] take_bit_nat_eq_self [of n 32] by (simp add: word_of_nat_eq_iff)

lemma distinct_ids:
  assumes "n < 2 ^ 32"
  shows "distinct (map (of_nat :: nat \<Rightarrow> u32) [1..<Suc n])"
proof -
  have "inj_on (of_nat :: nat \<Rightarrow> u32) (set [1..<Suc n])"
    using assms u32_of_nat_eq by (intro inj_onI) (auto simp: less_Suc_eq_le)
  then show ?thesis by (simp add: distinct_map)
qed

lemma next_id_of_nat:
  assumes "Suc n < 2 ^ 32"
  shows "next_request_id (of_nat n) = of_nat (Suc n)"
proof -
  have "(of_nat (Suc n) :: u32) \<noteq> of_nat 0" using assms by (subst u32_of_nat_eq) auto
  then show ?thesis by (simp add: next_request_id_def add.commute)
qed

lemma update_fresh: "k \<notin> fst ` set m \<Longrightarrow> AList.update k v m = m @ [(k, v)]"
  by (induction m) auto


definition dispatch_one :: "u64 \<Rightarrow> gtime \<Rightarrow> string \<Rightarrow> checkpoint_fields \<Rightarrow> checkpoint_fields" where
  "dispatch_one g now key ck =
     (let i = next_request_id (ck_NextCheckpointBlobRequestID ck)
      in ck\<lparr>ck_NextCheckpointBlobRequestID := i,
            ck_PendingCheckpointBlobWrites := AList.update i \<lparr>pw_Key = key, pw_Generation = g, pw_Dispatched = now\<rparr>
              (ck_PendingCheckpointBlobWrites ck),
            ck_dispatched := ck_dispatched ck @ [(i, key)]\<rparr>)"

lemma dispatch_one_frame [simp]:
  "ck_ConfirmedCheckpointBlobs (dispatch_one g now key ck) = ck_ConfirmedCheckpointBlobs ck"
  "ck_PendingCheckpoint (dispatch_one g now key ck) = ck_PendingCheckpoint ck"
  "ck_sent (dispatch_one g now key ck) = ck_sent ck" "ck_acked (dispatch_one g now key ck) = ck_acked ck"
  "ck_CheckpointGeneration (dispatch_one g now key ck) = ck_CheckpointGeneration ck"
  "length (ck_dispatched (dispatch_one g now key ck)) = Suc (length (ck_dispatched ck))"
  by (simp_all add: dispatch_one_def Let_def)

lemma dispatch_blobs_Cons:
  "dispatch_blobs g now ks (blob # blobs) ck =
     (if cb_ID blob = [] then dispatch_blobs g now ks blobs ck
      else if cb_ID blob \<in> set (ck_ConfirmedCheckpointBlobs ck) \<or> cb_ID blob \<in> set ks
      then (let (ck1, required, toWrite) = dispatch_blobs g now ks blobs ck in (ck1, List.insert (cb_ID blob) required, toWrite))
      else (let (ck1, required, toWrite) = dispatch_blobs g now (cb_ID blob # ks) blobs (dispatch_one g now (cb_ID blob) ck)
            in (ck1, List.insert (cb_ID blob) required, (next_request_id (ck_NextCheckpointBlobRequestID ck), blob) # toWrite)))"
  by (simp add: dispatch_one_def Let_def)

declare dispatch_blobs.simps(2) [simp del]

lemma dispatch_frame:
  assumes "dispatch_blobs g now ks blobs ck = (ck1, required, toWrite)"
  shows "ck_ConfirmedCheckpointBlobs ck1 = ck_ConfirmedCheckpointBlobs ck \<and> ck_PendingCheckpoint ck1 = ck_PendingCheckpoint ck \<and>
    ck_sent ck1 = ck_sent ck \<and> ck_CheckpointGeneration ck1 = ck_CheckpointGeneration ck \<and>
    length (ck_dispatched ck) \<le> length (ck_dispatched ck1)"
  using assms
proof (induction blobs arbitrary: ks ck required toWrite)
  case (Cons blob blobs)
  let ?r1 = "dispatch_blobs g now ks blobs ck"
  let ?r2 = "dispatch_blobs g now (cb_ID blob # ks) blobs (dispatch_one g now (cb_ID blob) ck)"
  consider (same) r w where "?r1 = (ck1, r, w)" | (new) r w where "?r2 = (ck1, r, w)"
    using Cons.prems by (auto simp: dispatch_blobs_Cons split: if_splits prod.splits)
  then show ?case
    by cases (use Cons.IH in fastforce)+
qed simp

lemma dispatch_one_ok:
  assumes "ck_ok ck" "key \<notin> set (ck_ConfirmedCheckpointBlobs ck)" "key \<notin> set (pending_keys ck)"
    and "Suc (length (ck_dispatched ck)) < 2 ^ 32"
  shows "ck_ok (dispatch_one g now key ck) \<and> pending_keys (dispatch_one g now key ck) = pending_keys ck @ [key]"
proof -
  let ?n = "length (ck_dispatched ck)" and ?i = "of_nat (Suc (length (ck_dispatched ck))) :: u32"
  have ids: "ids_ok ck" and w: "writes_ok ck" and c: "confirmed_ok ck" using assms(1) by (simp_all add: ck_ok_def)
  have nx: "next_request_id (ck_NextCheckpointBlobRequestID ck) = ?i"
    using ids assms(4) next_id_of_nat by (simp add: ids_ok_def)
  have "map fst (ck_dispatched ck) = map of_nat [1..<Suc ?n]" using ids by (simp only: ids_ok_def)
  then have "set (map fst (ck_dispatched ck)) = set (map of_nat [1..<Suc ?n])" by (rule arg_cong)
  then have set_ids: "fst ` set (ck_dispatched ck) = of_nat ` {1..?n}"
    unfolding set_map set_upt atLeastLessThanSuc_atLeastAtMost .
  have "?i \<notin> of_nat ` {1..?n}"
  proof
    assume "?i \<in> of_nat ` {1..?n}"
    then obtain j where "j \<le> ?n" "?i = of_nat j" by auto
    then show False using assms(4) u32_of_nat_eq [of "Suc ?n" j] by auto
  qed
  moreover have "fst ` set (ck_PendingCheckpointBlobWrites ck) \<subseteq> fst ` set (ck_dispatched ck)"
    using w unfolding writes_ok_def by (force intro: rev_image_eqI)
  ultimately have fresh: "?i \<notin> fst ` set (ck_PendingCheckpointBlobWrites ck)"
    using set_ids by blast
  let ?d = "dispatch_one g now key ck"
  have ws: "ck_PendingCheckpointBlobWrites ?d = ck_PendingCheckpointBlobWrites ck @
      [(?i, \<lparr>pw_Key = key, pw_Generation = g, pw_Dispatched = now\<rparr>)]" "ck_dispatched ?d = ck_dispatched ck @ [(?i, key)]"
    "ck_NextCheckpointBlobRequestID ?d = ?i"
    unfolding dispatch_one_def nx Let_def by (simp_all add: update_fresh [OF fresh] del: of_nat_Suc)
  have pk: "pending_keys ?d = pending_keys ck @ [key]" by (simp add: pending_keys_def ws)
  have "ids_ok ?d" using ids by (simp add: ids_ok_def ws upt_Suc_append)
  moreover have "writes_ok ?d"
    using w fresh assms(2,3) unfolding writes_ok_def pk by (auto simp: ws)
  moreover have "confirmed_ok ?d"
    using c by (fastforce simp: confirmed_ok_def ws)
  ultimately show ?thesis using pk by (simp add: ck_ok_def)
qed

lemma dispatch_ok:
  assumes "dispatch_blobs g now ks blobs ck = (ck1, required, toWrite)" "ck_ok ck" "set (pending_keys ck) \<subseteq> set ks"
    and "length (ck_dispatched ck1) < 2 ^ 32"
  shows "ck_ok ck1"
  using assms
proof (induction blobs arbitrary: ks ck required toWrite)
  case (Cons blob blobs)
  let ?key = "cb_ID blob"
  show ?case
  proof (cases "?key = [] \<or> ?key \<in> set (ck_ConfirmedCheckpointBlobs ck) \<or> ?key \<in> set ks")
    case True
    then obtain r w where "dispatch_blobs g now ks blobs ck = (ck1, r, w)"
      using Cons.prems(1) by (auto simp: dispatch_blobs_Cons split: if_splits prod.splits)
    from Cons.IH [OF this Cons.prems(2-4)] show ?thesis .
  next
    case False
    then obtain r w where r: "dispatch_blobs g now (?key # ks) blobs (dispatch_one g now ?key ck) = (ck1, r, w)"
      using Cons.prems(1) by (auto simp: dispatch_blobs_Cons split: if_splits prod.splits)
    have "Suc (length (ck_dispatched ck)) < 2 ^ 32" using dispatch_frame [OF r] Cons.prems(4) by simp
    moreover have "?key \<notin> set (pending_keys ck)" using False Cons.prems(3) by auto
    ultimately have "ck_ok (dispatch_one g now ?key ck)" "pending_keys (dispatch_one g now ?key ck) = pending_keys ck @ [?key]"
      using dispatch_one_ok [OF Cons.prems(2)] False by blast+
    from Cons.IH [OF r this(1) _ Cons.prems(4)] this(2) Cons.prems(3) show ?thesis by auto
  qed
qed simp

subsection \<open>Every operation keeps the invariant\<close>

lemma ck_ok_pending [simp]: "ck_ok (ck\<lparr>ck_PendingCheckpoint := p\<rparr>) = ck_ok ck"
  by (simp add: ck_ok_defs)

lemma ck_ok_reset: "ck_ok ck \<Longrightarrow> ck_ok (ck\<lparr>ck_PendingCheckpoint := p, ck_PendingCheckpointBlobWrites := []\<rparr>)"
  by (simp add: ck_ok_defs)

lemma ck_inv_reset: "ck_inv ck \<Longrightarrow> ck_inv (ck\<lparr>ck_PendingCheckpoint := p, ck_PendingCheckpointBlobWrites := []\<rparr>)"
  using ck_ok_reset by (simp add: ck_inv_def)

lemma failure_inv:
  "ck_inv (tn_checkpoint t) \<Longrightarrow> ck_inv (tn_checkpoint (fst (finishAfterCheckpointSyncFailure t now)))"
  by (simp add: finishAfterCheckpointSyncFailure_def Let_def ck_inv_reset split: option.split)

lemma discard_inv: "ck_inv (tn_checkpoint t) \<Longrightarrow> ck_inv (tn_checkpoint (discardPendingCheckpoint t now))"
  by (simp add: discardPendingCheckpoint_def ck_inv_reset)

lemma ready_inv:
  assumes "ck_inv (tn_checkpoint t)"
  shows "ck_inv (tn_checkpoint (fst (publishReadyCheckpoint t now)))"
proof (cases "ck_PendingCheckpoint (tn_checkpoint t)")
  case None
  then show ?thesis using assms by (simp add: publishReadyCheckpoint_def Let_def)
next
  case (Some p)
  let ?t = "clearStreamTimer (t\<lparr>tn_checkpoint := (tn_checkpoint t)\<lparr>ck_PendingCheckpoint := None\<rparr>\<rparr>) checkpoint_timer now"
  obtain t3 e where p: "publish_to ?t (tn_RequestID ?t) (buildCheckpointMessage (Some (pp_State p))) now = (t3, e)" by fastforce
  have t3: "tn_checkpoint t3 = (tn_checkpoint t)\<lparr>ck_PendingCheckpoint := None\<rparr>" using publish_to_frame' [OF p] by simp
  show ?thesis
  proof (cases "required_confirmed (tn_checkpoint t) p")
    case False
    then show ?thesis using assms Some by (simp add: publishReadyCheckpoint_def Let_def)
  next
    case True
    have sent: "ck_inv ((tn_checkpoint t)\<lparr>ck_PendingCheckpoint := None, ck_sent := ck_sent (tn_checkpoint t) @ [p]\<rparr>)"
      using assms True by (auto simp: ck_inv_def ck_ok_defs required_confirmed_def list_all_iff)
    have plain: "ck_inv ((tn_checkpoint t)\<lparr>ck_PendingCheckpoint := None\<rparr>)"
      using assms by (simp add: ck_inv_def)
    show ?thesis
      unfolding publishReadyCheckpoint_def Let_def Some option.case p prod.case
      using True sent plain t3 by (cases e) simp_all
  qed
qed

lemma delete_write:
  assumes "distinct (map f m)" "gomap_ok m" "map_of m i = Some w"
  shows "distinct (map f (AList.delete i m))" "f (i, w) \<notin> f ` set (AList.delete i m)"
    "f ` set (AList.delete i m) \<subseteq> f ` set m"
proof -
  have "inj_on f (set m)" using assms(1) by (simp add: distinct_map)
  then show "f (i, w) \<notin> f ` set (AList.delete i m)"
    using map_of_SomeD [OF assms(3)] by (auto simp: in_set_delete_iff dest: inj_onD)
  show "distinct (map f (AList.delete i m))"
    using assms(1) by (simp add: AList.delete_eq distinct_map_filter)
  show "f ` set (AList.delete i m) \<subseteq> f ` set m" by (auto simp: in_set_delete_iff)
qed

lemma outcome_inv:
  "ck_inv (tn_checkpoint t) \<Longrightarrow>
     r = (if a then finishAfterCheckpointSyncFailure t now else if b then publishReadyCheckpoint t now else (t, None)) \<Longrightarrow>
     ck_inv (tn_checkpoint (fst r))"
  by (simp add: failure_inv ready_inv)

lemma result_inv:
  assumes "ck_inv (tn_checkpoint t)"
  shows "ck_inv (tn_checkpoint (fst (handleCheckpointBlobResult t i rejected now)))"
proof -
  let ?ck = "(tn_checkpoint t)\<lparr>ck_acked := (if rejected then ck_acked (tn_checkpoint t) else i # ck_acked (tn_checkpoint t))\<rparr>"
  have ck: "ck_inv ?ck" using assms by (auto simp: ck_inv_def ck_ok_defs)
  show ?thesis
  proof (cases "map_of (ck_PendingCheckpointBlobWrites ?ck) i")
    case None
    then show ?thesis using ck by (simp add: handleCheckpointBlobResult_def Let_def)
  next
    case (Some w)
    let ?ck1 = "?ck\<lparr>ck_PendingCheckpointBlobWrites := AList.delete i (ck_PendingCheckpointBlobWrites ?ck),
      ck_ConfirmedCheckpointBlobs := (if rejected then ck_ConfirmedCheckpointBlobs ?ck
        else List.insert (pw_Key w) (ck_ConfirmedCheckpointBlobs ?ck))\<rparr>"
    have "ck_ok ?ck1" if "ck_ok ?ck"
    proof -
      have m: "(i, w) \<in> set (ck_PendingCheckpointBlobWrites ?ck)" using map_of_SomeD [OF Some] .
      have w: "writes_ok ?ck" and c: "confirmed_ok ?ck" and ids: "ids_ok ?ck" using that by (simp_all add: ck_ok_def)
      have d: "distinct (map (pw_Key \<circ> snd) (ck_PendingCheckpointBlobWrites ?ck))"
        "gomap_ok (ck_PendingCheckpointBlobWrites ?ck)" using w by (simp_all add: writes_ok_def pending_keys_def)
      have dis: "(pw_Key \<circ> snd) ` set (ck_PendingCheckpointBlobWrites ?ck) \<inter> set (ck_ConfirmedCheckpointBlobs ?ck) = {}"
        using w by (simp add: writes_ok_def pending_keys_def)
      have iw: "(i, pw_Key w) \<in> set (ck_dispatched ?ck)" using w m by (auto simp: writes_ok_def)
      note del = delete_write [OF d Some]
      have keys: "set (pending_keys ?ck1) \<inter> set (ck_ConfirmedCheckpointBlobs ?ck1) = {}"
        using del(2,3) dis by (auto simp: pending_keys_def)
      have "writes_ok ?ck1"
        unfolding writes_ok_def using keys del(1) d(2) w
        by (auto simp: pending_keys_def writes_ok_def in_set_delete_iff)
      moreover have "confirmed_ok ?ck1" using c iw by (auto simp: confirmed_ok_def)
      moreover have "ids_ok ?ck1" using ids by (simp add: ids_ok_def)
      ultimately show ?thesis by (simp add: ck_ok_def)
    qed
    then have ck1: "ck_inv ?ck1" using ck by (simp add: ck_inv_def)
    let ?t1 = "upd (\<lambda>s. s\<lparr>as_UpdatedAt := now\<rparr>) ((t\<lparr>tn_checkpoint := ?ck\<rparr>)\<lparr>tn_checkpoint := ?ck1\<rparr>)"
    let ?req = "case ck_PendingCheckpoint ?ck of None \<Rightarrow> False | Some p \<Rightarrow> pw_Key w \<in> set (pp_Required p)"
    have t1: "ck_inv (tn_checkpoint ?t1)" using ck1 by (simp del: if_image_distrib)
    have "handleCheckpointBlobResult t i rejected now =
        (if rejected \<and> ?req then finishAfterCheckpointSyncFailure ?t1 now
         else if checkpointProjectionReady ?t1 then publishReadyCheckpoint ?t1 now else (?t1, None))"
      unfolding handleCheckpointBlobResult_def Let_def Some option.case by (rule refl)
    then show ?thesis by (rule outcome_inv [OF t1])
  qed
qed

lemma timeout_inv:
  "ck_inv (tn_checkpoint t) \<Longrightarrow> ck_inv (tn_checkpoint (fst (handleCheckpointBlobTimeout t now)))"
  by (simp add: handleCheckpointBlobTimeout_def ready_inv failure_inv split: option.split)

lemma queue_section_inv:
  assumes "ck_inv (tn_checkpoint t)" "queue_section t state blobs terminal now = (t1, toWrite)"
  shows "ck_inv (tn_checkpoint t1)"
proof -
  let ?ck = "tn_checkpoint t"
  define g where "g = (if ck_CheckpointGeneration ?ck + 1 = 0 then ck_CheckpointGeneration ?ck + 2 else ck_CheckpointGeneration ?ck + 1)"
  obtain ck1 required w where d: "dispatch_blobs g now (pending_keys ?ck) blobs (?ck\<lparr>ck_CheckpointGeneration := g\<rparr>) = (ck1, required, w)"
    by (metis prod_cases3)
  have "ck_ok ck1" if "length (ck_dispatched ck1) < 2 ^ 32"
  proof (rule dispatch_ok [OF d _ _ that])
    have "length (ck_dispatched ?ck) < 2 ^ 32" using dispatch_frame [OF d] that by simp
    then show "ck_ok (?ck\<lparr>ck_CheckpointGeneration := g\<rparr>)" using assms(1) by (simp add: ck_inv_def ck_ok_defs)
  qed (simp add: pending_keys_def)
  moreover obtain p where "tn_checkpoint t1 = ck1\<lparr>ck_PendingCheckpoint := Some p\<rparr>"
    using assms(2) unfolding queue_section_def Let_def g_def [symmetric] d by auto
  ultimately show ?thesis by (simp add: ck_inv_def)
qed

lemma queue_inv:
  assumes "ck_inv (tn_checkpoint t)"
  shows "ck_inv (tn_checkpoint (fst (queueCheckpointProjectionWithTerminal t state blobs terminal now)))"
proof -
  obtain t1 w where q: "queue_section t state blobs terminal now = (t1, w)" by fastforce
  obtain t2 e where b: "send_blobs t1 w now = (t2, e)" by fastforce
  have t2: "ck_inv (tn_checkpoint t2)"
    using queue_section_inv [OF assms q] send_blobs_frame [of t1 w now] b by simp
  show ?thesis unfolding queueCheckpointProjectionWithTerminal_def q Let_def prod.case b
    using t2 failure_inv [OF t2, of now] ready_inv [OF t2, of now] by (cases e) simp_all
qed

inductive ck_start :: "turn \<Rightarrow> bool" where
  "tn_checkpoint t = no_checkpoint \<Longrightarrow> ck_start t"

text \<open>Everything that can happen to the checkpoint of a stream, and anything that does not concern it.\<close>

inductive ck_step :: "turn \<Rightarrow> turn \<Rightarrow> bool" where
  queues: "ck_step t (fst (queueCheckpointProjectionWithTerminal t state blobs terminal now))"
| answers: "ck_step t (fst (handleCheckpointBlobResult t i rejected now))"
| times_out: "ck_step t (fst (handleCheckpointBlobTimeout t now))"
| discards: "ck_step t (discardPendingCheckpoint t now)"
| elsewhere: "tn_checkpoint t' = tn_checkpoint t \<Longrightarrow> ck_step t t'"

interpretation ckp: invariant_of ck_start ck_step "\<lambda>t. ck_inv (tn_checkpoint t)"
proof unfold_locales
  fix t assume "ck_start t"
  then show "ck_inv (tn_checkpoint t)"
    by cases (simp add: no_checkpoint_def ck_inv_def ck_ok_defs)
next
  fix t t' assume "ck_inv (tn_checkpoint t)" "ck_step t t'"
  from this(2,1) show "ck_inv (tn_checkpoint t')"
    by cases (simp_all add: queue_inv result_inv timeout_inv discard_inv)
qed


subsection \<open>A waiting turn ends\<close>

definition live :: "turn \<Rightarrow> bool" where
  "live t \<longleftrightarrow> TrimSpace (tn_RequestID t) \<noteq> [] \<and> 1 \<le> br_backlogLimit (tn_broker t) \<and>
     (case stream_of t of
        None \<Rightarrow> False
      | Some s \<Rightarrow> \<not> as_TerminalActionClaimed s \<and> \<not> isTerminalStreamStatus (as_Status s))"

definition completed :: "turn \<Rightarrow> bool" where
  "completed t =
     (case stream_of t of
        None \<Rightarrow> False
      | Some s \<Rightarrow> as_Status s = StreamStatusCompleted \<and> as_Phase s = TurnPhaseCompleted \<and>
          as_Backlog s \<noteq> [] \<and> last (as_Backlog s) = end_event [] [])"

lemma live_iff:
  "live t \<longleftrightarrow> TrimSpace (tn_RequestID t) \<noteq> [] \<and> 1 \<le> br_backlogLimit (tn_broker t) \<and>
     (\<exists>s. stream_of t = Some s \<and> \<not> as_TerminalActionClaimed s \<and> \<not> isTerminalStreamStatus (as_Status s))"
  by (simp add: live_def split: option.split)

lemma completed_iff:
  "completed t \<longleftrightarrow> (\<exists>s. stream_of t = Some s \<and> as_Status s = StreamStatusCompleted \<and> as_Phase s = TurnPhaseCompleted \<and>
     as_Backlog s \<noteq> [] \<and> last (as_Backlog s) = end_event [] [])"
  by (simp add: completed_def split: option.split)

text \<open>A completion for this request: its id is the stream's or left out.\<close>

definition completion_for :: "turn \<Rightarrow> pendingTurnCompletion \<Rightarrow> bool" where
  "completion_for t c \<longleftrightarrow> TrimSpace (pc_RequestID c) = [] \<or> TrimSpace (pc_RequestID c) = TrimSpace (tn_RequestID t)"

lemma stream_of_upd [simp]: "stream_of (upd f t) = map_option f (stream_of t)"
  by (simp add: upd_def stream_of_def split: option.split)

lemma stream_of_frame [simp]:
  "stream_of (t\<lparr>tn_checkpoint := ck\<rparr>) = stream_of t" "stream_of (t\<lparr>tn_timers := ts\<rparr>) = stream_of t"
  by (simp_all add: stream_of_def)

lemma limit_upd [simp]: "br_backlogLimit (tn_broker (upd f t)) = br_backlogLimit (tn_broker t)"
  by (simp add: upd_def split: option.split)

lemma live_upd:
  "live t \<Longrightarrow> (\<And>s. as_TerminalActionClaimed (f s) = as_TerminalActionClaimed s \<and> as_Status (f s) = as_Status s) \<Longrightarrow> live (upd f t)"
  by (auto simp: live_iff)

lemma live_frame [simp]: "live (t\<lparr>tn_checkpoint := ck\<rparr>) = live t" "live (t\<lparr>tn_timers := ts\<rparr>) = live t"
  by (simp_all add: live_iff)

lemma bump_token_frame [simp]:
  "as_TerminalActionClaimed (bump_token key now s) = as_TerminalActionClaimed s" "as_Status (bump_token key now s) = as_Status s"
  by (simp_all add: bump_token_def)

lemma live_timers:
  "live t \<Longrightarrow> live (clearStreamTimer t key now)" "live t \<Longrightarrow> live (scheduleStreamTimer t key kind x i r now)"
  by (auto simp: clearStreamTimer_def scheduleStreamTimer_def Let_def intro!: live_upd split: option.split if_splits)

lemma publish_live:
  assumes "live t" "publish_to t (tn_RequestID t) m now = (t', e)"
  shows "live t' \<and> e = None \<and> tn_RequestID t' = tn_RequestID t"
proof -
  obtain s where s: "Get (tn_broker t) (tn_RequestID t) = Some s" "\<not> as_TerminalActionClaimed s"
    "\<not> isTerminalStreamStatus (as_Status s)" using assms(1) by (auto simp: live_iff stream_of_def)
  have "as_Status (publish_stream l ev now s) = as_Status s" "as_TerminalActionClaimed (publish_stream l ev now s) = as_TerminalActionClaimed s" for l ev
    by (simp_all add: publish_stream_def Let_def)
  then show ?thesis using assms s by (auto simp: publish_to_def Publish_def live_iff stream_of_def)
qed

lemma timers_request [simp]:
  "tn_RequestID (clearStreamTimer t key now) = tn_RequestID t"
  "tn_RequestID (scheduleStreamTimer t key kind x i r now) = tn_RequestID t"
  by (simp_all add: clearStreamTimer_def scheduleStreamTimer_def split: option.split)

lemma send_blobs_live: "live t \<Longrightarrow> send_blobs t ws now = (t', e) \<Longrightarrow> live t' \<and> e = None \<and> tn_RequestID t' = tn_RequestID t"
proof (induction ws arbitrary: t)
  case (Cons w ws)
  obtain i blob where w: "w = (i, blob)" by fastforce
  obtain t1 e1 where p: "publish_to t (tn_RequestID t) (buildSetCheckpointBlobMessage i (cb_ID blob) (cb_Data blob)) now = (t1, e1)" by fastforce
  note l = publish_live [OF Cons.prems(1) p]
  with Cons.prems(2) p w have "send_blobs t1 ws now = (t', e)" by simp
  with Cons.IH l show ?case by auto
qed simp

lemma Complete_live:
  assumes "Get b r = Some s" "\<not> isTerminalStreamStatus (as_Status s)" "1 \<le> br_backlogLimit b"
  shows "\<exists>b' s'. Complete b r [] [] now = Inr b' \<and> Get b' r = Some s' \<and> as_Status s' = StreamStatusCompleted \<and>
    as_Backlog s' \<noteq> [] \<and> last (as_Backlog s') = end_event [] []"
proof -
  let ?s = "(stopTerminalCleanupTimerLocked s)\<lparr>as_Status := StreamStatusCompleted, as_UpdatedAt := now\<rparr>"
  have e: "ev_End (end_event [] [])" by (simp add: end_event_def)
  obtain b' where b': "publish_end (put_stream b r ?s) r (end_event [] []) (length (as_Subscribers s)) now = Inr b'"
    using publish_end_total by metis
  moreover have "TrimSpace [] = []" by code_simp
  ultimately have "Complete b r [] [] now = Inr b'"
    using assms by (auto simp: Complete_def Let_def)
  with publish_end_Get [OF b'] ended_stream_props(1,2) [OF e assms(3), where s = ?s] show ?thesis by auto
qed

lemma finish_success_live:
  assumes "live t" "completion_for t c"
  shows "\<exists>t'. finishSuccessfulTurnAfterCheckpoint t c now = (t', None) \<and> completed t'"
proof -
  let ?rid = "tn_RequestID t" and ?r = "firstNonEmpty [TrimSpace (pc_RequestID c), TrimSpace (tn_RequestID t)]"
  have r: "?r = TrimSpace ?rid" using assms by (auto simp: completion_for_def live_iff)
  obtain s where s: "stream_of t = Some s" "\<not> as_TerminalActionClaimed s" "\<not> isTerminalStreamStatus (as_Status s)"
    using assms(1) by (auto simp: live_iff)
  define t1 where "t1 = upd (\<lambda>s. s\<lparr>as_TerminalActionClaimed := True, as_UpdatedAt := now\<rparr>) t"
  have c: "claimTerminalEvent t now = (True, t1)" using s by (simp add: claimTerminalEvent_def t1_def)
  have g1: "Get (tn_broker t1) ?rid = Some (s\<lparr>as_TerminalActionClaimed := True, as_UpdatedAt := now\<rparr>)"
    using s(1) stream_of_upd [of "\<lambda>s. s\<lparr>as_TerminalActionClaimed := True, as_UpdatedAt := now\<rparr>" t]
    by (simp add: t1_def stream_of_def)
  have lim: "1 \<le> br_backlogLimit (tn_broker t1)" using assms(1) by (simp add: t1_def live_iff)
  let ?m = "buildTurnEndedMessage (tu_InputTokens (pc_Usage c)) (tu_OutputTokens (pc_Usage c))
    (tu_CacheReadTokens (pc_Usage c)) (tu_CacheWriteTokens (pc_Usage c))"
  obtain t2 s2 where p: "publish_to t1 (TrimSpace ?rid) ?m now = (t2, None)" and g2: "Get (tn_broker t2) ?rid = Some s2"
    "\<not> isTerminalStreamStatus (as_Status s2)" "1 \<le> br_backlogLimit (tn_broker t2)" "tn_RequestID t2 = ?rid"
  proof -
    let ?e = "\<lparr>ev_Message = Some ?m, ev_End = False, ev_TerminalErrorCode = [], ev_TerminalErrorMessage = []\<rparr>"
    let ?s1 = "s\<lparr>as_TerminalActionClaimed := True, as_UpdatedAt := now\<rparr>"
    have "as_Status (publish_stream (br_backlogLimit (tn_broker t1)) ?e now ?s1) = as_Status s"
      by (simp add: publish_stream_def Let_def)
    moreover have "tn_RequestID t1 = ?rid" by (simp add: t1_def)
    ultimately show ?thesis
      using that g1 s(3) lim by (simp add: publish_to_def Publish_def)
  qed
  have "Get (tn_broker t2) (TrimSpace ?rid) = Some s2" using g2(1) by simp
  then obtain b s3 where b: "Complete (tn_broker t2) (TrimSpace ?rid) [] [] now = Inr b" "Get b ?rid = Some s3"
    "as_Status s3 = StreamStatusCompleted" "as_Backlog s3 \<noteq> []" "last (as_Backlog s3) = end_event [] []"
    using Complete_live [of "tn_broker t2" "TrimSpace ?rid" s2 now] g2(2,3) by auto
  then have "finishSuccessfulTurnAfterCheckpoint t c now = (setTurnPhase (t2\<lparr>tn_broker := b\<rparr>) TurnPhaseCompleted now, None)"
    unfolding finishSuccessfulTurnAfterCheckpoint_def c Let_def prod.case r p by simp
  moreover have "completed (setTurnPhase (t2\<lparr>tn_broker := b\<rparr>) TurnPhaseCompleted now)"
    using b g2(4) by (simp add: completed_iff setTurnPhase_def) (simp add: stream_of_def)
  ultimately show ?thesis by blast
qed

lemma failure_ends:
  assumes "live t" "ck_PendingCheckpoint (tn_checkpoint t) = Some p" "pp_Terminal p = checkpointTerminalActionComplete c" "completion_for t c"
  shows "\<exists>t'. finishAfterCheckpointSyncFailure t now = (t', None) \<and> completed t'"
proof -
  let ?t = "clearStreamTimer (t\<lparr>tn_checkpoint := (tn_checkpoint t)\<lparr>ck_PendingCheckpoint := None, ck_PendingCheckpointBlobWrites := []\<rparr>\<rparr>) checkpoint_timer now"
  have "live ?t" "completion_for ?t c" using assms(1,4) by (simp_all add: live_timers completion_for_def)
  from finish_success_live [OF this] assms(2,3) show ?thesis
    by (simp add: finishAfterCheckpointSyncFailure_def Let_def finishCheckpointTerminalAction_def)
qed

lemma ready_ends:
  assumes "live t" "ck_PendingCheckpoint (tn_checkpoint t) = Some p" "pp_Terminal p = checkpointTerminalActionComplete c" "completion_for t c"
    and "required_confirmed (tn_checkpoint t) p"
  shows "\<exists>t'. publishReadyCheckpoint t now = (t', None) \<and> completed t'"
proof -
  let ?t = "clearStreamTimer (t\<lparr>tn_checkpoint := (tn_checkpoint t)\<lparr>ck_PendingCheckpoint := None\<rparr>\<rparr>) checkpoint_timer now"
  have l: "live ?t" using assms(1) by (simp add: live_timers)
  obtain t3 e where p: "publish_to ?t (tn_RequestID ?t) (buildCheckpointMessage (Some (pp_State p))) now = (t3, e)" by fastforce
  from publish_live [OF l p] have t3: "live t3" "e = None" "tn_RequestID t3 = tn_RequestID t" by simp_all
  let ?t4 = "t3\<lparr>tn_checkpoint := (tn_checkpoint t3)\<lparr>ck_sent := ck_sent (tn_checkpoint t3) @ [p]\<rparr>\<rparr>"
  have "live ?t4" "completion_for ?t4 c" using t3 assms(4) by (simp_all add: completion_for_def)
  from finish_success_live [OF this, of now] show ?thesis
    unfolding publishReadyCheckpoint_def Let_def assms(2) option.case p prod.case
    using assms(3,5) t3(2) by (simp add: finishCheckpointTerminalAction_def)
qed

lemma queue_section_live:
  assumes "live t" "ck_PendingCheckpoint (tn_checkpoint t) = Some p" "queue_section t state blobs checkpointTerminalActionNone now = (t1, ws)"
  shows "live t1 \<and> tn_RequestID t1 = tn_RequestID t \<and>
    (\<exists>p1. ck_PendingCheckpoint (tn_checkpoint t1) = Some p1 \<and> pp_Terminal p1 = pp_Terminal p)"
proof -
  define g where "g = (if ck_CheckpointGeneration (tn_checkpoint t) + 1 = 0 then ck_CheckpointGeneration (tn_checkpoint t) + 2
    else ck_CheckpointGeneration (tn_checkpoint t) + 1)"
  obtain ck1 required w where d: "dispatch_blobs g now (pending_keys (tn_checkpoint t)) blobs
      ((tn_checkpoint t)\<lparr>ck_CheckpointGeneration := g\<rparr>) = (ck1, required, w)" by (metis prod_cases3)
  show ?thesis using assms(3) unfolding queue_section_def Let_def g_def [symmetric] d assms(2)
    by (auto intro!: live_upd simp: assms(1) split: if_splits)
qed



subsection \<open>An example\<close>

definition demo_turn :: turn where
  "demo_turn = \<lparr>tn_broker = put_stream NewStreamBroker ''r'' (fresh_stream ''r'' ''c'' 1 ''m'' ''m'' AGENT_MODE_AGENT ''hi'' 0),
     tn_RequestID = ''r'', tn_checkpoint = no_checkpoint, tn_timers = []\<rparr>"

definition demo_state :: conversation_state where
  "demo_state = \<lparr>cs_used_tokens = 5, cs_max_tokens = 9, cs_turn_timings = [], cs_turns = [''t'']\<rparr>"

definition demo_completion :: pendingTurnCompletion where
  "demo_completion = \<lparr>pc_ConversationID = ''c'', pc_RequestID = ''r'', pc_TurnSeq = 1, pc_ModelCallID = ''mc'', pc_ProviderPass = 1,
     pc_Usage = zero_usage, pc_Disposition = completionDispositionNone\<rparr>"

definition demo_waiting :: turn where
  "demo_waiting = fst (queueCheckpointProjectionWithTerminal demo_turn demo_state [\<lparr>cb_ID = ''k'', cb_Data = ''data''\<rparr>]
     (checkpointTerminalActionComplete demo_completion) 1)"



end
