(* ===== verification/Usage_Store.thy ===== *)
theory Usage_Store
  imports Stream_Types
begin

text \<open>
  The usage ledger of \<open>internal/backend/forwarder/usage_store.go\<close>: an in-memory document of totals,
  daily totals and the most recent events, an index of those events by id, and the background
  writer that persists the document. The nine counters that the source repeats in its totals, daily
  and delta structs are one record here. Time formatting is Go's \<open>Format("2006-01-02")\<close> of the UTC
  time. Encoding the document as JSON and the lock file are outside the model: the file holds the
  last document written, or nothing, and a write succeeds or fails with an error.
\<close>

subsection \<open>UTC dates\<close>

definition nanos_per_day :: int where
  "nanos_per_day = 86400 * 10 ^ 9"

text \<open>Year, month and day of a day number counted from 1 January of year 1 (proleptic Gregorian).\<close>

definition civil_date :: "int \<Rightarrow> int \<times> int \<times> int" where
  "civil_date days =
     (let z = days + 306; era = z div 146097; doe = z mod 146097;
          yoe = (doe - doe div 1460 + doe div 36524 - doe div 146096) div 365;
          doy = doe - (365 * yoe + yoe div 4 - yoe div 100);
          mp = (5 * doy + 2) div 153; d = doy - (153 * mp + 2) div 5 + 1;
          m = (if mp < 10 then mp + 3 else mp - 9)
      in (yoe + era * 400 + (if m \<le> 2 then 1 else 0), m, d))"

definition pad_int :: "nat \<Rightarrow> int \<Rightarrow> string" where
  "pad_int w i =
     (let digits = show_nat (nat (abs i)); padded = replicate (w - length digits) (CHR ''0'') @ digits
      in if i < 0 then CHR ''-'' # padded else padded)"

definition format_date :: "gtime \<Rightarrow> string" where
  "format_date at =
     (let (y, m, d) = civil_date (at div nanos_per_day)
      in pad_int 4 y @ ''-'' @ pad_int 2 m @ ''-'' @ pad_int 2 d)"

subsection \<open>The document\<close>

record usage_counts =
  uc_ProviderCalls :: int
  uc_TurnsTotal :: int
  uc_ValidTurnsTotal :: int
  uc_InvalidTurnsTotal :: int
  uc_InputTokens :: int
  uc_OutputTokens :: int
  uc_CacheReadTokens :: int
  uc_CacheWriteTokens :: int
  uc_TotalTokens :: int

record usageFileEvent =
  ue_EventID :: string
  ue_Kind :: string
  ue_Status :: string
  ue_At :: gtime
  ue_InputTokens :: int
  ue_OutputTokens :: int
  ue_CacheReadTokens :: int
  ue_CacheWriteTokens :: int
  ue_TotalTokens :: int
  ue_UsagePresent :: bool
  ue_ProviderPass :: int
  ue_CompileDurationMS :: int
  ue_EstimatedPromptTokens :: int
  ue_ReplayMessageCount :: int
  ue_TTFTMS :: int
  ue_DurationMS :: int
  ue_CacheReadUsageAvailable :: bool

record usageFileDocument =
  ud_SchemaVersion :: int
  ud_UpdatedAt :: gtime
  ud_Totals :: usage_counts
  ud_Daily :: "(string \<times> usage_counts) list"
  ud_RecentEvents :: "usageFileEvent list"

definition zero_counts :: usage_counts where
  "zero_counts = \<lparr>uc_ProviderCalls = 0, uc_TurnsTotal = 0, uc_ValidTurnsTotal = 0, uc_InvalidTurnsTotal = 0,
     uc_InputTokens = 0, uc_OutputTokens = 0, uc_CacheReadTokens = 0, uc_CacheWriteTokens = 0, uc_TotalTokens = 0\<rparr>"

definition usageFileSchemaVersion :: int where
  "usageFileSchemaVersion = 2"

definition usageRecentEventLimit :: int where
  "usageRecentEventLimit = 500"

definition newUsageFileDocument :: usageFileDocument where
  "newUsageFileDocument = \<lparr>ud_SchemaVersion = usageFileSchemaVersion, ud_UpdatedAt = 0,
     ud_Totals = zero_counts, ud_Daily = [], ud_RecentEvents = []\<rparr>"

abbreviation usageEventKindProvider :: string where
  "usageEventKindProvider \<equiv> ''provider_call''"
abbreviation usageEventKindTurn :: string where
  "usageEventKindTurn \<equiv> ''turn_finalized''"
abbreviation usageTurnStatusDone :: string where
  "usageTurnStatusDone \<equiv> ''completed''"

definition normalizeUsageEventKind :: "string \<Rightarrow> string" where
  "normalizeUsageEventKind kind =
     (if TrimSpace kind = usageEventKindTurn then usageEventKindTurn else usageEventKindProvider)"

definition normalizeUsageFileEvent :: "usageFileEvent \<Rightarrow> gtime \<Rightarrow> usageFileEvent" where
  "normalizeUsageFileEvent e now =
     (let inp = nonNegativeInt64 (ue_InputTokens e); outp = nonNegativeInt64 (ue_OutputTokens e);
          cr = nonNegativeInt64 (ue_CacheReadTokens e); cw = nonNegativeInt64 (ue_CacheWriteTokens e)
      in e\<lparr>ue_EventID := TrimSpace (ue_EventID e), ue_Kind := normalizeUsageEventKind (ue_Kind e),
           ue_Status := TrimSpace (ue_Status e), ue_At := (if IsZero (ue_At e) then now else ue_At e),
           ue_InputTokens := inp, ue_OutputTokens := outp, ue_CacheReadTokens := cr, ue_CacheWriteTokens := cw,
           ue_TotalTokens := inp + outp + cr + cw\<rparr>)"

definition upsertRecentUsageEvent :: "usageFileEvent list \<Rightarrow> usageFileEvent \<Rightarrow> usageFileEvent list" where
  "upsertRecentUsageEvent items event =
     (let e = event\<lparr>ue_EventID := TrimSpace (ue_EventID event)\<rparr>
      in if ue_EventID e = [] then items
         else e # filter (\<lambda>item. TrimSpace (ue_EventID item) \<noteq> ue_EventID e) items)"

definition trimRecentUsageEvents :: "usageFileEvent list \<Rightarrow> int \<Rightarrow> usageFileEvent list" where
  "trimRecentUsageEvents items limit =
     (if limit \<le> 0 \<or> int (length items) \<le> limit then items else take (nat limit) items)"

fun index_events ::
  "(string, usageFileEvent) gomap \<Rightarrow> usageFileEvent list \<Rightarrow> (string, usageFileEvent) gomap" where
  "index_events index [] = index"
| "index_events index (e # es) =
     (let e1 = e\<lparr>ue_EventID := TrimSpace (ue_EventID e)\<rparr>
      in if ue_EventID e1 = [] then index_events index es
         else index_events (AList.update (ue_EventID e1)
                (e1\<lparr>ue_Kind := normalizeUsageEventKind (ue_Kind e1)\<rparr>) index) es)"

definition buildUsageEventIndex :: "usageFileEvent list \<Rightarrow> (string, usageFileEvent) gomap" where
  "buildUsageEventIndex items = index_events [] items"

definition usageFileEventDelta :: "usageFileEvent \<Rightarrow> usage_counts" where
  "usageFileEventDelta e =
     (if normalizeUsageEventKind (ue_Kind e) = usageEventKindTurn
      then let d = zero_counts\<lparr>uc_TurnsTotal := 1\<rparr>
           in if TrimSpace (ue_Status e) = usageTurnStatusDone then d\<lparr>uc_ValidTurnsTotal := 1\<rparr>
              else d\<lparr>uc_InvalidTurnsTotal := 1\<rparr>
      else zero_counts\<lparr>uc_ProviderCalls := 1, uc_InputTokens := nonNegativeInt64 (ue_InputTokens e),
             uc_OutputTokens := nonNegativeInt64 (ue_OutputTokens e),
             uc_CacheReadTokens := nonNegativeInt64 (ue_CacheReadTokens e),
             uc_CacheWriteTokens := nonNegativeInt64 (ue_CacheWriteTokens e),
             uc_TotalTokens := nonNegativeInt64 (ue_TotalTokens e)\<rparr>)"

definition negateUsageFileDelta :: "usage_counts \<Rightarrow> usage_counts" where
  "negateUsageFileDelta v =
     \<lparr>uc_ProviderCalls = - uc_ProviderCalls v, uc_TurnsTotal = - uc_TurnsTotal v,
      uc_ValidTurnsTotal = - uc_ValidTurnsTotal v, uc_InvalidTurnsTotal = - uc_InvalidTurnsTotal v,
      uc_InputTokens = - uc_InputTokens v, uc_OutputTokens = - uc_OutputTokens v,
      uc_CacheReadTokens = - uc_CacheReadTokens v, uc_CacheWriteTokens = - uc_CacheWriteTokens v,
      uc_TotalTokens = - uc_TotalTokens v\<rparr>"

definition clampNonNegativeInt64 :: "int \<Rightarrow> int" where
  "clampNonNegativeInt64 value = (if value < 0 then 0 else value)"

text \<open>The field-wise clamped addition of the totals and of one day.\<close>

definition applyUsageDailyDelta :: "usage_counts \<Rightarrow> usage_counts \<Rightarrow> usage_counts" where
  "applyUsageDailyDelta t d =
     \<lparr>uc_ProviderCalls = clampNonNegativeInt64 (uc_ProviderCalls t + uc_ProviderCalls d),
      uc_TurnsTotal = clampNonNegativeInt64 (uc_TurnsTotal t + uc_TurnsTotal d),
      uc_ValidTurnsTotal = clampNonNegativeInt64 (uc_ValidTurnsTotal t + uc_ValidTurnsTotal d),
      uc_InvalidTurnsTotal = clampNonNegativeInt64 (uc_InvalidTurnsTotal t + uc_InvalidTurnsTotal d),
      uc_InputTokens = clampNonNegativeInt64 (uc_InputTokens t + uc_InputTokens d),
      uc_OutputTokens = clampNonNegativeInt64 (uc_OutputTokens t + uc_OutputTokens d),
      uc_CacheReadTokens = clampNonNegativeInt64 (uc_CacheReadTokens t + uc_CacheReadTokens d),
      uc_CacheWriteTokens = clampNonNegativeInt64 (uc_CacheWriteTokens t + uc_CacheWriteTokens d),
      uc_TotalTokens = clampNonNegativeInt64 (uc_TotalTokens t + uc_TotalTokens d)\<rparr>"

fun apply_daily :: "string \<Rightarrow> usage_counts \<Rightarrow> (string \<times> usage_counts) list \<Rightarrow> (string \<times> usage_counts) list" where
  "apply_daily date delta [] = [(date, applyUsageDailyDelta zero_counts delta)]"
| "apply_daily date delta ((d, c) # ds) =
     (if d \<noteq> date then (d, c) # apply_daily date delta ds else (d, applyUsageDailyDelta c delta) # ds)"

definition applyUsageFileDelta :: "usageFileDocument \<Rightarrow> gtime \<Rightarrow> usage_counts \<Rightarrow> usageFileDocument" where
  "applyUsageFileDelta doc at delta =
     doc\<lparr>ud_Totals := applyUsageDailyDelta (ud_Totals doc) delta,
         ud_Daily := apply_daily (format_date at) delta (ud_Daily doc)\<rparr>"

subsection \<open>The store\<close>

record UsageFileStore =
  us_path :: string
  us_document :: usageFileDocument
  us_eventIndex :: "(string, usageFileEvent) gomap"
  us_generation :: nat
  us_persisted :: nat
  us_lastError :: "string option"
  us_dirty :: bool

text \<open>
  Loading: an absent file gives the new document, an unreadable one an error, and what was decoded is
  trimmed and normalised.
\<close>

definition readUsageFileDocument ::
  "(string + usageFileDocument) option \<Rightarrow> gtime \<Rightarrow> string + usageFileDocument" where
  "readUsageFileDocument file now =
     (case file of
        None \<Rightarrow> Inr newUsageFileDocument
      | Some (Inl e) \<Rightarrow> Inl e
      | Some (Inr doc) \<Rightarrow>
          Inr (doc\<lparr>ud_SchemaVersion := (if ud_SchemaVersion doc = 0 then 1 else ud_SchemaVersion doc),
                   ud_RecentEvents := map (\<lambda>e. normalizeUsageFileEvent e now)
                      (trimRecentUsageEvents (ud_RecentEvents doc) usageRecentEventLimit)\<rparr>))"

definition NewUsageFileStore :: "string \<Rightarrow> (string + usageFileDocument) option \<Rightarrow> gtime \<Rightarrow> UsageFileStore" where
  "NewUsageFileStore path file now =
     (let base = \<lparr>us_path = path, us_document = newUsageFileDocument, us_eventIndex = [], us_generation = 0,
                  us_persisted = 0, us_lastError = None, us_dirty = False\<rparr>
      in if TrimSpace path = [] then base
         else case readUsageFileDocument file now of
                Inl e \<Rightarrow> base\<lparr>us_lastError := Some e\<rparr>
              | Inr doc \<Rightarrow> base\<lparr>us_document := doc, us_eventIndex := buildUsageEventIndex (ud_RecentEvents doc)\<rparr>)"

definition signalDirty :: "UsageFileStore \<Rightarrow> UsageFileStore" where
  "signalDirty store = store\<lparr>us_dirty := True\<rparr>"

definition UpsertEvent :: "UsageFileStore \<Rightarrow> usageFileEvent \<Rightarrow> gtime \<Rightarrow> UsageFileStore" where
  "UpsertEvent store event0 now =
     (if TrimSpace (us_path store) = [] then store
      else let event = normalizeUsageFileEvent event0 now
           in if ue_EventID event = [] then store
              else let doc0 = us_document store;
                       doc1 = (case map_of (us_eventIndex store) (ue_EventID event) of
                                 None \<Rightarrow> doc0
                               | Some oldEvent \<Rightarrow> applyUsageFileDelta doc0 (ue_At oldEvent)
                                   (negateUsageFileDelta (usageFileEventDelta oldEvent)));
                       doc2 = applyUsageFileDelta doc1 (ue_At event) (usageFileEventDelta event);
                       recent = trimRecentUsageEvents (upsertRecentUsageEvent (ud_RecentEvents doc2) event)
                                  usageRecentEventLimit
                   in signalDirty (store\<lparr>us_document := doc2\<lparr>ud_RecentEvents := recent,
                          ud_SchemaVersion := usageFileSchemaVersion, ud_UpdatedAt := now\<rparr>,
                        us_eventIndex := buildUsageEventIndex recent,
                        us_generation := us_generation store + 1\<rparr>))"

definition zero_event :: "string \<Rightarrow> gtime \<Rightarrow> usageFileEvent" where
  "zero_event i at = \<lparr>ue_EventID = i, ue_Kind = [], ue_Status = [], ue_At = at, ue_InputTokens = 0,
     ue_OutputTokens = 0, ue_CacheReadTokens = 0, ue_CacheWriteTokens = 0, ue_TotalTokens = 0,
     ue_UsagePresent = False, ue_ProviderPass = 0, ue_CompileDurationMS = 0, ue_EstimatedPromptTokens = 0,
     ue_ReplayMessageCount = 0, ue_TTFTMS = 0, ue_DurationMS = 0, ue_CacheReadUsageAvailable = False\<rparr>"

definition event_matches :: "string \<Rightarrow> string \<Rightarrow> bool" where
  "event_matches needle eventID \<longleftrightarrow> eventID = needle \<or> has_prefix eventID (needle @ ''::'')"

text \<open>One round of the loop of \<open>LookupEvent\<close>, on the aggregate so far.\<close>

definition lookup_round :: "string \<Rightarrow> usageFileEvent option \<Rightarrow> usageFileEvent \<Rightarrow> usageFileEvent option" where
  "lookup_round needle acc e =
     (let a0 = (case acc of None \<Rightarrow> zero_event needle (ue_At e) | Some a \<Rightarrow> a);
          a1 = (if ue_At a0 \<le> ue_At e
                then a0\<lparr>ue_At := ue_At e, ue_ProviderPass := ue_ProviderPass e,
                        ue_CompileDurationMS := ue_CompileDurationMS e,
                        ue_EstimatedPromptTokens := ue_EstimatedPromptTokens e,
                        ue_ReplayMessageCount := ue_ReplayMessageCount e, ue_TTFTMS := ue_TTFTMS e,
                        ue_DurationMS := ue_DurationMS e,
                        ue_CacheReadUsageAvailable := ue_CacheReadUsageAvailable e\<rparr>
                else a0)
      in Some (a1\<lparr>ue_InputTokens := ue_InputTokens a1 + nonNegativeInt64 (ue_InputTokens e),
                  ue_OutputTokens := ue_OutputTokens a1 + nonNegativeInt64 (ue_OutputTokens e),
                  ue_CacheReadTokens := ue_CacheReadTokens a1 + nonNegativeInt64 (ue_CacheReadTokens e),
                  ue_CacheWriteTokens := ue_CacheWriteTokens a1 + nonNegativeInt64 (ue_CacheWriteTokens e),
                  ue_TotalTokens := ue_TotalTokens a1 + nonNegativeInt64 (ue_TotalTokens e),
                  ue_UsagePresent := ue_UsagePresent a1 \<or> ue_UsagePresent e\<rparr>))"

fun lookup_events :: "string \<Rightarrow> usageFileEvent option \<Rightarrow> (string, usageFileEvent) gomap \<Rightarrow> usageFileEvent option" where
  "lookup_events needle acc [] = acc"
| "lookup_events needle acc ((k, e) # es) =
     lookup_events needle (if event_matches needle k then lookup_round needle acc e else acc) es"

definition LookupEvent :: "UsageFileStore \<Rightarrow> string \<Rightarrow> usageFileEvent option" where
  "LookupEvent store needle =
     (if TrimSpace (us_path store) = [] \<or> TrimSpace needle = [] then None
      else lookup_events (TrimSpace needle) None (us_eventIndex store))"

subsection \<open>Counters\<close>

definition counts_add :: "usage_counts \<Rightarrow> usage_counts \<Rightarrow> usage_counts" where
  "counts_add a b =
     \<lparr>uc_ProviderCalls = uc_ProviderCalls a + uc_ProviderCalls b, uc_TurnsTotal = uc_TurnsTotal a + uc_TurnsTotal b,
      uc_ValidTurnsTotal = uc_ValidTurnsTotal a + uc_ValidTurnsTotal b,
      uc_InvalidTurnsTotal = uc_InvalidTurnsTotal a + uc_InvalidTurnsTotal b,
      uc_InputTokens = uc_InputTokens a + uc_InputTokens b, uc_OutputTokens = uc_OutputTokens a + uc_OutputTokens b,
      uc_CacheReadTokens = uc_CacheReadTokens a + uc_CacheReadTokens b,
      uc_CacheWriteTokens = uc_CacheWriteTokens a + uc_CacheWriteTokens b,
      uc_TotalTokens = uc_TotalTokens a + uc_TotalTokens b\<rparr>"

definition counts_nonneg :: "usage_counts \<Rightarrow> bool" where
  "counts_nonneg c \<longleftrightarrow> 0 \<le> uc_ProviderCalls c \<and> 0 \<le> uc_TurnsTotal c \<and> 0 \<le> uc_ValidTurnsTotal c \<and>
     0 \<le> uc_InvalidTurnsTotal c \<and> 0 \<le> uc_InputTokens c \<and> 0 \<le> uc_OutputTokens c \<and> 0 \<le> uc_CacheReadTokens c \<and>
     0 \<le> uc_CacheWriteTokens c \<and> 0 \<le> uc_TotalTokens c"

text \<open>What a list of events amounts to: the sum of their contributions.\<close>

fun counts_sum :: "usageFileEvent list \<Rightarrow> usage_counts" where
  "counts_sum [] = zero_counts"
| "counts_sum (e # es) = counts_add (usageFileEventDelta e) (counts_sum es)"

lemmas counts_defs = counts_add_def counts_nonneg_def zero_counts_def applyUsageDailyDelta_def
  negateUsageFileDelta_def clampNonNegativeInt64_def

lemma counts_add_commute: "counts_add a b = counts_add b a"
  by (simp add: counts_defs)

lemma counts_add_left_commute: "counts_add a (counts_add b c) = counts_add b (counts_add a c)"
  by (simp add: counts_defs)

lemma counts_add_assoc: "counts_add (counts_add a b) c = counts_add a (counts_add b c)"
  by (simp add: counts_defs)

lemmas counts_add_ac = counts_add_assoc counts_add_commute counts_add_left_commute

lemma counts_add_zero [simp]: "counts_add zero_counts a = a" "counts_add a zero_counts = a"
  by (simp_all add: counts_defs)

lemma delta_nonneg: "counts_nonneg (usageFileEventDelta e)"
  by (auto simp: usageFileEventDelta_def counts_defs nonNegativeInt64_def Let_def)

lemma counts_sum_nonneg: "counts_nonneg (counts_sum es)"
proof (induction es)
  case (Cons e es)
  with delta_nonneg [of e] show ?case by (simp add: counts_nonneg_def counts_add_def)
qed (simp add: counts_defs)

lemma counts_sum_append [simp]: "counts_sum (xs @ ys) = counts_add (counts_sum xs) (counts_sum ys)"
  by (induction xs) (simp_all add: counts_add_assoc)

lemma counts_sum_remove1:
  "e \<in> set es \<Longrightarrow> counts_sum es = counts_add (usageFileEventDelta e) (counts_sum (remove1 e es))"
  by (induction es) (auto simp: counts_add_left_commute)

lemma apply_delta: "applyUsageDailyDelta (counts_sum es) (usageFileEventDelta e) = counts_sum (e # es)"
  using counts_sum_nonneg [of es] delta_nonneg [of e] by (auto simp: counts_defs)

lemma apply_negated:
  assumes "e \<in> set es"
  shows "applyUsageDailyDelta (counts_sum es) (negateUsageFileDelta (usageFileEventDelta e)) = counts_sum (remove1 e es)"
  unfolding counts_sum_remove1 [OF assms]
  using counts_sum_nonneg [of "remove1 e es"]
  by (auto simp: counts_defs intro!: usage_counts.equality)

subsection \<open>Daily totals\<close>

definition daily_get :: "(string \<times> usage_counts) list \<Rightarrow> string \<Rightarrow> usage_counts" where
  "daily_get ds date = (case map_of ds date of None \<Rightarrow> zero_counts | Some c \<Rightarrow> c)"

lemma map_of_apply_daily:
  "map_of (apply_daily date delta ds) x =
     (if x = date then Some (applyUsageDailyDelta (daily_get ds date) delta) else map_of ds x)"
  by (induction ds) (auto simp: daily_get_def)

lemma apply_daily_keys: "fst ` set (apply_daily date delta ds) = insert date (fst ` set ds)"
proof (induction ds)
  case (Cons p ds)
  then show ?case by (cases p) (auto simp: insert_commute)
qed simp

lemma gomap_ok_apply_daily [simp]: "gomap_ok ds \<Longrightarrow> gomap_ok (apply_daily date delta ds)"
  by (induction ds) (auto simp: apply_daily_keys [unfolded image_def] image_iff apply_daily_keys)

abbreviation on_date :: "string \<Rightarrow> usageFileEvent list \<Rightarrow> usageFileEvent list" where
  "on_date date es \<equiv> filter (\<lambda>e. format_date (ue_At e) = date) es"

text \<open>The document accounts for exactly the events of a ledger: in total and day by day.\<close>

definition accounts_for :: "usageFileDocument \<Rightarrow> usageFileEvent list \<Rightarrow> bool" where
  "accounts_for doc es \<longleftrightarrow> ud_Totals doc = counts_sum es \<and> gomap_ok (ud_Daily doc) \<and>
     (\<forall>date. daily_get (ud_Daily doc) date = counts_sum (on_date date es))"

lemma daily_get_apply:
  "daily_get (apply_daily date delta ds) x =
     (if x = date then applyUsageDailyDelta (daily_get ds date) delta else daily_get ds x)"
  unfolding daily_get_def [of "apply_daily date delta ds"] map_of_apply_daily by (auto simp: daily_get_def)

lemma accounts_for_add:
  assumes "accounts_for doc es"
  shows "accounts_for (applyUsageFileDelta doc (ue_At e) (usageFileEventDelta e)) (e # es)"
  using assms apply_delta by (auto simp: accounts_for_def applyUsageFileDelta_def daily_get_apply)

lemma filter_remove1: "filter P (remove1 x xs) = (if P x then remove1 x (filter P xs) else filter P xs)"
  by (induction xs) auto

lemma accounts_for_remove:
  assumes "accounts_for doc es" "e \<in> set es"
  shows "accounts_for (applyUsageFileDelta doc (ue_At e) (negateUsageFileDelta (usageFileEventDelta e))) (remove1 e es)"
  using assms apply_negated by (auto simp: accounts_for_def applyUsageFileDelta_def daily_get_apply filter_remove1)

subsection \<open>Recent events\<close>

definition recent_ok :: "usageFileEvent list \<Rightarrow> bool" where
  "recent_ok es \<longleftrightarrow> distinct (map ue_EventID es) \<and> int (length es) \<le> usageRecentEventLimit \<and>
     (\<forall>e \<in> set es. ue_EventID e \<noteq> [] \<and> TrimSpace (ue_EventID e) = ue_EventID e \<and>
        normalizeUsageEventKind (ue_Kind e) = ue_Kind e)"

lemma index_events_lookup:
  assumes "distinct (map ue_EventID es)"
    and "\<forall>e \<in> set es. ue_EventID e \<noteq> [] \<and> TrimSpace (ue_EventID e) = ue_EventID e \<and>
        normalizeUsageEventKind (ue_Kind e) = ue_Kind e"
  shows "map_of (index_events idx es) k = Some e \<longleftrightarrow>
    (e \<in> set es \<and> ue_EventID e = k) \<or> (k \<notin> ue_EventID ` set es \<and> map_of idx k = Some e)"
  using assms
proof (induction es arbitrary: idx)
  case (Cons x es)
  have x: "x\<lparr>ue_EventID := ue_EventID x, ue_Kind := ue_Kind x\<rparr> = x" "x\<lparr>ue_EventID := ue_EventID x\<rparr> = x" by simp_all
  have "map_of (index_events idx (x # es)) k = map_of (index_events (AList.update (ue_EventID x) x idx) es) k"
    using Cons.prems(2) by (simp add: Let_def)
  also have "\<dots> = Some e \<longleftrightarrow> (e \<in> set es \<and> ue_EventID e = k) \<or>
      (k \<notin> ue_EventID ` set es \<and> map_of (AList.update (ue_EventID x) x idx) k = Some e)"
    using Cons by simp
  finally show ?case using Cons.prems(1) by (auto simp: map_of_update_gomap)
qed simp

lemma gomap_ok_index_events: "gomap_ok idx \<Longrightarrow> gomap_ok (index_events idx es)"
  by (induction idx es rule: index_events.induct) (simp_all add: Let_def)

lemma index_lookup:
  "recent_ok es \<Longrightarrow> map_of (buildUsageEventIndex es) k = Some e \<longleftrightarrow> e \<in> set es \<and> ue_EventID e = k"
  by (simp add: buildUsageEventIndex_def index_events_lookup recent_ok_def)

lemma filter_id_remove1:
  "\<lbrakk>distinct (map ue_EventID es); old \<in> set es\<rbrakk> \<Longrightarrow>
     filter (\<lambda>x. ue_EventID x \<noteq> ue_EventID old) es = remove1 old es"
proof (induction es)
  case (Cons x es)
  then show ?case
    by (cases "x = old") (auto intro!: filter_True simp: image_iff)
qed simp

lemma upsert_recent_ok:
  assumes "recent_ok es" "ue_EventID e \<noteq> []" "TrimSpace (ue_EventID e) = ue_EventID e"
    and "normalizeUsageEventKind (ue_Kind e) = ue_Kind e"
  shows "recent_ok (trimRecentUsageEvents (upsertRecentUsageEvent es e) usageRecentEventLimit)"
proof -
  let ?u = "upsertRecentUsageEvent es e"
  have u: "?u = e # filter (\<lambda>x. ue_EventID x \<noteq> ue_EventID e) es"
    using assms by (auto simp: upsertRecentUsageEvent_def Let_def recent_ok_def intro!: filter_cong)
  have "distinct (map ue_EventID ?u)" unfolding u using assms(1)
    by (auto simp: recent_ok_def distinct_map_filter)
  moreover have "\<forall>x \<in> set ?u. ue_EventID x \<noteq> [] \<and> TrimSpace (ue_EventID x) = ue_EventID x \<and>
      normalizeUsageEventKind (ue_Kind x) = ue_Kind x"
    unfolding u using assms by (auto simp: recent_ok_def)
  ultimately show ?thesis
    by (auto simp: recent_ok_def trimRecentUsageEvents_def usageRecentEventLimit_def take_map [symmetric]
        dest: in_set_takeD)
qed

subsection \<open>The store implements a ledger\<close>

text \<open>
  The specification: the events counted so far, split into the recent ones, which an event with the
  same id replaces, and the archived ones, which nothing replaces any more.
\<close>

definition ledger_upsert ::
  "usageFileEvent \<Rightarrow> usageFileEvent list \<times> usageFileEvent list \<Rightarrow> usageFileEvent list \<times> usageFileEvent list" where
  "ledger_upsert e l =
     (case l of (recent, archived) \<Rightarrow>
        (let merged = e # filter (\<lambda>x. ue_EventID x \<noteq> ue_EventID e) recent
         in (take (nat usageRecentEventLimit) merged, drop (nat usageRecentEventLimit) merged @ archived)))"

definition store_ok :: "UsageFileStore \<Rightarrow> usageFileEvent list \<times> usageFileEvent list \<Rightarrow> bool" where
  "store_ok store l \<longleftrightarrow> TrimSpace (us_path store) \<noteq> [] \<and> ud_RecentEvents (us_document store) = fst l \<and>
     recent_ok (fst l) \<and> us_eventIndex store = buildUsageEventIndex (fst l) \<and>
     accounts_for (us_document store) (fst l @ snd l)"

lemma applyUsageFileDelta_recent [simp]:
  "ud_RecentEvents (applyUsageFileDelta doc at d) = ud_RecentEvents doc"
  by (simp add: applyUsageFileDelta_def)

lemma accounts_for_frame [simp]:
  "accounts_for (doc\<lparr>ud_RecentEvents := r, ud_SchemaVersion := v, ud_UpdatedAt := t\<rparr>) es = accounts_for doc es"
  by (simp add: accounts_for_def)

lemma normalize_props [simp]:
  "ue_EventID (normalizeUsageFileEvent e now) = TrimSpace (ue_EventID e)"
  "normalizeUsageEventKind (ue_Kind (normalizeUsageFileEvent e now)) = ue_Kind (normalizeUsageFileEvent e now)"
proof -
  have k: "TrimSpace usageEventKindTurn = usageEventKindTurn" "TrimSpace usageEventKindProvider \<noteq> usageEventKindTurn"
    by code_simp+
  show "ue_EventID (normalizeUsageFileEvent e now) = TrimSpace (ue_EventID e)"
    by (simp add: normalizeUsageFileEvent_def Let_def)
  show "normalizeUsageEventKind (ue_Kind (normalizeUsageFileEvent e now)) = ue_Kind (normalizeUsageFileEvent e now)"
    using k by (auto simp: normalizeUsageFileEvent_def Let_def normalizeUsageEventKind_def)
qed

lemma accounts_for_upsert:
  assumes ok: "store_ok store (R, A)"
    and merged: "merged = filter (\<lambda>x. ue_EventID x \<noteq> k) R"
  shows "accounts_for (case map_of (us_eventIndex store) k of None \<Rightarrow> us_document store
      | Some old \<Rightarrow> applyUsageFileDelta (us_document store) (ue_At old)
          (negateUsageFileDelta (usageFileEventDelta old))) (merged @ A)"
proof -
  have R: "recent_ok R" and I: "us_eventIndex store = buildUsageEventIndex R"
    and acc: "accounts_for (us_document store) (R @ A)"
    using ok by (auto simp: store_ok_def)
  show ?thesis
  proof (cases "map_of (us_eventIndex store) k")
    case None
    have "ue_EventID x \<noteq> k" if "x \<in> set R" for x
      using index_lookup [OF R, of k x] None that by (auto simp: I)
    then have "merged = R" unfolding merged by (auto intro: filter_True)
    with None acc show ?thesis by simp
  next
    case (Some old)
    then have old: "old \<in> set R" "ue_EventID old = k" using index_lookup [OF R, of k old] by (auto simp: I)
    then have "remove1 old (R @ A) = merged @ A"
      using filter_id_remove1 [of R old] R by (simp add: merged remove1_append recent_ok_def)
    with accounts_for_remove [OF acc, of old] old Some show ?thesis by simp
  qed
qed

lemma UpsertEvent_blank: "TrimSpace (ue_EventID e) = [] \<Longrightarrow> UpsertEvent store e now = store"
  by (simp add: UpsertEvent_def Let_def)

lemma store_ok_upsert:
  assumes ok: "store_ok store l" and nb: "TrimSpace (ue_EventID e) \<noteq> []"
  shows "store_ok (UpsertEvent store e now) (ledger_upsert (normalizeUsageFileEvent e now) l)"
proof -
  obtain R A where l: "l = (R, A)" by (cases l)
  let ?e = "normalizeUsageFileEvent e now"
  let ?m = "?e # filter (\<lambda>x. ue_EventID x \<noteq> ue_EventID ?e) R"
  let ?t = "trimRecentUsageEvents (upsertRecentUsageEvent R ?e) usageRecentEventLimit"
  have R: "recent_ok R" "ud_RecentEvents (us_document store) = R" "TrimSpace (us_path store) \<noteq> []"
    using ok l by (auto simp: store_ok_def)
  have u: "upsertRecentUsageEvent R ?e = ?m"
    using R nb by (auto simp: upsertRecentUsageEvent_def Let_def recent_ok_def intro!: filter_cong)
  have t: "?t = take (nat usageRecentEventLimit) ?m"
    unfolding u by (simp add: trimRecentUsageEvents_def usageRecentEventLimit_def)
  have acc: "accounts_for (applyUsageFileDelta (case map_of (us_eventIndex store) (ue_EventID ?e) of
        None \<Rightarrow> us_document store
      | Some old \<Rightarrow> applyUsageFileDelta (us_document store) (ue_At old)
          (negateUsageFileDelta (usageFileEventDelta old))) (ue_At ?e) (usageFileEventDelta ?e)) (?m @ A)"
    using accounts_for_add [OF accounts_for_upsert [OF ok [unfolded l] refl, of "ue_EventID ?e"], of ?e] by simp
  have rec: "ud_RecentEvents (case map_of (us_eventIndex store) (TrimSpace (ue_EventID e)) of
        None \<Rightarrow> us_document store
      | Some old \<Rightarrow> applyUsageFileDelta (us_document store) (ue_At old)
          (negateUsageFileDelta (usageFileEventDelta old))) = R"
    using R by (simp split: option.splits)
  have "recent_ok ?t" using upsert_recent_ok [OF R(1), of ?e] nb by simp
  then show ?thesis
    using acc R nb
    by (simp add: store_ok_def l ledger_upsert_def Let_def UpsertEvent_def signalDirty_def rec t
        append_take_drop_id append_assoc [symmetric] del: append_assoc)
qed

fun upsert_all :: "UsageFileStore \<Rightarrow> (usageFileEvent \<times> gtime) list \<Rightarrow> UsageFileStore" where
  "upsert_all store [] = store"
| "upsert_all store ((e, now) # es) = upsert_all (UpsertEvent store e now) es"

fun ledger_all ::
  "usageFileEvent list \<times> usageFileEvent list \<Rightarrow> (usageFileEvent \<times> gtime) list \<Rightarrow>
   usageFileEvent list \<times> usageFileEvent list" where
  "ledger_all l [] = l"
| "ledger_all l ((e, now) # es) =
     ledger_all (if TrimSpace (ue_EventID e) = [] then l else ledger_upsert (normalizeUsageFileEvent e now) l) es"

lemma store_ok_run: "store_ok store l \<Longrightarrow> store_ok (upsert_all store es) (ledger_all l es)"
proof (induction es arbitrary: store l)
  case (Cons x es)
  obtain e now where x: "x = (e, now)" by (cases x)
  show ?case
  proof (cases "TrimSpace (ue_EventID e) = []")
    case True
    with Cons x show ?thesis by (simp add: UpsertEvent_blank)
  next
    case False
    with Cons.IH [OF store_ok_upsert [OF Cons.prems False]] x show ?thesis by simp
  qed
qed simp

lemma store_ok_new: "TrimSpace path \<noteq> [] \<Longrightarrow> store_ok (NewUsageFileStore path None now) ([], [])"
  by (simp add: store_ok_def NewUsageFileStore_def readUsageFileDocument_def newUsageFileDocument_def
      accounts_for_def recent_ok_def usageRecentEventLimit_def buildUsageEventIndex_def daily_get_def Let_def)



text \<open>The version of an event id that was upserted last.\<close>

definition last_version :: "(usageFileEvent \<times> gtime) list \<Rightarrow> string \<Rightarrow> usageFileEvent option" where
  "last_version es k =
     map_of (rev (map (\<lambda>(e, now). (TrimSpace (ue_EventID e), normalizeUsageFileEvent e now)) es)) k"

abbreviation upserted_ids :: "(usageFileEvent \<times> gtime) list \<Rightarrow> string set" where
  "upserted_ids es \<equiv> (\<lambda>(e, now). TrimSpace (ue_EventID e)) ` set es"

lemma last_version_snoc:
  "last_version (es @ [(e, now)]) k =
     (if k = TrimSpace (ue_EventID e) then Some (normalizeUsageFileEvent e now) else last_version es k)"
  by (simp add: last_version_def)

lemma ledger_all_snoc:
  "ledger_all l (es @ [(e, now)]) =
     (if TrimSpace (ue_EventID e) = [] then ledger_all l es
      else ledger_upsert (normalizeUsageFileEvent e now) (ledger_all l es))"
  by (induction l es rule: ledger_all.induct) auto

lemma ledger_without_eviction:
  assumes "card (upserted_ids es) \<le> nat usageRecentEventLimit"
  shows "\<exists>R. ledger_all ([], []) es = (R, []) \<and> distinct (map ue_EventID R) \<and>
    (\<forall>e. e \<in> set R \<longleftrightarrow> ue_EventID e \<noteq> [] \<and> last_version es (ue_EventID e) = Some e)"
  using assms
proof (induction es rule: rev_induct)
  case Nil
  then show ?case by (simp add: last_version_def)
next
  case (snoc x es)
  obtain e now where x: "x = (e, now)" by (cases x)
  have sub: "upserted_ids es \<subseteq> upserted_ids (es @ [x])" by auto
  have "card (upserted_ids es) \<le> card (upserted_ids (es @ [x]))" by (intro card_mono sub) simp
  with snoc obtain R where R: "ledger_all ([], []) es = (R, [])" "distinct (map ue_EventID R)"
    "\<And>e. e \<in> set R \<longleftrightarrow> ue_EventID e \<noteq> [] \<and> last_version es (ue_EventID e) = Some e" by auto
  show ?case
  proof (cases "TrimSpace (ue_EventID e) = []")
    case True
    with R show ?thesis by (auto simp: x ledger_all_snoc last_version_snoc)
  next
    case False
    let ?n = "normalizeUsageFileEvent e now"
    let ?m = "?n # filter (\<lambda>y. ue_EventID y \<noteq> ue_EventID ?n) R"
    have d: "distinct (map ue_EventID ?m)" using R(2) by (auto simp: distinct_map_filter)
    have "ue_EventID ` set R \<subseteq> upserted_ids es"
      by (auto simp: R(3) last_version_def dest!: map_of_SomeD) (metis (mono_tags, lifting) image_eqI case_prod_conv)
    then have "set (map ue_EventID ?m) \<subseteq> upserted_ids (es @ [x])" by (auto simp: x)
    then have "card (set (map ue_EventID ?m)) \<le> nat usageRecentEventLimit"
      using snoc.prems card_mono [of "upserted_ids (es @ [x])"] by (meson List.finite_set finite_imageI le_trans)
    then have "length ?m \<le> nat usageRecentEventLimit" using distinct_card [OF d] by simp
    then have "ledger_all ([], []) (es @ [x]) = (?m, [])"
      using R(1) False by (simp add: x ledger_all_snoc ledger_upsert_def Let_def)
    moreover have "y \<in> set ?m \<longleftrightarrow> ue_EventID y \<noteq> [] \<and> last_version (es @ [x]) (ue_EventID y) = Some y" for y
      using False by (auto simp: x last_version_snoc R(3))
    ultimately show ?thesis using d by blast
  qed
qed

text \<open>
  As long as no more than 500 distinct event ids were upserted, every event is counted exactly
  once, in its last version: the recent events are the last version of each id, and the totals are
  the sum over them.
\<close>

theorem usage_counts_last_versions:
  assumes "TrimSpace path \<noteq> []" "card (upserted_ids es) \<le> 500"
    and "doc = us_document (upsert_all (NewUsageFileStore path None start) es)"
  shows "ud_Totals doc = counts_sum (ud_RecentEvents doc) \<and> distinct (map ue_EventID (ud_RecentEvents doc)) \<and>
    (\<forall>e. e \<in> set (ud_RecentEvents doc) \<longleftrightarrow> ue_EventID e \<noteq> [] \<and> last_version es (ue_EventID e) = Some e)"
proof -
  obtain R where "ledger_all ([], []) es = (R, [])" "distinct (map ue_EventID R)"
    "\<forall>e. e \<in> set R \<longleftrightarrow> ue_EventID e \<noteq> [] \<and> last_version es (ue_EventID e) = Some e"
    using ledger_without_eviction [of es] assms(2) by (auto simp: usageRecentEventLimit_def)
  with store_ok_run [OF store_ok_new [OF assms(1)], of start es] assms(3) show ?thesis
    by (simp add: store_ok_def accounts_for_def)
qed

theorem usage_counts_last_versions_witness:
  "card (upserted_ids [(zero_event ''a'' 5, 6), (zero_event ''a'' 8, 9)]) \<le> 500 \<and>
   distinct (map ue_EventID (ud_RecentEvents (us_document (upsert_all (NewUsageFileStore ''usage'' None 1)
     [(zero_event ''a'' 5, 6), (zero_event ''a'' 8, 9)]))))"
proof -
  have u: "TrimSpace ''usage'' \<noteq> []" by code_simp
  have c: "card (upserted_ids [(zero_event ''a'' 5, 6), (zero_event ''a'' 8, 9)]) \<le> 500"
    by (simp add: card_insert_if)
  show ?thesis using usage_counts_last_versions [OF u c refl, of 1] c by blast
qed

subsection \<open>Persistence\<close>

text \<open>
  The loop of \<open>flushDirty\<close> as a step relation, interleaved with upserts: \<open>writeMu\<close> admits one flusher,
  which checks the generation and takes a snapshot under the store's lock, writes the file without
  it, and commits the generation under it again. A failed write ends the flush with the error.
\<close>

datatype flush_pc =
    FlushIdle
  | FlushCheck
  | FlushWrite nat usageFileDocument
  | FlushCommit nat
  | FlushDone "string option"

record usage_sys =
  sy_store :: UsageFileStore
  sy_file :: "usageFileDocument option"
  sy_pc :: flush_pc

definition flush_check :: "UsageFileStore \<Rightarrow> flush_pc" where
  "flush_check store =
     (if us_persisted store = us_generation store then FlushDone None
      else FlushWrite (us_generation store) (us_document store))"

definition flush_failed :: "UsageFileStore \<Rightarrow> string \<Rightarrow> UsageFileStore" where
  "flush_failed store e = store\<lparr>us_lastError := Some e\<rparr>"

definition flush_commit :: "UsageFileStore \<Rightarrow> nat \<Rightarrow> UsageFileStore \<times> flush_pc" where
  "flush_commit store generation =
     (let s1 = store\<lparr>us_lastError := None,
                 us_persisted := (if us_persisted store < generation then generation else us_persisted store)\<rparr>
      in (s1, if us_persisted s1 = us_generation s1 then FlushDone None else FlushCheck))"

inductive usage_step :: "usage_sys \<Rightarrow> usage_sys \<Rightarrow> bool" where
  upsert: "usage_step y (y\<lparr>sy_store := UpsertEvent (sy_store y) e now\<rparr>)"
| consume: "usage_step y (y\<lparr>sy_store := (sy_store y)\<lparr>us_dirty := False\<rparr>\<rparr>)"
| enter: "sy_pc y = FlushIdle \<Longrightarrow> usage_step y (y\<lparr>sy_pc := FlushCheck\<rparr>)"
| check: "sy_pc y = FlushCheck \<Longrightarrow> usage_step y (y\<lparr>sy_pc := flush_check (sy_store y)\<rparr>)"
| write_ok: "sy_pc y = FlushWrite g d \<Longrightarrow> usage_step y (y\<lparr>sy_file := Some d, sy_pc := FlushCommit g\<rparr>)"
| write_fails: "sy_pc y = FlushWrite g d \<Longrightarrow>
    usage_step y (y\<lparr>sy_store := flush_failed (sy_store y) e, sy_pc := FlushDone (Some e)\<rparr>)"
| commit: "sy_pc y = FlushCommit g \<Longrightarrow>
    usage_step y (y\<lparr>sy_store := fst (flush_commit (sy_store y) g), sy_pc := snd (flush_commit (sy_store y) g)\<rparr>)"
| leave: "sy_pc y = FlushDone r \<Longrightarrow> usage_step y (y\<lparr>sy_pc := FlushIdle\<rparr>)"

inductive usage_start :: "usage_sys \<Rightarrow> bool" where
  "usage_start \<lparr>sy_store = NewUsageFileStore path file now, sy_file = f, sy_pc = FlushIdle\<rparr>"

text \<open>The generation a document was current at: what a snapshot and the file hold is not newer.\<close>

definition usage_inv :: "usage_sys \<Rightarrow> bool" where
  "usage_inv y \<longleftrightarrow> us_persisted (sy_store y) \<le> us_generation (sy_store y) \<and>
     (us_persisted (sy_store y) = us_generation (sy_store y) \<and> 0 < us_generation (sy_store y) \<longrightarrow>
        sy_file y = Some (us_document (sy_store y))) \<and>
     (case sy_pc y of
        FlushWrite g d \<Rightarrow> us_persisted (sy_store y) < g \<and> g \<le> us_generation (sy_store y) \<and>
          (g = us_generation (sy_store y) \<longrightarrow> d = us_document (sy_store y))
      | FlushCommit g \<Rightarrow> us_persisted (sy_store y) < g \<and> g \<le> us_generation (sy_store y) \<and>
          (g = us_generation (sy_store y) \<longrightarrow> sy_file y = Some (us_document (sy_store y)))
      | _ \<Rightarrow> True)"

lemma UpsertEvent_generation:
  "UpsertEvent store e now = store \<or>
   (us_generation (UpsertEvent store e now) = Suc (us_generation store) \<and>
    us_persisted (UpsertEvent store e now) = us_persisted store \<and> us_dirty (UpsertEvent store e now))"
  by (simp add: UpsertEvent_def Let_def signalDirty_def)

lemma usage_inv_upsert: "usage_inv y \<Longrightarrow> usage_inv (y\<lparr>sy_store := UpsertEvent (sy_store y) e now\<rparr>)"
  using UpsertEvent_generation [of "sy_store y" e now]
  by (cases "sy_pc y") (auto simp: usage_inv_def)

interpretation usage: invariant_of usage_start usage_step usage_inv
proof unfold_locales
  fix y assume "usage_start y"
  then show "usage_inv y"
    by cases (auto simp: usage_inv_def NewUsageFileStore_def Let_def split: sum.splits)
next
  fix y z assume inv: "usage_inv y" and "usage_step y z"
  from this(2) show "usage_inv z"
  proof cases
    case (upsert e now)
    with inv show ?thesis by (simp add: usage_inv_upsert)
  qed (use inv in \<open>auto simp: usage_inv_def flush_check_def flush_failed_def flush_commit_def Let_def
        split: flush_pc.splits\<close>)
qed

text \<open>
  C11. A flush that reports success has saved everything: whenever the flusher of a reachable state
  commits or finds nothing to do and the generation is saved, the file holds the document as it is
  at that moment, whatever upserts ran during the write.
\<close>

theorem flush_success_is_durable:
  assumes "reach usage_start usage_step y" "usage_step y z" "sy_pc z = FlushDone None"
    and "sy_pc y = FlushCheck \<or> sy_pc y = FlushCommit g" "0 < us_generation (sy_store z)"
  shows "sy_file z = Some (us_document (sy_store z))"
proof -
  have "reach usage_start usage_step z" using assms(1,2) by (rule reach_step)
  then have inv: "usage_inv z" by (rule usage.inv_reach)
  from assms(2-4) have "us_persisted (sy_store z) = us_generation (sy_store z)"
    by cases (auto simp: flush_check_def flush_commit_def Let_def split: if_splits)
  with inv assms(5) show ?thesis by (simp add: usage_inv_def)
qed

text \<open>A run of the flusher after one upsert.\<close>

definition demo_store :: UsageFileStore where
  "demo_store = UpsertEvent (NewUsageFileStore ''usage'' None 1) (zero_event ''a'' 5) 6"

definition demo_usage :: "usageFileDocument option \<Rightarrow> flush_pc \<Rightarrow> usage_sys" where
  "demo_usage f pc = \<lparr>sy_store = demo_store, sy_file = f, sy_pc = pc\<rparr>"

lemma demo_generation: "us_generation demo_store = 1" "us_persisted demo_store = 0"
proof -
  have "TrimSpace ''usage'' = ''usage''" "TrimSpace ''a'' = ''a''" by code_simp+
  then show "us_generation demo_store = 1" "us_persisted demo_store = 0"
    by (simp_all add: demo_store_def UpsertEvent_def NewUsageFileStore_def readUsageFileDocument_def
        signalDirty_def Let_def zero_event_def)
qed

lemma demo_check: "reach usage_start usage_step (demo_usage None FlushCheck)"
proof -
  let ?y = "\<lparr>sy_store = NewUsageFileStore ''usage'' None 1, sy_file = None, sy_pc = FlushIdle\<rparr>"
  have "reach usage_start usage_step ?y" by (rule reach_start) (rule usage_start.intros)
  moreover have "usage_step ?y (demo_usage None FlushIdle)"
    using upsert [of ?y "zero_event ''a'' 5" 6] by (simp add: demo_usage_def demo_store_def)
  ultimately have "reach usage_start usage_step (demo_usage None FlushIdle)" by (rule reach_step)
  moreover have "usage_step (demo_usage None FlushIdle) (demo_usage None FlushCheck)"
    using enter [of "demo_usage None FlushIdle"] by (simp add: demo_usage_def)
  ultimately show ?thesis by (rule reach_step)
qed

lemma demo_commit:
  "reach usage_start usage_step (demo_usage (Some (us_document demo_store)) (FlushCommit 1))"
proof -
  let ?w = "demo_usage None (FlushWrite 1 (us_document demo_store))"
  have "usage_step (demo_usage None FlushCheck) ?w"
    using check [of "demo_usage None FlushCheck"] by (simp add: demo_usage_def flush_check_def demo_generation)
  with demo_check have "reach usage_start usage_step ?w" by (rule reach_step)
  moreover have "usage_step ?w (demo_usage (Some (us_document demo_store)) (FlushCommit 1))"
    using write_ok [of ?w 1 "us_document demo_store"] by (simp add: demo_usage_def)
  ultimately show ?thesis by (rule reach_step)
qed

theorem flush_success_is_durable_witness:
  "\<exists>z. usage_step (demo_usage (Some (us_document demo_store)) (FlushCommit 1)) z \<and>
     sy_file z = Some (us_document (sy_store z)) \<and> us_lastError (sy_store z) = None"
proof -
  let ?y = "demo_usage (Some (us_document demo_store)) (FlushCommit 1)"
  let ?z = "?y\<lparr>sy_store := fst (flush_commit (sy_store ?y) 1), sy_pc := snd (flush_commit (sy_store ?y) 1)\<rparr>"
  have st: "usage_step ?y ?z" by (rule commit) (simp add: demo_usage_def)
  have "sy_pc ?z = FlushDone None" "0 < us_generation (sy_store ?z)" "sy_pc ?y = FlushCommit 1"
    "us_lastError (sy_store ?z) = None"
    by (simp_all add: demo_usage_def flush_commit_def Let_def demo_generation)
  then show ?thesis using flush_success_is_durable [OF demo_commit st] st by blast
qed

text \<open>
  C14. A flush nobody disturbs ends: from the check of a reachable state, when the write succeeds,
  the flusher reaches success in three steps at most, with the document unchanged and saved.
\<close>

theorem flush_completes:
  assumes "reach usage_start usage_step y" "sy_pc y = FlushCheck"
  shows "\<exists>n \<le> 3. \<exists>z. (usage_step ^^ n) y z \<and> sy_pc z = FlushDone None \<and>
    us_document (sy_store z) = us_document (sy_store y) \<and> us_persisted (sy_store z) = us_generation (sy_store z)"
proof (cases "us_persisted (sy_store y) = us_generation (sy_store y)")
  case True
  let ?z = "y\<lparr>sy_pc := flush_check (sy_store y)\<rparr>"
  have "(usage_step ^^ 1) y ?z" using check [OF assms(2)] by (simp only: relpowp_1)
  with True show ?thesis by (intro exI [of _ 1] conjI exI [of _ ?z]) (simp_all add: flush_check_def)
next
  case False
  let ?g = "us_generation (sy_store y)" and ?d = "us_document (sy_store y)"
  let ?a = "y\<lparr>sy_pc := FlushWrite ?g ?d\<rparr>"
  let ?b = "?a\<lparr>sy_file := Some ?d, sy_pc := FlushCommit ?g\<rparr>"
  let ?c = "?b\<lparr>sy_store := fst (flush_commit (sy_store ?b) ?g), sy_pc := snd (flush_commit (sy_store ?b) ?g)\<rparr>"
  have lt: "us_persisted (sy_store y) < ?g"
    using False usage.inv_reach [OF assms(1)] by (simp add: usage_inv_def)
  have "usage_step y ?a" using check [OF assms(2)] False by (simp add: flush_check_def)
  moreover have "usage_step ?a ?b" by (rule write_ok) simp
  moreover have "usage_step ?b ?c" by (rule commit) simp
  ultimately have "(usage_step ^^ 3) y ?c" by (simp only: numeral_3_eq_3 relpowp.simps) blast
  with lt show ?thesis by (intro exI [of _ 3] conjI exI [of _ ?c]) (simp_all add: flush_commit_def Let_def)
qed

theorem flush_completes_witness:
  "\<exists>n \<le> 3. \<exists>z. (usage_step ^^ n) (demo_usage None FlushCheck) z \<and> sy_pc z = FlushDone None"
  using flush_completes [OF demo_check] by (auto simp: demo_usage_def)

subsection \<open>Lookup\<close>

text \<open>The events an id stands for: its own and those of its numbered passes.\<close>

abbreviation matching :: "string \<Rightarrow> (string, usageFileEvent) gomap \<Rightarrow> usageFileEvent list" where
  "matching needle idx \<equiv> map snd (filter (\<lambda>(k, e). event_matches needle k) idx)"

abbreviation tokens_of :: "(usageFileEvent \<Rightarrow> int) \<Rightarrow> usageFileEvent list \<Rightarrow> int" where
  "tokens_of field es \<equiv> sum_list (map (\<lambda>e. nonNegativeInt64 (field e)) es)"

lemma lookup_events_fold:
  "lookup_events needle acc idx = fold (\<lambda>e acc. lookup_round needle acc e) (matching needle idx) acc"
  by (induction needle acc idx rule: lookup_events.induct) simp_all

lemma lookup_rounds:
  "\<exists>b. fold (\<lambda>e acc. lookup_round needle acc e) es (Some a) = Some b \<and>
     ue_InputTokens b = ue_InputTokens a + tokens_of ue_InputTokens es \<and>
     ue_OutputTokens b = ue_OutputTokens a + tokens_of ue_OutputTokens es \<and>
     ue_CacheReadTokens b = ue_CacheReadTokens a + tokens_of ue_CacheReadTokens es \<and>
     ue_CacheWriteTokens b = ue_CacheWriteTokens a + tokens_of ue_CacheWriteTokens es \<and>
     ue_TotalTokens b = ue_TotalTokens a + tokens_of ue_TotalTokens es \<and>
     ue_EventID b = ue_EventID a \<and> ue_At b = fold max (map ue_At es) (ue_At a)"
proof (induction es arbitrary: a)
  case (Cons e es)
  obtain a' where a': "lookup_round needle (Some a) e = Some a'" by (simp add: lookup_round_def Let_def)
  then have f: "ue_InputTokens a' = ue_InputTokens a + nonNegativeInt64 (ue_InputTokens e)"
    "ue_OutputTokens a' = ue_OutputTokens a + nonNegativeInt64 (ue_OutputTokens e)"
    "ue_CacheReadTokens a' = ue_CacheReadTokens a + nonNegativeInt64 (ue_CacheReadTokens e)"
    "ue_CacheWriteTokens a' = ue_CacheWriteTokens a + nonNegativeInt64 (ue_CacheWriteTokens e)"
    "ue_TotalTokens a' = ue_TotalTokens a + nonNegativeInt64 (ue_TotalTokens e)"
    "ue_EventID a' = ue_EventID a" "ue_At a' = max (ue_At e) (ue_At a)"
    by (auto simp: lookup_round_def Let_def max_def)
  with Cons [of a'] a' show ?case by (simp add: add.assoc)
qed simp

lemma lookup_round_None: "lookup_round needle None e = lookup_round needle (Some (zero_event needle (ue_At e))) e"
  by (simp add: lookup_round_def)

text \<open>
  A lookup finds an id exactly when an event of that id or of one of its passes is recent, and
  then sums all of them, whatever order the index is walked in, and carries the latest time.
\<close>

theorem lookup_sums_matching_events:
  assumes "TrimSpace (us_path store) \<noteq> []" "TrimSpace needle \<noteq> []"
    and "es = matching (TrimSpace needle) (us_eventIndex store)"
  shows "case LookupEvent store needle of
      None \<Rightarrow> es = []
    | Some b \<Rightarrow> es \<noteq> [] \<and> ue_EventID b = TrimSpace needle \<and> ue_At b = Max (ue_At ` set es) \<and>
        ue_InputTokens b = tokens_of ue_InputTokens es \<and> ue_OutputTokens b = tokens_of ue_OutputTokens es \<and>
        ue_CacheReadTokens b = tokens_of ue_CacheReadTokens es \<and>
        ue_CacheWriteTokens b = tokens_of ue_CacheWriteTokens es \<and> ue_TotalTokens b = tokens_of ue_TotalTokens es"
proof -
  have L: "LookupEvent store needle = fold (\<lambda>e acc. lookup_round (TrimSpace needle) acc e) es None"
    using assms by (simp add: LookupEvent_def lookup_events_fold)
  show ?thesis
  proof (cases es)
    case Nil
    with L show ?thesis by simp
  next
    case (Cons e es')
    let ?z = "zero_event (TrimSpace needle) (ue_At e)"
    have "LookupEvent store needle = fold (\<lambda>e acc. lookup_round (TrimSpace needle) acc e) es (Some ?z)"
      using L by (simp add: Cons lookup_round_None)
    moreover have "fold max (map ue_At es) (ue_At e) = Max (ue_At ` set es)"
      using Max.set_eq_fold [of "ue_At e" "map ue_At es"] by (simp add: Cons)
    ultimately show ?thesis
      using lookup_rounds [of "TrimSpace needle" es ?z] by (auto simp: zero_event_def Cons)
  qed
qed

theorem lookup_sums_matching_events_witness:
  "map_option ue_EventID (LookupEvent demo_store ''a'') = Some ''a''"
proof -
  have t: "TrimSpace ''usage'' = ''usage''" "TrimSpace ''a'' = ''a''" by code_simp+
  have p: "TrimSpace (us_path demo_store) \<noteq> []"
    by (simp add: demo_store_def UpsertEvent_def NewUsageFileStore_def readUsageFileDocument_def
        signalDirty_def Let_def t)
  have m: "matching ''a'' (us_eventIndex demo_store) \<noteq> []"
    by (simp add: demo_store_def UpsertEvent_def NewUsageFileStore_def readUsageFileDocument_def
        newUsageFileDocument_def signalDirty_def Let_def t zero_event_def upsertRecentUsageEvent_def
        applyUsageFileDelta_def trimRecentUsageEvents_def usageRecentEventLimit_def buildUsageEventIndex_def
        event_matches_def)
  show ?thesis
    using lookup_sums_matching_events [OF p _ refl, of "''a''"] m by (simp add: t split: option.splits)
qed

end
