(* ===== verification/Turn_Memory.thy ===== *)
theory Turn_Memory
  imports Checkpoint_Sync History_Store Usage_Store
begin

text \<open>
  What a turn keeps of its conversation: the copy in the stream and the record in the store
  (\<open>checkpoint_memory.go\<close>, \<open>runtime_summary.go\<close>), the entries it writes (\<open>service.go\<close>), and the usage it
  records (\<open>token_usage.go\<close>). Every write goes to the store and the copy in the stream together.
\<close>

subsection \<open>State\<close>

datatype turn_error =
    StreamError fwd_error
  | StoreError store_error
  | CheckpointNotInitialized
  | EmptyProjection
  | ProviderInterrupted
  | ProviderTerminal turn_error
  | CodedError string string
  | OtherError string
  | Wrapped string turn_error

text \<open>
  The state of a turn together with the services it writes to. \<open>w_io\<close> is what the next accesses to the
  file system will do (when the list is used up they succeed). \<open>w_providers\<close> are the tokens of the
  provider calls that run: each of them posts events and, last, that it is done.
\<close>

datatype prepared = PrepareFailed turn_error | PreparedCompaction | Prepared int int int

record tool_invocation =
  ti_CallID :: string
  ti_ToolName :: string
  ti_ArgsJSON :: string
  ti_ModelCallID :: string
  ti_ReasoningContent :: string
  ti_ReasoningSignature :: string
  ti_ReasoningSignatureSource :: string
  ti_ReasoningProviderItemID :: string
  ti_ReasoningProviderStatus :: string
  ti_ReasoningProviderSummary :: string

record world =
  w_turn :: turn
  w_conversation :: "ConversationFile option"
  w_store :: ConversationFileStore
  w_usage :: UsageFileStore
  w_io :: "io_outcomes list"
  w_providers :: "u64 list"

definition disk_ok :: io_outcomes where
  "disk_ok = \<lparr>io_context = WriteOk, io_append = AppendOk, io_state = WriteOk\<rparr>"

definition next_io :: "world \<Rightarrow> io_outcomes" where
  "next_io w = (case w_io w of [] \<Rightarrow> disk_ok | io # _ \<Rightarrow> io)"

definition with_store :: "ConversationFileStore \<Rightarrow> world \<Rightarrow> world" where
  "with_store st w = w\<lparr>w_store := st, w_io := tl (w_io w)\<rparr>"

definition on_turn :: "(turn \<Rightarrow> turn) \<Rightarrow> world \<Rightarrow> world" where
  "on_turn f w = w\<lparr>w_turn := f (w_turn w)\<rparr>"

abbreviation touch :: "gtime \<Rightarrow> world \<Rightarrow> world" where
  "touch now \<equiv> on_turn (upd (\<lambda>s. s\<lparr>as_UpdatedAt := now\<rparr>))"

subsection \<open>The conversation of a stream\<close>

text \<open>Copying a conversation also brings its plans into their normal form.\<close>

definition cloneConversationFile :: "ConversationFile \<Rightarrow> ConversationFile" where
  "cloneConversationFile c =
     c\<lparr>cf_CurrentPlans := clonePlanRegistryEntries (cf_CurrentPlans c), cf_MCPToolServers := cloneStringMap (cf_MCPToolServers c)\<rparr>"

definition replaceCheckpointConversation :: "world \<Rightarrow> ConversationFile option \<Rightarrow> world \<times> turn_error option" where
  "replaceCheckpointConversation w conversation =
     (case conversation of
        None \<Rightarrow> (w, Some (OtherError ''checkpoint conversation is required''))
      | Some c \<Rightarrow> (w\<lparr>w_conversation := Some (cloneConversationFile c)\<rparr>, None))"

definition checkpointConversationInitialized :: "world \<Rightarrow> bool" where
  "checkpointConversationInitialized w \<longleftrightarrow> w_conversation w \<noteq> None"

definition appendCheckpointEntries :: "world \<Rightarrow> HistoryEntry list \<Rightarrow> gtime \<Rightarrow> world \<times> turn_error option" where
  "appendCheckpointEntries w entries now =
     (if entries = [] then (w, None)
      else case w_conversation w of
             None \<Rightarrow> (w, Some CheckpointNotInitialized)
           | Some c \<Rightarrow> (w\<lparr>w_conversation := Some (fst (appendEntriesInPlace c entries now))\<rparr>, None))"

definition snapshotCheckpointConversation ::
  "world \<Rightarrow> turn_error + (ConversationFile \<times> (string, PendingExec) gomap \<times> (string, PendingInteraction) gomap)" where
  "snapshotCheckpointConversation w =
     (case w_conversation w of
        None \<Rightarrow> Inl CheckpointNotInitialized
      | Some c \<Rightarrow>
          (case stream_of (w_turn w) of
             None \<Rightarrow> Inr (cloneConversationFile c, [], [])
           | Some s \<Rightarrow> Inr (cloneConversationFile c, as_PendingExecs s, as_PendingInteractions s)))"

definition appendConversationEntries ::
  "decoders \<Rightarrow> world \<Rightarrow> string \<Rightarrow> HistoryEntry list \<Rightarrow> gtime \<Rightarrow> world \<times> (turn_error + HistoryEntry list)" where
  "appendConversationEntries dc w conversationID entries now =
     (if entries = [] then (w, Inr [])
      else case w_conversation w of
             None \<Rightarrow> (w, Inl CheckpointNotInitialized)
           | Some working \<Rightarrow>
               (case AppendEntriesWithUpdate dc (next_io w) (w_store w) conversationID (resetEntrySequences entries) None now of
                  (st, Inl e) \<Rightarrow> (with_store st w, Inl (StoreError e))
                | (st, Inr (persisted, assigned)) \<Rightarrow>
                    (touch now ((with_store st w)\<lparr>w_conversation :=
                       Some (case persisted of Some c \<Rightarrow> c | None \<Rightarrow> fst (appendEntriesInPlace (cloneConversationFile working) assigned now))\<rparr>),
                     Inr assigned)))"

text \<open>The fields of a stored record that are overwritten with those of the copy in the stream.\<close>

definition record_update :: "ConversationFile \<Rightarrow> conversation_update" where
  "record_update c item =
     Inr (item\<lparr>cf_ConversationID := cf_ConversationID c, cf_RootConversationID := cf_RootConversationID c,
       cf_ParentConversationID := cf_ParentConversationID c, cf_ParentToolCallID := cf_ParentToolCallID c,
       cf_SubagentTypeName := cf_SubagentTypeName c, cf_Mode := cf_Mode c,
       cf_TokenDetailsUsedTokens := cf_TokenDetailsUsedTokens c, cf_TokenDetailsMaxTokens := cf_TokenDetailsMaxTokens c,
       cf_AutoCompactionPending := cf_AutoCompactionPending c, cf_AutoCompactionPromptTokens := cf_AutoCompactionPromptTokens c,
       cf_AutoCompactionReserveTokens := cf_AutoCompactionReserveTokens c,
       cf_AutoCompactionTriggeredAt := cf_AutoCompactionTriggeredAt c,
       cf_AutoCompactionSourceModelCallID := cf_AutoCompactionSourceModelCallID c,
       cf_ImportedTurnIDs := cf_ImportedTurnIDs c, cf_LatestRequestPrefix := cf_LatestRequestPrefix c,
       cf_LastProviderCall := cf_LastProviderCall c, cf_CreatedAt := cf_CreatedAt c, cf_UpdatedAt := cf_UpdatedAt c,
       cf_NextTurnSeq := cf_NextTurnSeq c, cf_NextEntrySeq := cf_NextEntrySeq c, cf_CurrentLoopID := cf_CurrentLoopID c,
       cf_CurrentLoopStatus := cf_CurrentLoopStatus c, cf_CurrentRequestID := cf_CurrentRequestID c,
       cf_CurrentTurnSeq := cf_CurrentTurnSeq c\<rparr>)"

definition syncConversationRecord ::
  "decoders \<Rightarrow> world \<Rightarrow> string \<Rightarrow> ConversationFile \<Rightarrow> gtime \<Rightarrow> world \<times> turn_error option" where
  "syncConversationRecord dc w conversationID c now =
     (case parseModeAlias (cf_Mode c) of
        Inl e \<Rightarrow> (w, Some (StreamError e))
      | Inr mode \<Rightarrow>
          (case CreateConversation dc (next_io w) (w_store w) conversationID mode (cf_ParentConversationID c)
                  (cf_ParentToolCallID c) (cf_RootConversationID c) now of
             (st, Inl e) \<Rightarrow> (with_store st w, Some (StoreError e))
           | (st, Inr _) \<Rightarrow>
               (let w1 = with_store st w
                in case UpdateConversationMeta dc (next_io w1) st conversationID (Some (record_update c)) now of
                     (st1, Inl e) \<Rightarrow> (with_store st1 w1, Some (StoreError e))
                   | (st1, Inr _) \<Rightarrow> (with_store st1 w1, None))))"

definition updateConversationMetaAndCheckpoint ::
  "decoders \<Rightarrow> world \<Rightarrow> string \<Rightarrow> (ConversationFile \<Rightarrow> ConversationFile) \<Rightarrow> gtime \<Rightarrow> world \<times> turn_error option" where
  "updateConversationMetaAndCheckpoint dc w conversationID update now =
     (case w_conversation w of
        None \<Rightarrow> (w, Some CheckpointNotInitialized)
      | Some c0 \<Rightarrow>
          (let c = update (cloneConversationFile c0)
           in case syncConversationRecord dc w conversationID c now of
                (w1, Some e) \<Rightarrow> (w1, Some e)
              | (w1, None) \<Rightarrow> (touch now (w1\<lparr>w_conversation := Some c\<rparr>), None)))"

definition syncSummarySnapshot ::
  "decoders \<Rightarrow> world \<Rightarrow> ConversationFile \<Rightarrow> string \<Rightarrow> string \<Rightarrow> gtime \<Rightarrow> world \<times> turn_error option" where
  "syncSummarySnapshot dc w c requestID modelCallID now =
     (if TrimSpace requestID = [] \<or> TrimSpace modelCallID = [] then (w, None)
      else syncConversationRecord dc w (cf_ConversationID c) c now)"

definition syncSummaryCarryForward :: "decoders \<Rightarrow> world \<Rightarrow> string \<Rightarrow> string \<Rightarrow> gtime \<Rightarrow> world \<times> turn_error option" where
  "syncSummaryCarryForward dc w requestID modelCallID now =
     (if TrimSpace requestID = [] \<or> TrimSpace modelCallID = [] then (w, None)
      else case Get (tn_broker (w_turn w)) requestID of
             None \<Rightarrow> (w, None)
           | Some _ \<Rightarrow>
               (case snapshotCheckpointConversation w of
                  Inl e \<Rightarrow> (w, Some e)
                | Inr (c, _, _) \<Rightarrow> syncSummarySnapshot dc w c requestID modelCallID now))"


subsection \<open>Token usage\<close>

text \<open>Go's \<open>Format(time.RFC3339Nano)\<close> of a time in UTC: trailing zeros of the fraction are left out.\<close>

definition format_fraction :: "int \<Rightarrow> string" where
  "format_fraction nanos =
     (let digits = rev (dropWhile (\<lambda>c. c = CHR ''0'') (rev (pad_int 9 nanos)))
      in if digits = [] then [] else CHR ''.'' # digits)"

definition format_RFC3339Nano :: "gtime \<Rightarrow> string" where
  "format_RFC3339Nano at =
     (let rest = at mod nanos_per_day; secs = rest div 10 ^ 9
      in format_date at @ ''T'' @ pad_int 2 (secs div 3600) @ '':'' @ pad_int 2 (secs div 60 mod 60) @ '':'' @
         pad_int 2 (secs mod 60) @ format_fraction (rest mod 10 ^ 9) @ ''Z'')"

definition compactionAutoReserveTokens :: int where
  "compactionAutoReserveTokens = 10000"

definition resolveCompactionReserveTokens :: "string \<Rightarrow> int" where
  "resolveCompactionReserveTokens modelID = compactionAutoReserveTokens"

definition clampInt64ToUint32 :: "int \<Rightarrow> u32" where
  "clampInt64ToUint32 v = (if v \<le> 0 then 0 else if v > 2 ^ 32 - 1 then - 1 else of_int v)"

definition durationMilliseconds :: "gtime \<Rightarrow> gtime \<Rightarrow> int" where
  "durationMilliseconds startedAt finishedAt =
     (if IsZero startedAt \<or> IsZero finishedAt then 0
      else let v = (finishedAt - startedAt) div 10 ^ 6 in if v < 0 then 0 else v)"

definition clearConversationAutoCompactionState :: "ConversationFile \<Rightarrow> ConversationFile" where
  "clearConversationAutoCompactionState c =
     c\<lparr>cf_AutoCompactionPending := False, cf_AutoCompactionPromptTokens := 0, cf_AutoCompactionReserveTokens := 0,
       cf_AutoCompactionTriggeredAt := [], cf_AutoCompactionSourceModelCallID := []\<rparr>"

definition updateConversationAutoCompactionState ::
  "ConversationFile \<Rightarrow> int \<Rightarrow> int \<Rightarrow> string \<Rightarrow> gtime \<Rightarrow> ConversationFile" where
  "updateConversationAutoCompactionState c promptTokens reserve0 modelCallID triggeredAt =
     (if promptTokens \<le> 0 then clearConversationAutoCompactionState c
      else let window = (if cf_TokenDetailsMaxTokens c = 0 then projectedConversationMaxTokens
                         else uint (cf_TokenDetailsMaxTokens c));
               reserve = (if reserve0 \<le> 0 then compactionAutoReserveTokens else reserve0)
           in if window - promptTokens > reserve then clearConversationAutoCompactionState c
              else c\<lparr>cf_AutoCompactionPending := True, cf_AutoCompactionPromptTokens := promptTokens,
                     cf_AutoCompactionReserveTokens := reserve,
                     cf_AutoCompactionTriggeredAt := format_RFC3339Nano triggeredAt,
                     cf_AutoCompactionSourceModelCallID := TrimSpace modelCallID\<rparr>)"

definition token_state_update ::
  "turnUsageSnapshot \<Rightarrow> string \<Rightarrow> bool \<Rightarrow> int \<Rightarrow> gtime \<Rightarrow> ConversationFile \<Rightarrow> ConversationFile" where
  "token_state_update usage modelCallID finalize reserve now c =
     (let c1 = (if promptTokensTotal usage > 0
                then c\<lparr>cf_TokenDetailsUsedTokens := clampInt64ToUint32 (promptTokensTotal usage)\<rparr> else c);
          c2 = (if cf_TokenDetailsMaxTokens c1 = 0
                then c1\<lparr>cf_TokenDetailsMaxTokens := of_int projectedConversationMaxTokens\<rparr> else c1)
      in if finalize then updateConversationAutoCompactionState c2 (requestTokensTotal usage) reserve modelCallID now
         else c2)"

definition updateConversationTokenState ::
  "decoders \<Rightarrow> world \<Rightarrow> string \<Rightarrow> turnUsageSnapshot \<Rightarrow> string \<Rightarrow> bool \<Rightarrow> gtime \<Rightarrow> world \<times> turn_error option" where
  "updateConversationTokenState dc w conversationID usage modelCallID finalize now =
     (if \<not> hasAny usage then (w, None)
      else let modelID = (case stream_of (w_turn w) of None \<Rightarrow> [] | Some s \<Rightarrow> as_ModelID s);
               resolved = resolveCompactionReserveTokens modelID;
               reserve = (if finalize then (if resolved \<le> 0 then compactionAutoReserveTokens else resolved)
                          else compactionAutoReserveTokens)
           in updateConversationMetaAndCheckpoint dc w conversationID
                (token_state_update usage modelCallID finalize reserve now) now)"

definition usageEventID :: "string \<Rightarrow> string \<Rightarrow> string" where
  "usageEventID requestID modelCallID =
     (if TrimSpace modelCallID = [] \<or> TrimSpace modelCallID = TrimSpace requestID then TrimSpace requestID
      else TrimSpace requestID @ ''::'' @ TrimSpace modelCallID)"

definition turnUsageEventID :: "string \<Rightarrow> int \<Rightarrow> string \<Rightarrow> string" where
  "turnUsageEventID conversationID turnSeq requestID =
     (if TrimSpace conversationID \<noteq> [] \<and> turnSeq > 0
      then ''turn::'' @ TrimSpace conversationID @ ''::'' @ show_int turnSeq
      else ''turn::'' @ TrimSpace requestID)"

definition normalizeUsageTurnStatus :: "string \<Rightarrow> string" where
  "normalizeUsageTurnStatus status = TrimSpace status"

text \<open>The times of a provider call, and the two records made of it: a usage event and the last call.\<close>

definition call_times :: "ActiveStream option \<Rightarrow> turnUsageSnapshot \<Rightarrow> gtime \<Rightarrow> gtime \<times> gtime \<times> gtime" where
  "call_times stream usage now =
     (let startedAt = (case stream of None \<Rightarrow> 0 | Some s \<Rightarrow> as_CreatedAt s);
          lastEventAt = (case stream of None \<Rightarrow> now | Some s \<Rightarrow> if IsZero (as_UpdatedAt s) then now else as_UpdatedAt s)
      in (if IsZero (tu_RequestPreparedAt usage) then startedAt else tu_RequestPreparedAt usage,
          if IsZero (tu_FirstEventAt usage) then lastEventAt else tu_FirstEventAt usage,
          lastEventAt))"

definition usage_event ::
  "ActiveStream option \<Rightarrow> string \<Rightarrow> string \<Rightarrow> turnUsageSnapshot \<Rightarrow> gtime \<Rightarrow> usageFileEvent" where
  "usage_event stream requestID effectiveModelCallID usage now =
     (let (preparedAt, firstEventAt, lastEventAt) = call_times stream usage now
      in (zero_event (usageEventID requestID effectiveModelCallID) lastEventAt)
           \<lparr>ue_Kind := ''provider_call'', ue_InputTokens := tu_InputTokens usage, ue_OutputTokens := tu_OutputTokens usage,
            ue_CacheReadTokens := tu_CacheReadTokens usage, ue_CacheWriteTokens := tu_CacheWriteTokens usage,
            ue_UsagePresent := tu_UsagePresent usage, ue_ProviderPass := tu_ProviderPass usage,
            ue_CompileDurationMS := tu_CompileDurationMS usage, ue_EstimatedPromptTokens := tu_EstimatedPromptTokens usage,
            ue_ReplayMessageCount := tu_ReplayMessageCount usage,
            ue_TTFTMS := durationMilliseconds preparedAt firstEventAt,
            ue_DurationMS := durationMilliseconds preparedAt lastEventAt,
            ue_CacheReadUsageAvailable := tu_CacheReadPresent usage\<rparr>)"

definition provider_call ::
  "ActiveStream option \<Rightarrow> string \<Rightarrow> string \<Rightarrow> string \<Rightarrow> turnUsageSnapshot \<Rightarrow> string \<Rightarrow> gtime \<Rightarrow> ConversationProviderCall" where
  "provider_call stream requestID effectiveModelCallID status usage errorText now =
     (let (preparedAt, firstEventAt, lastEventAt) = call_times stream usage now;
          modelID = (case stream of None \<Rightarrow> [] | Some s \<Rightarrow> TrimSpace (as_ModelID s));
          modelName0 = (case stream of None \<Rightarrow> [] | Some s \<Rightarrow> TrimSpace (as_ModelName s));
          modelName1 = (if modelName0 = [] then modelID else modelName0)
      in \<lparr>cc_RequestID = TrimSpace requestID, cc_ModelCallID = effectiveModelCallID,
          cc_Provider = TrimSpace (tu_Provider usage),
          cc_Model = (if TrimSpace (tu_Model usage) \<noteq> [] then TrimSpace (tu_Model usage) else modelName1),
          cc_ProviderPass = tu_ProviderPass usage, cc_CompileDurationMS = nonNegativeInt64 (tu_CompileDurationMS usage),
          cc_EstimatedPromptTokens = nonNegativeInt64 (tu_EstimatedPromptTokens usage),
          cc_ReplayMessageCount = tu_ReplayMessageCount usage,
          cc_TTFTMS = durationMilliseconds preparedAt firstEventAt,
          cc_DurationMS = durationMilliseconds preparedAt lastEventAt,
          cc_CacheReadTokens = nonNegativeInt64 (tu_CacheReadTokens usage),
          cc_CacheReadUsageAvailable = tu_CacheReadPresent usage, cc_FirstEventAt = firstEventAt,
          cc_Status = TrimSpace status, cc_ErrorText = TrimSpace errorText, cc_UpdatedAt = lastEventAt\<rparr>)"

definition recordTurnUsageSnapshot ::
  "decoders \<Rightarrow> world \<Rightarrow> string \<Rightarrow> string \<Rightarrow> string \<Rightarrow> string \<Rightarrow> turnUsageSnapshot \<Rightarrow> string \<Rightarrow> gtime \<Rightarrow> world \<times> turn_error option" where
  "recordTurnUsageSnapshot dc w conversationID requestID modelCallID status usage errorText now =
     (if TrimSpace requestID = [] then (w, None)
      else let stream = stream_of (w_turn w);
               callID = firstNonEmpty [TrimSpace modelCallID, TrimSpace requestID];
               w1 = w\<lparr>w_usage := UpsertEvent (w_usage w) (usage_event stream requestID callID usage now) now\<rparr>
           in if TrimSpace conversationID = [] then (w1, None)
              else updateConversationMetaAndCheckpoint dc w1 conversationID
                     (\<lambda>c. c\<lparr>cf_LastProviderCall := Some (provider_call stream requestID callID status usage errorText now)\<rparr>) now)"

definition recordTurnFinalizedSnapshot :: "world \<Rightarrow> string \<Rightarrow> int \<Rightarrow> string \<Rightarrow> string \<Rightarrow> gtime \<Rightarrow> world" where
  "recordTurnFinalizedSnapshot w conversationID turnSeq requestID status now =
     (if TrimSpace requestID = [] then w
      else let u = (case LookupEvent (w_usage w) (TrimSpace requestID) of
                      Some e \<Rightarrow> e | None \<Rightarrow> zero_event [] 0)
           in w\<lparr>w_usage := UpsertEvent (w_usage w)
                 ((zero_event (turnUsageEventID conversationID turnSeq requestID) now)
                   \<lparr>ue_Kind := ''turn_finalized'', ue_Status := normalizeUsageTurnStatus status,
                    ue_InputTokens := ue_InputTokens u, ue_OutputTokens := ue_OutputTokens u,
                    ue_CacheReadTokens := ue_CacheReadTokens u, ue_CacheWriteTokens := ue_CacheWriteTokens u,
                    ue_UsagePresent := ue_UsagePresent u\<rparr>) now\<rparr>)"

end
