(* ===== verification/Run_Rewind.thy ===== *)
theory Run_Rewind
  imports History_Store Text_Limits Turn_Memory
begin

text \<open>
  What a client asks for (\<open>types.go\<close>, \<open>service.go\<close>): the intent an inbound message is decoded to, its user
  messages, and how messages are shortened before they are stored. Of a protobuf message the fields that are
  read are modelled; cloning is the identity.
\<close>

record SelectedContext =
  sx_Files :: "SelectedFile list"
  sx_CursorCommands :: "SelectedCursorCommand list"
  sx_SelectedSkills :: "AgentSkill list"
  sx_ExtraContext :: "string list"

record UserMessage =
  um_MessageId :: string
  um_Text :: string
  um_RichText :: string
  um_SubagentSystemReminder :: string
  um_SelectedContext :: "SelectedContext option"

record manualCompactionDirective =
  mc_Requested :: bool
  mc_Instruction :: string

text \<open>
  The state of the conversation a client sends is read for the number of its turns (and imported, which is a
  parameter of the run); of the request context, the folder of the transcripts and the whole, which is stored.
  \<open>in_ActionCase\<close> is the kind of the action in the client message.
\<close>

record InboundIntent =
  in_Kind :: string
  in_RequestID :: string
  in_ConversationID :: string
  in_ModelID :: string
  in_ModelName :: string
  in_RequestedContextTokens :: u32
  in_Mode :: AgentMode
  in_HasExplicitMode :: bool
  in_ModeSource :: ModeSource
  in_ManualCompaction :: manualCompactionDirective
  in_SubagentTypeName :: string
  in_ClientTurns :: "nat option"
  in_PrependUserMessages :: "UserMessage list"
  in_UserMessage :: "UserMessage option"
  in_RequestContext :: "raw_json option"
  in_TranscriptsFolder :: string
  in_ActionCase :: string
  in_CancelReason :: string
  in_StartsRun :: bool
  in_Prewarm :: bool

subsection \<open>Messages as they are stored\<close>

definition promptGuardUserRichTextChars :: nat where "promptGuardUserRichTextChars = 32000"
definition promptGuardSubagentReminderChars :: nat where "promptGuardSubagentReminderChars = 12000"
definition promptGuardRealtimeTextChars :: nat where "promptGuardRealtimeTextChars = 12000"

definition guardSelectedContext :: "SelectedContext \<Rightarrow> SelectedContext" where
  "guardSelectedContext c =
     c\<lparr>sx_Files := guardSelectedFiles (sx_Files c), sx_CursorCommands := guardSelectedCursorCommands (sx_CursorCommands c),
       sx_SelectedSkills := guardAgentSkills (sx_SelectedSkills c),
       sx_ExtraContext := guardStringSlice (sx_ExtraContext c) ''selected_context.extra_context''
         promptGuardRealtimeTextChars promptGuardRealtimeTextChars promptGuardAgentSkillsMaxCount\<rparr>"

definition normalizeUserMessageForStorage :: "UserMessage \<Rightarrow> UserMessage" where
  "normalizeUserMessageForStorage m =
     m\<lparr>um_Text := truncatePromptGuardText ''user_message.text'' (um_Text m) promptGuardUserTextChars,
       um_RichText := (if TrimSpace (um_RichText m) \<noteq> []
         then TrimSpace (truncatePromptGuardText ''user_message.rich_text'' (TrimSpace (um_RichText m)) promptGuardUserRichTextChars)
         else um_RichText m),
       um_SubagentSystemReminder := (if TrimSpace (um_SubagentSystemReminder m) \<noteq> []
         then TrimSpace (truncatePromptGuardText ''user_message.subagent_system_reminder''
                (TrimSpace (um_SubagentSystemReminder m)) promptGuardSubagentReminderChars)
         else um_SubagentSystemReminder m),
       um_SelectedContext := map_option guardSelectedContext (um_SelectedContext m)\<rparr>"

lemma normalized_id [simp]: "um_MessageId (normalizeUserMessageForStorage m) = um_MessageId m"
  by (simp add: normalizeUserMessageForStorage_def)

definition userMessageText :: "UserMessage option \<Rightarrow> string" where
  "userMessageText m = (case m of None \<Rightarrow> [] | Some u \<Rightarrow> TrimSpace (um_Text u))"

subsection \<open>The request to compact\<close>

definition parseManualCompactionDirective :: "string \<Rightarrow> string option" where
  "parseManualCompactionDirective latestUserText =
     (let trimmed = TrimSpace latestUserText; directive = ''/summarize''
      in if trimmed = directive then Some []
         else if has_prefix trimmed (directive @ '' '') then Some (TrimSpace (drop (length directive) trimmed))
         else None)"

definition isCursorSummarizeCommand :: "SelectedCursorCommand \<Rightarrow> bool" where
  "isCursorSummarizeCommand command \<longleftrightarrow>
     fold_name (TrimSpace (sc_Name command)) = fold_name ''glass-action-summarize'' \<or>
     parseManualCompactionDirective (sc_Content command) \<noteq> None"

definition parseManualCompactionRequest :: "UserMessage option \<Rightarrow> string option" where
  "parseManualCompactionRequest userMessage =
     (case userMessage of
        None \<Rightarrow> None
      | Some m \<Rightarrow>
          (let userText = TrimSpace (um_Text m)
           in case parseManualCompactionDirective userText of
                Some instruction \<Rightarrow> Some instruction
              | None \<Rightarrow>
                  (if userText \<noteq> [] then None
                   else case um_SelectedContext m of
                          None \<Rightarrow> None
                        | Some c \<Rightarrow>
                            (case find isCursorSummarizeCommand (sx_CursorCommands c) of
                               None \<Rightarrow> None
                             | Some command \<Rightarrow>
                                 Some (case parseManualCompactionDirective (sc_Content command) of
                                         None \<Rightarrow> [] | Some instruction \<Rightarrow> instruction)))))"

definition resolveInboundManualCompaction :: "string \<Rightarrow> UserMessage option \<Rightarrow> manualCompactionDirective" where
  "resolveInboundManualCompaction actionCase userMessage =
     (case parseManualCompactionRequest userMessage of
        None \<Rightarrow> \<lparr>mc_Requested = (actionCase = ''summarize_action''), mc_Instruction = []\<rparr>
      | Some instruction \<Rightarrow> \<lparr>mc_Requested = True, mc_Instruction = instruction\<rparr>)"

text \<open>
  Where a run continues a conversation (\<open>rewind.go\<close>). A client that sends a message the history already has
  wants to go back: the history is cut before the turn of that message. Otherwise only the messages that are
  not yet in the history are run.
\<close>

subsection \<open>The messages in a history\<close>

definition user_message_id :: "decoders \<Rightarrow> HistoryEntry \<Rightarrow> string option" where
  "user_message_id dc e =
     (if TrimSpace (he_Kind e) \<noteq> ''user_message'' \<or> he_Payload e = RawEmpty then None
      else map_option TrimSpace (dc_message_id dc (he_Payload e)))"

definition findUserMessageEntriesByMessageID :: "decoders \<Rightarrow> HistoryEntry list \<Rightarrow> string \<Rightarrow> HistoryEntry list" where
  "findUserMessageEntriesByMessageID dc entries messageID =
     (if TrimSpace messageID = [] then []
      else filter (\<lambda>e. user_message_id dc e = Some (TrimSpace messageID)) entries)"

definition existingMessageIDs :: "decoders \<Rightarrow> HistoryEntry list \<Rightarrow> string list" where
  "existingMessageIDs dc entries = filter (\<lambda>i. i \<noteq> []) (List.map_filter (user_message_id dc) entries)"

definition earlierHistoryEntry :: "HistoryEntry \<Rightarrow> HistoryEntry \<Rightarrow> bool" where
  "earlierHistoryEntry left right =
     (if he_TurnSeq left \<noteq> he_TurnSeq right then he_TurnSeq left < he_TurnSeq right
      else if he_Seq left \<noteq> he_Seq right then he_Seq left < he_Seq right
      else he_CreatedAt left < he_CreatedAt right)"

definition maxHistoryTurnSeq :: "HistoryEntry list \<Rightarrow> int" where
  "maxHistoryTurnSeq entries = fold (\<lambda>e m. if m < he_TurnSeq e then he_TurnSeq e else m) entries 0"

definition prefixEntriesBeforeTurn :: "HistoryEntry list \<Rightarrow> int \<Rightarrow> HistoryEntry list" where
  "prefixEntriesBeforeTurn entries targetTurnSeq = filter (\<lambda>e. he_TurnSeq e < targetTurnSeq) entries"

text \<open>The number of dropped entries and turns, and the least and the greatest number of a dropped entry.\<close>

definition droppedEntryStats :: "HistoryEntry list \<Rightarrow> int \<Rightarrow> nat \<times> nat \<times> int \<times> int" where
  "droppedEntryStats entries targetTurnSeq =
     (let dropped = filter (\<lambda>e. targetTurnSeq \<le> he_TurnSeq e) entries
      in (length dropped, length (remdups (filter (\<lambda>t. 0 < t) (map he_TurnSeq dropped))),
          fold (\<lambda>e m. if 0 < he_Seq e \<and> (m = 0 \<or> he_Seq e < m) then he_Seq e else m) dropped 0,
          fold (\<lambda>e m. if m < he_Seq e then he_Seq e else m) dropped 0))"

subsection \<open>The decision to rewind\<close>

record runRewindDecision =
  rd_Evaluated :: bool
  rd_Apply :: bool
  rd_Reason :: string
  rd_SkipReason :: string
  rd_IncomingMessageID :: string
  rd_HasClientTurnCount :: bool
  rd_ClientTurnCount :: int
  rd_ServerTailTurnSeq :: int
  rd_ServerNextTurnSeq :: int
  rd_TargetTurnSeq :: int
  rd_TargetEntrySeq :: int
  rd_TargetRequestID :: string
  rd_MatchCount :: nat
  rd_DroppedEntryCount :: nat
  rd_DroppedTurnCount :: nat
  rd_DroppedSeqStart :: int
  rd_DroppedSeqEnd :: int
  rd_PrefixEntries :: "HistoryEntry list"

definition no_rewind :: runRewindDecision where
  "no_rewind = \<lparr>rd_Evaluated = False, rd_Apply = False, rd_Reason = [], rd_SkipReason = [], rd_IncomingMessageID = [],
     rd_HasClientTurnCount = False, rd_ClientTurnCount = - 1, rd_ServerTailTurnSeq = 0, rd_ServerNextTurnSeq = 0,
     rd_TargetTurnSeq = 0, rd_TargetEntrySeq = 0, rd_TargetRequestID = [], rd_MatchCount = 0, rd_DroppedEntryCount = 0,
     rd_DroppedTurnCount = 0, rd_DroppedSeqStart = 0, rd_DroppedSeqEnd = 0, rd_PrefixEntries = []\<rparr>"

definition shouldEvaluateRunRewind :: "InboundIntent \<Rightarrow> bool" where
  "shouldEvaluateRunRewind intent \<longleftrightarrow>
     TrimSpace (in_Kind intent) = ''run'' \<and> \<not> in_Prewarm intent \<and> in_UserMessage intent \<noteq> None \<and>
     in_ActionCase intent = ''user_message_action''"

definition earliest :: "HistoryEntry \<Rightarrow> HistoryEntry list \<Rightarrow> HistoryEntry" where
  "earliest e es = fold (\<lambda>m best. if earlierHistoryEntry m best then m else best) es e"

text \<open>The match to go back to; there is at least one. The reason is part of the log.\<close>

definition selectRunRewindMatch :: "HistoryEntry list \<Rightarrow> int \<Rightarrow> bool \<Rightarrow> HistoryEntry \<times> string" where
  "selectRunRewindMatch matches clientTurnCount hasClientTurnCount =
     (let fallback = (earliest (hd matches) (tl matches), ''earliest_message_id_match'')
      in if hasClientTurnCount \<and> 0 \<le> clientTurnCount
         then case find (\<lambda>m. he_TurnSeq m = clientTurnCount + 1) matches of
                Some m \<Rightarrow> (m, ''client_turn_count_aligned'')
              | None \<Rightarrow>
                  (case filter (\<lambda>m. clientTurnCount < he_TurnSeq m) matches of
                     [] \<Rightarrow> fallback
                   | m # ms \<Rightarrow> (earliest m ms, ''first_match_after_client_turn_count''))
         else fallback)"

definition decideRunRewind :: "decoders \<Rightarrow> InboundIntent \<Rightarrow> ConversationFile \<Rightarrow> runRewindDecision" where
  "decideRunRewind dc intent c =
     (case in_UserMessage intent of
        None \<Rightarrow> no_rewind
      | Some user \<Rightarrow>
          (if \<not> shouldEvaluateRunRewind intent then no_rewind
           else let d = no_rewind\<lparr>rd_Evaluated := True, rd_IncomingMessageID := TrimSpace (um_MessageId user),
                      rd_HasClientTurnCount := (in_ClientTurns intent \<noteq> None),
                      rd_ClientTurnCount := (case in_ClientTurns intent of None \<Rightarrow> - 1 | Some n \<Rightarrow> int n),
                      rd_ServerTailTurnSeq := maxHistoryTurnSeq (cf_Entries c), rd_ServerNextTurnSeq := cf_NextTurnSeq c\<rparr>
                in if rd_IncomingMessageID d = [] then d\<lparr>rd_SkipReason := ''missing_message_id''\<rparr>
                   else if cf_Entries c = [] then d\<lparr>rd_SkipReason := ''message_id_not_found''\<rparr>
                   else let matches = findUserMessageEntriesByMessageID dc (cf_Entries c) (rd_IncomingMessageID d);
                            d1 = d\<lparr>rd_MatchCount := length matches\<rparr>
                        in if matches = [] then d1\<lparr>rd_SkipReason := ''message_id_not_found''\<rparr>
                           else let (selected, reason) = selectRunRewindMatch matches (rd_ClientTurnCount d1) (rd_HasClientTurnCount d1);
                                    d2 = d1\<lparr>rd_TargetTurnSeq := he_TurnSeq selected, rd_TargetEntrySeq := he_Seq selected,
                                            rd_TargetRequestID := TrimSpace (he_RequestID selected)\<rparr>
                                in if rd_TargetTurnSeq d2 \<le> 0 then d2\<lparr>rd_SkipReason := ''target_turn_seq_missing''\<rparr>
                                   else if \<not> rd_ServerTailTurnSeq d2 > rd_TargetTurnSeq d2 \<and>
                                           \<not> (rd_HasClientTurnCount d2 \<and> rd_ClientTurnCount d2 < rd_ServerTailTurnSeq d2)
                                   then d2\<lparr>rd_SkipReason := ''message_id_at_active_tail''\<rparr>
                                   else let (entries, turns, seqStart, seqEnd) = droppedEntryStats (cf_Entries c) (rd_TargetTurnSeq d2)
                                        in d2\<lparr>rd_Apply := True, rd_Reason := reason,
                                             rd_PrefixEntries := prefixEntriesBeforeTurn (cf_Entries c) (rd_TargetTurnSeq d2),
                                             rd_DroppedEntryCount := entries, rd_DroppedTurnCount := turns,
                                             rd_DroppedSeqStart := seqStart, rd_DroppedSeqEnd := seqEnd\<rparr>))"

subsection \<open>The messages that are new\<close>

definition is_new_message :: "string list \<Rightarrow> UserMessage \<Rightarrow> bool" where
  "is_new_message existing m \<longleftrightarrow> TrimSpace (um_MessageId m) = [] \<or> TrimSpace (um_MessageId m) \<notin> set existing"

definition filterUnprocessedUserMessages ::
  "decoders \<Rightarrow> InboundIntent \<Rightarrow> ConversationFile \<Rightarrow> UserMessage option \<times> UserMessage list \<times> bool" where
  "filterUnprocessedUserMessages dc intent c =
     (if cf_Entries c = []
      then (in_UserMessage intent, in_PrependUserMessages intent, in_UserMessage intent \<noteq> None \<or> in_PrependUserMessages intent \<noteq> [])
      else let existing = existingMessageIDs dc (cf_Entries c);
               newPrepends = filter (is_new_message existing) (in_PrependUserMessages intent);
               replaced = (if newPrepends \<noteq> [] then (Some (last newPrepends), butlast newPrepends) else (None, newPrepends));
               (activeUser, remaining) =
                 (case in_UserMessage intent of
                    Some m \<Rightarrow> if is_new_message existing m then (Some m, newPrepends) else replaced
                  | None \<Rightarrow> replaced)
           in (activeUser, remaining, activeUser \<noteq> None \<or> remaining \<noteq> []))"

subsection \<open>Applying a rewind\<close>

definition appendReplacementRunEntries :: "HistoryEntry list \<Rightarrow> HistoryEntry list \<Rightarrow> HistoryEntry list" where
  "appendReplacementRunEntries prefix entries = prefix @ entries"

definition loop_id :: "int \<Rightarrow> InboundIntent \<Rightarrow> string" where
  "loop_id turnSeq intent = show_int turnSeq @ '':'' @ TrimSpace (in_RequestID intent)"

definition applyRunRewindConversationState :: "InboundIntent \<Rightarrow> int \<Rightarrow> ConversationFile \<Rightarrow> ConversationFile" where
  "applyRunRewindConversationState intent turnSeq c =
     (clearConversationAutoCompactionState
        (c\<lparr>cf_TokenDetailsUsedTokens := 0,
           cf_TokenDetailsMaxTokens := (if cf_TokenDetailsMaxTokens c = 0 then of_int projectedConversationMaxTokens
                                        else cf_TokenDetailsMaxTokens c)\<rparr>))
       \<lparr>cf_LatestRequestPrefix := None, cf_LastProviderCall := None, cf_CurrentLoopID := loop_id turnSeq intent,
        cf_CurrentLoopStatus := ''running'', cf_CurrentRequestID := TrimSpace (in_RequestID intent), cf_CurrentTurnSeq := turnSeq\<rparr>"

definition rewindImportedTurnPrefix :: "string list \<Rightarrow> runRewindDecision \<Rightarrow> string list" where
  "rewindImportedTurnPrefix importedTurnIDs d =
     (let keep = (if rd_HasClientTurnCount d then rd_ClientTurnCount d else rd_TargetTurnSeq d - 1)
      in if keep \<le> 0 then [] else take (nat keep) importedTurnIDs)"

definition applyRunRewindMetadata ::
  "ConversationFile \<Rightarrow> InboundIntent \<Rightarrow> int \<Rightarrow> ConversationFile \<Rightarrow> ConversationFile" where
  "applyRunRewindMetadata source intent turnSeq c =
     applyRunRewindConversationState intent turnSeq
       (c\<lparr>cf_ConversationID := (if TrimSpace (cf_ConversationID source) \<noteq> [] then TrimSpace (cf_ConversationID source) else cf_ConversationID c),
          cf_RootConversationID := (if TrimSpace (cf_RootConversationID source) \<noteq> [] then TrimSpace (cf_RootConversationID source)
                                    else cf_RootConversationID c),
          cf_ParentConversationID := TrimSpace (cf_ParentConversationID source),
          cf_ParentToolCallID := TrimSpace (cf_ParentToolCallID source),
          cf_SubagentTypeName := TrimSpace (cf_SubagentTypeName source),
          cf_AgentTranscriptsFolder := (if normalizeAgentTranscriptsFolder (cf_AgentTranscriptsFolder source) \<noteq> []
                                        then normalizeAgentTranscriptsFolder (cf_AgentTranscriptsFolder source)
                                        else cf_AgentTranscriptsFolder c),
          cf_Mode := (if TrimSpace (cf_Mode source) \<noteq> [] then TrimSpace (cf_Mode source) else cf_Mode c),
          cf_TokenDetailsMaxTokens := (if 0 < cf_TokenDetailsMaxTokens source then cf_TokenDetailsMaxTokens source
                                       else cf_TokenDetailsMaxTokens c),
          cf_ImportedTurnIDs := rewindImportedTurnPrefix (cf_ImportedTurnIDs source)
            (no_rewind\<lparr>rd_TargetTurnSeq := turnSeq, rd_HasClientTurnCount := (in_ClientTurns intent \<noteq> None),
               rd_ClientTurnCount := (case in_ClientTurns intent of None \<Rightarrow> 0 | Some n \<Rightarrow> int n)\<rparr>)\<rparr>)"

definition applyRunRewindToConversation ::
  "runRewindDecision \<Rightarrow> HistoryEntry list \<Rightarrow> InboundIntent \<Rightarrow> int \<Rightarrow> gtime \<Rightarrow> ConversationFile \<Rightarrow> ConversationFile" where
  "applyRunRewindToConversation d entries intent turnSeq now c =
     (if \<not> rd_Apply d then c
      else deriveConversationLoopState (applyRunRewindConversationState intent turnSeq
             (fst (appendEntriesInPlace
               (c\<lparr>cf_Entries := [], cf_NextEntrySeq := 1, cf_NextTurnSeq := 1,
                  cf_ImportedTurnIDs := rewindImportedTurnPrefix (cf_ImportedTurnIDs c) d\<rparr>)
               (appendReplacementRunEntries (rd_PrefixEntries d) entries) now))))"

subsection \<open>Which turn a rewind goes back to\<close>

lemma earliest_simps [simp]:
  "earliest e [] = e"
  "earliest e (m # ms) = earliest (if earlierHistoryEntry m e then m else e) ms"
  by (simp_all add: earliest_def)

lemma earlier_turn: "he_TurnSeq (if earlierHistoryEntry m e then m else e) = min (he_TurnSeq m) (he_TurnSeq e)"
  by (auto simp: earlierHistoryEntry_def)

lemma earliest_in: "earliest e es \<in> set (e # es)"
  by (induction es arbitrary: e) (auto split: if_splits)

lemma earliest_turn: "he_TurnSeq (earliest e es) = Min (he_TurnSeq ` set (e # es))"
proof (induction es arbitrary: e)
  case (Cons m ms)
  have "he_TurnSeq (earliest e (m # ms)) = Min (insert (min (he_TurnSeq m) (he_TurnSeq e)) (he_TurnSeq ` set ms))"
    using Cons [of "if earlierHistoryEntry m e then m else e"] by (simp add: earlier_turn)
  also have "\<dots> = Min (he_TurnSeq ` set (e # m # ms))"
    by (cases "ms = []") (simp_all add: min.assoc min.commute min.left_commute)
  finally show ?case .
qed simp

text \<open>The turns after those the client has, or all when there are none or the client does not tell.\<close>

definition turns_ahead :: "nat option \<Rightarrow> int set \<Rightarrow> int set" where
  "turns_ahead client ts =
     (case client of None \<Rightarrow> ts | Some n \<Rightarrow> if \<exists>t \<in> ts. int n < t then {t \<in> ts. int n < t} else ts)"

lemma select_turn:
  assumes "matches \<noteq> []"
  shows "fst (selectRunRewindMatch matches (case client of None \<Rightarrow> - 1 | Some n \<Rightarrow> int n) (client \<noteq> None)) \<in> set matches \<and>
    he_TurnSeq (fst (selectRunRewindMatch matches (case client of None \<Rightarrow> - 1 | Some n \<Rightarrow> int n) (client \<noteq> None))) =
      Min (turns_ahead client (he_TurnSeq ` set matches))"
proof -
  let ?ts = "he_TurnSeq ` set matches"
  let ?first = "earliest (hd matches) (tl matches)"
  have all: "?first \<in> set matches" "he_TurnSeq ?first = Min ?ts"
    using assms earliest_in [of "hd matches" "tl matches"] earliest_turn [of "hd matches" "tl matches"] by (metis list.collapse)+
  show ?thesis
  proof (cases client)
    case None
    with all show ?thesis by (simp add: selectRunRewindMatch_def turns_ahead_def Let_def)
  next
    case (Some n)
    let ?later = "filter (\<lambda>m. int n < he_TurnSeq m) matches"
    have later: "he_TurnSeq ` set ?later = {t \<in> ?ts. int n < t}" by auto
    show ?thesis
    proof (cases "find (\<lambda>m. he_TurnSeq m = int n + 1) matches")
      case aligned: (Some m)
      then have m: "m \<in> set matches" "he_TurnSeq m = int n + 1" by (auto simp: find_Some_iff)
      have "Min {t \<in> ?ts. int n < t} = int n + 1"
        using m by (intro Min_eqI) (auto intro: rev_image_eqI)
      moreover have "\<exists>t \<in> ?ts. int n < t" using m by (metis imageI less_add_one)
      ultimately show ?thesis using Some aligned m by (simp add: selectRunRewindMatch_def turns_ahead_def)
    next
      case None
      show ?thesis
      proof (cases ?later)
        case Nil
        then have "\<not> (\<exists>t \<in> ?ts. int n < t)" by (auto simp: filter_empty_conv)
        with Some None Nil all show ?thesis by (auto simp: selectRunRewindMatch_def turns_ahead_def Let_def)
      next
        case (Cons x xs)
        have x: "earliest x xs \<in> set ?later" "he_TurnSeq (earliest x xs) = Min {t \<in> ?ts. int n < t}"
          using earliest_in [of x xs] earliest_turn [of x xs] later by (simp_all only: Cons)
        moreover have "\<exists>t \<in> ?ts. int n < t" and "earliest x xs \<in> set matches" using x(1) by auto
        ultimately show ?thesis using Some None Cons by (simp add: selectRunRewindMatch_def turns_ahead_def)
      qed
    qed
  qed
qed

lemma length_partition: "length (filter P xs) + length (filter (\<lambda>x. \<not> P x) xs) = length xs"
  by (induction xs) auto

text \<open>
  C13. A rewind goes back to the right turn and cuts there. It is applied only to a message the history has,
  and goes to the first turn with that message among the turns that the client does not have (among all, when
  it has them all or does not tell). What is kept are the entries of earlier turns, in their order, and what
  is counted as dropped is the rest.
\<close>
theorem rewind_cuts_before_message:
  assumes "rd_Apply (decideRunRewind dc intent c)"
  shows "\<exists>message. in_UserMessage intent = Some message \<and>
    (let d = decideRunRewind dc intent c; target = rd_TargetTurnSeq d;
         ts = he_TurnSeq ` {e \<in> set (cf_Entries c). user_message_id dc e = Some (TrimSpace (um_MessageId message))}
     in target \<in> ts \<and> target = Min (turns_ahead (in_ClientTurns intent) ts) \<and> 0 < target \<and>
        rd_PrefixEntries d = filter (\<lambda>e. he_TurnSeq e < target) (cf_Entries c) \<and>
        rd_DroppedEntryCount d + length (rd_PrefixEntries d) = length (cf_Entries c))"
proof -
  let ?d = "decideRunRewind dc intent c"
  let ?client = "case in_ClientTurns intent of None \<Rightarrow> - 1 | Some n \<Rightarrow> int n"
  from assms obtain message where message: "in_UserMessage intent = Some message"
    by (auto simp: decideRunRewind_def no_rewind_def split: option.splits)
  define messageID where "messageID = TrimSpace (um_MessageId message)"
  define matches where "matches = findUserMessageEntriesByMessageID dc (cf_Entries c) messageID"
  obtain selected reason where sel: "selectRunRewindMatch matches ?client (in_ClientTurns intent \<noteq> None) = (selected, reason)"
    by force
  have matches: "matches \<noteq> []" and target: "0 < he_TurnSeq selected" "rd_TargetTurnSeq ?d = he_TurnSeq selected"
    and prefix: "rd_PrefixEntries ?d = prefixEntriesBeforeTurn (cf_Entries c) (he_TurnSeq selected)"
    and dropped: "rd_DroppedEntryCount ?d = fst (droppedEntryStats (cf_Entries c) (he_TurnSeq selected))"
    using assms sel
    by (simp_all add: decideRunRewind_def message Let_def no_rewind_def matches_def [symmetric] messageID_def [symmetric]
          split: if_splits prod.splits) auto
  have "messageID \<noteq> []" using matches by (auto simp: matches_def findUserMessageEntriesByMessageID_def messageID_def)
  then have set: "set matches = {e \<in> set (cf_Entries c). user_message_id dc e = Some messageID}"
    by (auto simp: matches_def findUserMessageEntriesByMessageID_def messageID_def)
  let ?ts = "he_TurnSeq ` {e \<in> set (cf_Entries c). user_message_id dc e = Some messageID}"
  have sel': "selected \<in> set matches" "he_TurnSeq selected = Min (turns_ahead (in_ClientTurns intent) ?ts)"
    using select_turn [OF matches, of "in_ClientTurns intent"] sel by (simp_all add: set)
  have "rd_DroppedEntryCount ?d + length (rd_PrefixEntries ?d) = length (cf_Entries c)"
    using length_partition [of "\<lambda>e. he_TurnSeq e < he_TurnSeq selected" "cf_Entries c"]
    by (simp add: prefix dropped droppedEntryStats_def prefixEntriesBeforeTurn_def not_less Let_def)
  moreover have "rd_TargetTurnSeq ?d \<in> ?ts" using sel'(1) set target(2) by auto
  moreover have "rd_TargetTurnSeq ?d = Min (turns_ahead (in_ClientTurns intent) ?ts)" using sel'(2) target(2) by (rule trans [rotated])
  moreover have "0 < rd_TargetTurnSeq ?d" "rd_PrefixEntries ?d = filter (\<lambda>e. he_TurnSeq e < rd_TargetTurnSeq ?d) (cf_Entries c)"
    using target prefix by (simp_all add: prefixEntriesBeforeTurn_def)
  ultimately show ?thesis
    unfolding Let_def messageID_def by (intro exI [of _ message] conjI message)
qed

text \<open>A client that shows one turn sends the message of the second of three turns again.\<close>

definition demo_message :: "string \<Rightarrow> UserMessage" where
  "demo_message i = \<lparr>um_MessageId = i, um_Text = ''t'', um_RichText = [], um_SubagentSystemReminder = [], um_SelectedContext = None\<rparr>"

definition demo_intent :: "nat option \<Rightarrow> string \<Rightarrow> InboundIntent" where
  "demo_intent turns i = \<lparr>in_Kind = ''run'', in_RequestID = ''r'', in_ConversationID = ''c'', in_ModelID = ''m'', in_ModelName = ''m'',
     in_RequestedContextTokens = 0, in_Mode = AGENT_MODE_AGENT, in_HasExplicitMode = False, in_ModeSource = ModeSourceUnknown,
     in_ManualCompaction = \<lparr>mc_Requested = False, mc_Instruction = []\<rparr>, in_SubagentTypeName = [], in_ClientTurns = turns,
     in_PrependUserMessages = [], in_UserMessage = Some (demo_message i), in_RequestContext = None, in_TranscriptsFolder = [],
     in_ActionCase = ''user_message_action'', in_CancelReason = [], in_StartsRun = True, in_Prewarm = False\<rparr>"

definition demo_turn_entry :: "int \<Rightarrow> string \<Rightarrow> HistoryEntry" where
  "demo_turn_entry n i = \<lparr>he_Seq = n, he_TurnSeq = n, he_RequestID = ''r'', he_IdempotencyKey = [], he_Role = ''user'',
     he_Kind = ''user_message'', he_ToolCallID = [], he_ParentToolCallID = [], he_Payload = RawValue (JObj [(''messageId'', JStr i)]), he_CreatedAt = 1\<rparr>"

definition demo_ids :: decoders where
  "demo_ids = \<lparr>dc_transcripts_folder = (\<lambda>_. None), dc_tool_call = (\<lambda>_. None), dc_runtime_state = (\<lambda>_. None),
     dc_message_id = (\<lambda>p. case p of RawValue (JObj [(_, JStr i)]) \<Rightarrow> Some i | _ \<Rightarrow> None)\<rparr>"

definition demo_history :: ConversationFile where
  "demo_history = zero_conversation\<lparr>cf_Entries := [demo_turn_entry 1 ''a'', demo_turn_entry 2 ''b'', demo_turn_entry 3 ''d''],
     cf_NextTurnSeq := 4, cf_NextEntrySeq := 4\<rparr>"

lemma demo_trims [simp]: "TrimSpace ''run'' = ''run''" "TrimSpace ''user_message'' = ''user_message''" "TrimSpace ''a'' = ''a''"
  "TrimSpace ''b'' = ''b''" "TrimSpace ''d'' = ''d''" "TrimSpace ''r'' = ''r''"
  by code_simp+

theorem rewind_cuts_before_message_witness:
  "rd_Apply (decideRunRewind demo_ids (demo_intent (Some 1) ''b'') demo_history) \<and>
   (\<exists>message. in_UserMessage (demo_intent (Some 1) ''b'') = Some message \<and>
    (let d = decideRunRewind demo_ids (demo_intent (Some 1) ''b'') demo_history; target = rd_TargetTurnSeq d;
         ts = he_TurnSeq ` {e \<in> set (cf_Entries demo_history). user_message_id demo_ids e = Some (TrimSpace (um_MessageId message))}
     in target \<in> ts \<and> target = Min (turns_ahead (in_ClientTurns (demo_intent (Some 1) ''b'')) ts) \<and> 0 < target \<and>
        rd_PrefixEntries d = filter (\<lambda>e. he_TurnSeq e < target) (cf_Entries demo_history) \<and>
        rd_DroppedEntryCount d + length (rd_PrefixEntries d) = length (cf_Entries demo_history)))"
proof -
  have applied: "rd_Apply (decideRunRewind demo_ids (demo_intent (Some 1) ''b'') demo_history)"
    by (simp add: decideRunRewind_def demo_intent_def demo_message_def demo_history_def demo_turn_entry_def demo_ids_def
        shouldEvaluateRunRewind_def no_rewind_def maxHistoryTurnSeq_def findUserMessageEntriesByMessageID_def user_message_id_def
        selectRunRewindMatch_def droppedEntryStats_def Let_def)
  with rewind_cuts_before_message [OF applied] show ?thesis by blast
qed

text \<open>
  A run processes each message once: the messages that are run, prepended ones first, are those of the
  request whose id the history does not have, in their order, and there is work exactly if there are any.
\<close>
theorem unprocessed_messages_are_run:
  "let (message, prepended, work) = filterUnprocessedUserMessages dc intent c;
       fresh = filter (is_new_message (existingMessageIDs dc (cf_Entries c)))
                 (in_PrependUserMessages intent @ (case in_UserMessage intent of None \<Rightarrow> [] | Some m \<Rightarrow> [m]))
   in prepended @ (case message of None \<Rightarrow> [] | Some m \<Rightarrow> [m]) = fresh \<and> work = (fresh \<noteq> [])"
proof (cases "cf_Entries c = []")
  case True
  have "existingMessageIDs dc [] = []" by (simp add: existingMessageIDs_def List.map_filter_def)
  then have "is_new_message (existingMessageIDs dc []) = (\<lambda>_. True)" by (auto simp: is_new_message_def)
  with True show ?thesis by (cases "in_UserMessage intent") (auto simp: filterUnprocessedUserMessages_def)
next
  case False
  then show ?thesis
    by (cases "in_UserMessage intent") (auto simp: filterUnprocessedUserMessages_def Let_def)
qed

end
