(* ===== verification/Turn_Actor.thy ===== *)
theory Turn_Actor
  imports Turn_Memory Cancel_Replay
begin

text \<open>
  The actor of a stream (\<open>actor.go\<close>) and the parts of a turn it drives (\<open>service.go\<close>): which provider
  call runs next, what is done with its events, and how a turn completes, fails and is canceled. A handler
  sees one instant \<open>now\<close>. What the model does not define is a parameter of the handlers, collected in
  \<open>env\<close>: the decoders, the text of an error, the bytes of a reasoning summary as JSON, the SHA-256 digest
  in hexadecimal, a new random id, the projection of the conversation (\<open>projector.go\<close>), the preparation of a
  provider call (prompt compilation and compaction), the execution of a tool, the display form of a tool
  call, and the result of an edit that is canceled.
\<close>

type_synonym turn_result = "world \<times> turn_error option"

text \<open>The result of an edit: as a tool result of the history, and as a tool call for the client.\<close>

record edit_outcome =
  eo_ToolName :: string
  eo_Args :: string
  eo_Text :: string
  eo_History :: raw_json
  eo_ToolCall :: tool_call

record env =
  en_dc :: decoders
  en_text :: "turn_error \<Rightarrow> string"
  en_raw :: "string \<Rightarrow> raw_json"
  en_sha :: "string \<Rightarrow> string"
  en_uuid :: string
  en_projection :: "world \<Rightarrow> turn_error + (conversation_state \<times> CheckpointBlob list)"
  en_prepare :: "world \<Rightarrow> world \<times> prepared"
  en_tool :: "world \<Rightarrow> tool_invocation \<Rightarrow> turn_result"
  en_display :: "world \<Rightarrow> tool_call \<Rightarrow> tool_call"
  en_edit_outcome :: "PendingExec \<Rightarrow> turn_error + edit_outcome"

definition and_then :: "turn_result \<Rightarrow> (world \<Rightarrow> turn_result) \<Rightarrow> turn_result" where
  "and_then r f = (case r of (w, Some e) \<Rightarrow> (w, Some e) | (w, None) \<Rightarrow> f w)"

definition on_error :: "turn_result \<Rightarrow> (world \<Rightarrow> turn_error \<Rightarrow> turn_result) \<Rightarrow> turn_result" where
  "on_error r f = (case r of (w, Some e) \<Rightarrow> f w e | (w, None) \<Rightarrow> (w, None))"

definition wrapping :: "string \<Rightarrow> turn_result \<Rightarrow> turn_result" where
  "wrapping text r = (case r of (w, e) \<Rightarrow> (w, map_option (Wrapped text) e))"

definition lift_turn :: "(turn \<Rightarrow> turn \<times> fwd_error option) \<Rightarrow> world \<Rightarrow> turn_result" where
  "lift_turn f w = (case f (w_turn w) of (t, e) \<Rightarrow> (w\<lparr>w_turn := t\<rparr>, map_option StreamError e))"

abbreviation stream :: "world \<Rightarrow> ActiveStream option" where
  "stream w \<equiv> stream_of (w_turn w)"

abbreviation on_stream :: "(ActiveStream \<Rightarrow> ActiveStream) \<Rightarrow> world \<Rightarrow> world" where
  "on_stream f \<equiv> on_turn (upd f)"

abbreviation request :: "world \<Rightarrow> string" where
  "request w \<equiv> tn_RequestID (w_turn w)"

definition set_phase :: "TurnPhase \<Rightarrow> gtime \<Rightarrow> world \<Rightarrow> world" where
  "set_phase phase now = on_turn (\<lambda>t. setTurnPhase t phase now)"

definition publish_message :: "server_message \<Rightarrow> gtime \<Rightarrow> world \<Rightarrow> turn_result" where
  "publish_message m now w = lift_turn (\<lambda>t. publish_to t (tn_RequestID t) m now) w"

definition append_entries :: "env \<Rightarrow> string \<Rightarrow> HistoryEntry list \<Rightarrow> gtime \<Rightarrow> world \<Rightarrow> turn_result" where
  "append_entries env conversationID entries now w =
     (case appendConversationEntries (en_dc env) w conversationID entries now of
        (w1, Inl e) \<Rightarrow> (w1, Some e) | (w1, Inr _) \<Rightarrow> (w1, None))"

subsection \<open>Entries of an assistant\<close>

definition hasReplayableReasoningPayload :: "string \<Rightarrow> string \<Rightarrow> string \<Rightarrow> bool" where
  "hasReplayableReasoningPayload content signature source \<longleftrightarrow>
     TrimSpace content \<noteq> [] \<or> TrimSpace signature \<noteq> [] \<and> TrimSpace source = ''openai_responses''"

record providerReasoningPayload =
  rp_Content :: string
  rp_Signature :: string
  rp_SignatureSource :: string
  rp_ItemID :: string
  rp_Status :: string
  rp_Summary :: string

definition no_reasoning :: providerReasoningPayload where
  "no_reasoning = \<lparr>rp_Content = [], rp_Signature = [], rp_SignatureSource = [], rp_ItemID = [], rp_Status = [],
     rp_Summary = []\<rparr>"

definition stream_reasoning :: "ActiveStream \<Rightarrow> providerReasoningPayload" where
  "stream_reasoning s = \<lparr>rp_Content = as_AccumulatedReasoning s, rp_Signature = as_ReasoningSignature s,
     rp_SignatureSource = as_ReasoningSignatureSource s, rp_ItemID = as_ReasoningItemID s,
     rp_Status = as_ReasoningStatus s, rp_Summary = as_ReasoningSummary s\<rparr>"

definition omitempty :: "string \<Rightarrow> string \<Rightarrow> (string \<times> json) list" where
  "omitempty field v = (if v = [] then [] else [(field, JStr v)])"

definition newAssistantTextPayload :: "env \<Rightarrow> string \<Rightarrow> providerReasoningPayload \<Rightarrow> raw_json" where
  "newAssistantTextPayload env t r =
     (let members = (''text'', JStr t) # omitempty ''reasoning_content'' (rp_Content r) @
            omitempty ''reasoning_signature'' (TrimSpace (rp_Signature r)) @
            omitempty ''reasoning_signature_source'' (TrimSpace (rp_SignatureSource r)) @
            omitempty ''reasoning_item_id'' (TrimSpace (rp_ItemID r)) @
            omitempty ''reasoning_status'' (TrimSpace (rp_Status r))
      in case en_raw env (rp_Summary r) of
           RawEmpty \<Rightarrow> RawValue (JObj members)
         | RawInvalid \<Rightarrow> RawEmpty
         | RawValue v \<Rightarrow> RawValue (JObj (members @ [(''reasoning_summary'', v)])))"

definition newAssistantTextEntryWithProviderMetadata ::
  "env \<Rightarrow> int \<Rightarrow> string \<Rightarrow> string \<Rightarrow> providerReasoningPayload \<Rightarrow> HistoryEntry" where
  "newAssistantTextEntryWithProviderMetadata env turnSeq requestID t r =
     \<lparr>he_Seq = 0, he_TurnSeq = turnSeq, he_RequestID = TrimSpace requestID, he_IdempotencyKey = [],
      he_Role = ''assistant'', he_Kind = ''assistant_text'', he_ToolCallID = [], he_ParentToolCallID = [],
      he_Payload = newAssistantTextPayload env t r, he_CreatedAt = 0\<rparr>"

definition flushAssistantText ::
  "env \<Rightarrow> string \<Rightarrow> int \<Rightarrow> string \<Rightarrow> string \<Rightarrow> providerReasoningPayload \<Rightarrow> bool \<Rightarrow> gtime \<Rightarrow> world \<Rightarrow> turn_result" where
  "flushAssistantText env conversationID turnSeq requestID t r allowReasoningOnly now w =
     (if TrimSpace t = [] \<and>
         (\<not> allowReasoningOnly \<or> \<not> hasReplayableReasoningPayload (rp_Content r) (rp_Signature r) (rp_SignatureSource r))
      then (w, None)
      else append_entries env conversationID
             [newAssistantTextEntryWithProviderMetadata env turnSeq requestID t r] now w)"

definition clear_output :: "ActiveStream \<Rightarrow> ActiveStream" where
  "clear_output s = s\<lparr>as_AccumulatedText := [], as_AccumulatedReasoning := [], as_ReasoningSignature := [],
     as_ReasoningSignatureSource := [], as_ReasoningItemID := [], as_ReasoningStatus := [], as_ReasoningSummary := []\<rparr>"

definition takeProviderOutputForTool :: "gtime \<Rightarrow> world \<Rightarrow> (string \<times> providerReasoningPayload) \<times> world" where
  "takeProviderOutputForTool now w =
     (case stream w of
        None \<Rightarrow> (([], no_reasoning), w)
      | Some s \<Rightarrow> ((as_AccumulatedText s, stream_reasoning s), on_stream (\<lambda>s. (clear_output s)\<lparr>as_UpdatedAt := now\<rparr>) w))"

subsection \<open>Checkpoints\<close>

definition publishCheckpointWithTerminalAction ::
  "env \<Rightarrow> checkpointTerminalAction \<Rightarrow> gtime \<Rightarrow> world \<Rightarrow> turn_result" where
  "publishCheckpointWithTerminalAction env terminal now w =
     (case stream w of
        None \<Rightarrow> (w, Some (StreamError (RequestNotActive (request w))))
      | Some _ \<Rightarrow>
          (case snapshotCheckpointConversation w of
             Inl e \<Rightarrow> (w, Some e)
           | Inr _ \<Rightarrow>
               (case en_projection env w of
                  Inl e \<Rightarrow> (w, Some e)
                | Inr (state, blobs) \<Rightarrow>
                    lift_turn (\<lambda>t. queueCheckpointProjectionWithTerminal t state blobs terminal now) w)))"

definition publishCheckpoint :: "env \<Rightarrow> gtime \<Rightarrow> world \<Rightarrow> turn_result" where
  "publishCheckpoint env = publishCheckpointWithTerminalAction env (successfulCheckpointTerminalAction None)"

subsection \<open>How a turn ends\<close>

definition clearPendingProviderCompletion :: "gtime \<Rightarrow> world \<Rightarrow> world" where
  "clearPendingProviderCompletion now = on_stream (\<lambda>s. s\<lparr>as_PendingProviderCompletion := None, as_UpdatedAt := now\<rparr>)"

text \<open>The context of the running provider call is canceled.\<close>

definition cancel_provider :: "world \<Rightarrow> world" where
  "cancel_provider w =
     (case stream w of
        None \<Rightarrow> w
      | Some s \<Rightarrow>
          (case as_ProviderCancel s of
             None \<Rightarrow> w
           | Some ctx \<Rightarrow> on_turn (\<lambda>t. t\<lparr>tn_broker := (tn_broker t)
               \<lparr>br_canceledContexts := br_canceledContexts (tn_broker t) @ [ctx]\<rparr>\<rparr>) w))"

text \<open>An error is dropped: only what was done before it counts.\<close>

abbreviation ignoring :: "turn_result \<Rightarrow> world" where
  "ignoring r \<equiv> fst r"

definition failActiveStream :: "env \<Rightarrow> string \<Rightarrow> string \<Rightarrow> string \<Rightarrow> gtime \<Rightarrow> world \<Rightarrow> turn_result" where
  "failActiveStream env modelCallID terminalCode terminalMessage now w =
     (let w1 = cancel_provider (clearPendingProviderCompletion now w);
          w2 = on_stream (\<lambda>s. s\<lparr>as_ProviderActive := False, as_ProviderCancel := None,
                 as_PendingProviderAction := providerActionNone, as_UpdatedAt := now\<rparr>) w1;
          w3 = ignoring (syncSummaryCarryForward (en_dc env) w2 (request w2) modelCallID now);
          w4 = on_turn (\<lambda>t. discardPendingCheckpoint t now) w3;
          w5 = ignoring (publishCheckpoint env now w4)
      in lift_turn (\<lambda>t. finishFailedTurnAfterCheckpoint t terminalCode terminalMessage now) w5)"

fun terminal_code :: "turn_error \<Rightarrow> string option" where
  "terminal_code (CodedError code _) = Some (TrimSpace code)"
| "terminal_code (Wrapped _ e) = terminal_code e"
| "terminal_code (ProviderTerminal e) = terminal_code e"
| "terminal_code _ = None"

fun is_provider_error :: "turn_error \<Rightarrow> bool" where
  "is_provider_error (ProviderTerminal _) = True"
| "is_provider_error (Wrapped _ e) = is_provider_error e"
| "is_provider_error _ = False"

fun is_interrupted :: "turn_error \<Rightarrow> bool" where
  "is_interrupted ProviderInterrupted = True"
| "is_interrupted (Wrapped _ e) = is_interrupted e"
| "is_interrupted (ProviderTerminal e) = is_interrupted e"
| "is_interrupted _ = False"

definition resolveTerminalCode :: "string \<Rightarrow> turn_error option \<Rightarrow> string" where
  "resolveTerminalCode fallback cause =
     (let code = firstNonEmpty [TrimSpace fallback, ''unknown'']
      in case cause of
           None \<Rightarrow> code
         | Some e \<Rightarrow>
             (if code \<noteq> ''unknown'' then code
              else case terminal_code e of
                     Some c \<Rightarrow> if c \<noteq> [] then c else code
                   | None \<Rightarrow> code))"

definition failStream :: "env \<Rightarrow> string \<Rightarrow> turn_error \<Rightarrow> gtime \<Rightarrow> world \<Rightarrow> turn_result" where
  "failStream env terminalCode cause now w =
     (case stream w of
        None \<Rightarrow> (w, None)
      | Some s \<Rightarrow>
          (let message = TrimSpace (en_text env cause);
               errorText = (if message = [] then ''unknown error'' else message);
               code = resolveTerminalCode terminalCode (Some cause);
               kind = (if is_provider_error cause \<or> code = ''provider_error'' then ''provider_error'' else ''failed'');
               w1 = ignoring (append_entries env (as_ConversationID s)
                      [newMetadataEntry (as_TurnSeq s) (request w) kind [(''error'', JStr errorText)]] now w)
           in failActiveStream env (as_CurrentModelCallID s) code errorText now w1))"

definition failStreamIfNonTerminal :: "env \<Rightarrow> string \<Rightarrow> turn_error \<Rightarrow> gtime \<Rightarrow> world \<Rightarrow> turn_result" where
  "failStreamIfNonTerminal env terminalCode cause now w =
     (case stream w of
        None \<Rightarrow> (w, None)
      | Some s \<Rightarrow> if isTerminalStreamStatus (as_Status s) then (w, None) else failStream env terminalCode cause now w)"

definition completeSuccessfulTurn :: "env \<Rightarrow> pendingTurnCompletion \<Rightarrow> gtime \<Rightarrow> world \<Rightarrow> turn_result" where
  "completeSuccessfulTurn env completion now w =
     (case stream w of
        None \<Rightarrow> (w, None)
      | Some s \<Rightarrow>
          (let requestID = firstNonEmpty [TrimSpace (pc_RequestID completion), TrimSpace (request w)];
               conversationID = firstNonEmpty [TrimSpace (pc_ConversationID completion), TrimSpace (as_ConversationID s)];
               modelCallID = firstNonEmpty [TrimSpace (pc_ModelCallID completion), TrimSpace (as_CurrentModelCallID s)];
               turnSeq = (if pc_TurnSeq completion \<le> 0 then as_TurnSeq s else pc_TurnSeq completion)
           in and_then (wrapping ''record completed turn usage: ''
                (recordTurnUsageSnapshot (en_dc env) w conversationID requestID modelCallID ''completed'' (pc_Usage completion) [] now))
              (\<lambda>w1. and_then (append_entries env conversationID
                 [newMetadataEntry turnSeq requestID ''turn_completed'' [(''model_call_id'', JStr modelCallID)]] now w1)
              (\<lambda>w2. let w3 = recordTurnFinalizedSnapshot w2 conversationID turnSeq requestID ''completed'' now;
                        w4 = ignoring (syncSummaryCarryForward (en_dc env) w3 requestID modelCallID now);
                        w5 = ignoring (publishCheckpoint env now w4)
                    in lift_turn (\<lambda>t. finishSuccessfulTurnAfterCheckpoint t completion now) w5))))"

definition closeStreamWithProviderError ::
  "env \<Rightarrow> ActiveStream \<Rightarrow> turn_error \<Rightarrow> bool \<Rightarrow> gtime \<Rightarrow> world \<Rightarrow> turn_result" where
  "closeStreamWithProviderError env s cause allowReasoningOnly now w =
     (let message = TrimSpace (en_text env cause);
          errorText = (if message = [] then ''provider error'' else message);
          cid = as_ConversationID s; rid = request w; callID = TrimSpace (as_CurrentModelCallID s); seq = as_TurnSeq s
      in and_then (wrapping ''flush provider error assistant output: ''
           (flushAssistantText env cid seq rid (as_AccumulatedText s) (stream_reasoning s) allowReasoningOnly now w))
         (\<lambda>w1. and_then (wrapping ''record provider error usage: ''
            (recordTurnUsageSnapshot (en_dc env) w1 cid rid callID ''provider_error'' (as_Usage s) errorText now))
         (\<lambda>w2. and_then (append_entries env cid [newMetadataEntry seq rid ''provider_error''
            [(''error'', JStr errorText), (''model_call_id'', JStr callID)]] now w2)
         (\<lambda>w3. let w4 = recordTurnFinalizedSnapshot w3 cid seq rid ''provider_error'' now
               in and_then (updateConversationTokenState (en_dc env) w4 cid (as_Usage s) callID False now)
         (\<lambda>w5. failActiveStream env callID ''provider_error'' errorText now w5)))))"


subsection \<open>Provider calls\<close>

definition pendingBridgeCount :: "ActiveStream \<Rightarrow> nat" where
  "pendingBridgeCount s = length (as_PendingExecs s) + length (as_PendingInteractions s)"

definition shouldAutoResumeAfterInteraction :: "PendingInteraction \<Rightarrow> bool" where
  "shouldAutoResumeAfterInteraction pending = True"

definition hasPendingAwaitingUserInteraction :: "ActiveStream \<Rightarrow> bool" where
  "hasPendingAwaitingUserInteraction s \<longleftrightarrow>
     list_ex (\<lambda>(_, pending). \<not> shouldAutoResumeAfterInteraction pending) (as_PendingInteractions s)"

definition shouldResumeAfterToolResults :: "string \<Rightarrow> bool" where
  "shouldResumeAfterToolResults finishReason \<longleftrightarrow>
     TrimSpace finishReason \<in> {''tool_use'', ''tool_calls'', ''function_call''}"

fun mergeCompletionDisposition ::
  "pendingCompletionDisposition \<Rightarrow> pendingCompletionDisposition \<Rightarrow> pendingCompletionDisposition" where
  "mergeCompletionDisposition existing incoming =
     (if existing = completionDispositionCompleteAfterExternal \<or> incoming = completionDispositionCompleteAfterExternal
      then completionDispositionCompleteAfterExternal
      else if existing = completionDispositionResumeAfterExternal \<or> incoming = completionDispositionResumeAfterExternal
      then completionDispositionResumeAfterExternal
      else completionDispositionCompleteAfterExternal)"

definition mergePendingProviderCompletion ::
  "pendingTurnCompletion option \<Rightarrow> pendingTurnCompletion \<Rightarrow> pendingTurnCompletion" where
  "mergePendingProviderCompletion existing incoming =
     (case existing of
        None \<Rightarrow>
          (if pc_Disposition incoming = completionDispositionNone
           then incoming\<lparr>pc_Disposition := completionDispositionCompleteAfterExternal\<rparr> else incoming)
      | Some m \<Rightarrow>
          m\<lparr>pc_ConversationID := (if pc_ConversationID m = [] then pc_ConversationID incoming else pc_ConversationID m),
            pc_RequestID := (if pc_RequestID m = [] then pc_RequestID incoming else pc_RequestID m),
            pc_TurnSeq := (if pc_TurnSeq m \<le> 0 \<and> pc_TurnSeq incoming > 0 then pc_TurnSeq incoming else pc_TurnSeq m),
            pc_ModelCallID := (if TrimSpace (pc_ModelCallID m) = [] \<and> TrimSpace (pc_ModelCallID incoming) \<noteq> []
                               then pc_ModelCallID incoming else pc_ModelCallID m),
            pc_ProviderPass := (if pc_ProviderPass m = 0 then pc_ProviderPass incoming else pc_ProviderPass m),
            pc_Usage := (if hasAny (pc_Usage incoming) then pc_Usage incoming else pc_Usage m),
            pc_Disposition := mergeCompletionDisposition (pc_Disposition m) (pc_Disposition incoming)\<rparr>)"

definition rememberPendingProviderCompletion :: "pendingTurnCompletion \<Rightarrow> gtime \<Rightarrow> world \<Rightarrow> world" where
  "rememberPendingProviderCompletion completion now =
     on_stream (\<lambda>s. s\<lparr>as_PendingProviderCompletion :=
       Some (mergePendingProviderCompletion (as_PendingProviderCompletion s) completion), as_UpdatedAt := now\<rparr>)"

definition completionDispositionForExternalResults :: "string \<Rightarrow> bool \<Rightarrow> bool \<Rightarrow> pendingCompletionDisposition" where
  "completionDispositionForExternalResults finishReason forceComplete hadToolInvocation =
     (if forceComplete then completionDispositionCompleteAfterExternal
      else if hadToolInvocation \<or> shouldResumeAfterToolResults finishReason then completionDispositionResumeAfterExternal
      else completionDispositionCompleteAfterExternal)"

text \<open>The first section of \<open>driveProvider\<close>: the next pass begins.\<close>

definition begin_pass :: "string \<Rightarrow> gtime \<Rightarrow> ActiveStream \<Rightarrow> ActiveStream" where
  "begin_pass callID now s =
     (clear_output s)\<lparr>as_ProviderPassCount := as_ProviderPassCount s + 1, as_Status := StreamStatusStreaming,
       as_PendingProviderAction := providerActionNone, as_CurrentModelCallID := callID,
       as_CurrentProviderToken := as_CurrentProviderToken s + 1,
       as_SyntheticThinkingStartedAt :=
         (if IsZero (as_SyntheticThinkingStartedAt s) then now else as_SyntheticThinkingStartedAt s),
       as_FinishReason := [], as_Usage := zero_usage, as_ToolInvocationCount := 0, as_UpdatedAt := now\<rparr>"

text \<open>The section after a compaction took the place of the provider call.\<close>

definition after_compaction :: "gtime \<Rightarrow> world \<Rightarrow> world" where
  "after_compaction now w =
     (let w1 = on_stream (\<lambda>s. s\<lparr>as_ProviderActive := False, as_ProviderCancel := None, as_UpdatedAt := now\<rparr>) w
      in case stream w1 of
           None \<Rightarrow> w1
         | Some s \<Rightarrow>
             set_phase
               (if isTerminalStreamStatus (as_Status s)
                then (if as_Status s = StreamStatusCompleted then TurnPhaseCompleted
                      else if as_Status s = StreamStatusCanceled then TurnPhaseCanceled else TurnPhaseFailed)
                else if as_PendingCompaction s then TurnPhaseCompacting else TurnPhaseIdle) now w1)"

text \<open>The section that starts the provider goroutine.\<close>

definition start_pass :: "int \<Rightarrow> int \<Rightarrow> int \<Rightarrow> int \<Rightarrow> u64 \<Rightarrow> gtime \<Rightarrow> world \<Rightarrow> world" where
  "start_pass pass compileMS promptTokens replayCount token now w =
     (let w1 = on_stream (\<lambda>s. s\<lparr>as_ProviderActive := True, as_ProviderCancel := Some (unat token),
            as_Usage := zero_usage\<lparr>tu_ProviderPass := pass, tu_CompileDurationMS := compileMS,
              tu_EstimatedPromptTokens := promptTokens, tu_ReplayMessageCount := replayCount,
              tu_RequestPreparedAt := now\<rparr>, as_UpdatedAt := now\<rparr>) w
      in (set_phase TurnPhaseProviderRunning now w1)\<lparr>w_providers := w_providers w @ [token]\<rparr>)"

definition driveProvider :: "env \<Rightarrow> gtime \<Rightarrow> world \<Rightarrow> turn_result" where
  "driveProvider env now w =
     (case stream w of
        None \<Rightarrow> (w, None)
      | Some s \<Rightarrow>
          (if as_ProviderActive s \<or> as_Status s = StreamStatusCanceled \<or> as_Status s = StreamStatusCompleted \<or>
              as_Status s = StreamStatusFailed
           then (w, None)
           else let w1 = on_stream (begin_pass (en_uuid env) now) w;
                    pass = as_ProviderPassCount s + 1; token = as_CurrentProviderToken s + 1
                in case snapshotCheckpointConversation w1 of
                     Inl e \<Rightarrow> failStream env ''unknown'' e now (set_phase TurnPhaseFailed now w1)
                   | Inr _ \<Rightarrow>
                       (case en_prepare env w1 of
                          (w2, PrepareFailed e) \<Rightarrow> failStream env ''unknown'' e now (set_phase TurnPhaseFailed now w2)
                        | (w2, PreparedCompaction) \<Rightarrow> (after_compaction now w2, None)
                        | (w2, Prepared compileMS promptTokens replayCount) \<Rightarrow>
                            (case (case w_conversation w2 of
                                     None \<Rightarrow> (w2, None)
                                   | Some c \<Rightarrow> syncSummarySnapshot (en_dc env) w2 (cloneConversationFile c) (request w2)
                                       (en_uuid env) now) of
                               (w3, Some e) \<Rightarrow> failStream env ''unknown'' e now (set_phase TurnPhaseFailed now w3)
                             | (w3, None) \<Rightarrow> (start_pass pass compileMS promptTokens replayCount token now w3, None)))))"

text \<open>
  \<open>reconcileStream\<close>: what a turn does next, once nothing runs and nothing is waited for.
\<close>

definition providerResumeTimer :: string where
  "providerResumeTimer = providerTimerKey streamTimerProviderResume []"

definition follow_action :: "env \<Rightarrow> providerAction \<Rightarrow> gtime \<Rightarrow> world \<Rightarrow> turn_result" where
  "follow_action env action now w =
     (case action of
        providerActionStart \<Rightarrow> driveProvider env now w
      | providerActionResume \<Rightarrow>
          (on_turn (\<lambda>t. scheduleStreamTimer t providerResumeTimer streamTimerProviderResume [] 0 [] now)
             (set_phase TurnPhaseWaitingExternal now w), None)
      | providerActionNone \<Rightarrow> (set_phase TurnPhaseIdle now w, None))"

definition resume_after_external :: "gtime \<Rightarrow> ActiveStream \<Rightarrow> ActiveStream" where
  "resume_after_external now s =
     s\<lparr>as_PendingProviderCompletion := None,
       as_PendingProviderAction := (if as_PendingProviderAction s = providerActionStart then providerActionStart
                                    else providerActionResume), as_UpdatedAt := now\<rparr>"

definition reconcileStream :: "env \<Rightarrow> gtime \<Rightarrow> world \<Rightarrow> turn_result" where
  "reconcileStream env now w =
     (case stream w of
        None \<Rightarrow> (w, None)
      | Some s \<Rightarrow>
          (if isTerminalStreamStatus (as_Status s) \<or> as_ProviderActive s then (w, None)
           else if 0 < pendingBridgeCount s
           then (set_phase (if hasPendingAwaitingUserInteraction s then TurnPhaseAwaitingUser
                            else if as_PendingCompaction s then TurnPhaseCompacting
                            else TurnPhaseWaitingExternal) now w, None)
           else if as_PendingCompaction s then (set_phase TurnPhaseCompacting now w, None)
           else case as_PendingProviderCompletion s of
                  Some completion \<Rightarrow>
                    (if pc_Disposition completion = completionDispositionResumeAfterExternal
                     then follow_action env providerActionResume now (on_stream (resume_after_external now) w)
                     else on_error (completeSuccessfulTurn env completion now (clearPendingProviderCompletion now w))
                            (\<lambda>w1 e. failStreamIfNonTerminal env ''unknown'' e now w1))
                | None \<Rightarrow> follow_action env (as_PendingProviderAction s) now w))"

definition requestProviderAction :: "env \<Rightarrow> providerAction \<Rightarrow> gtime \<Rightarrow> world \<Rightarrow> turn_result" where
  "requestProviderAction env action now w =
     reconcileStream env now (on_stream (\<lambda>s. s\<lparr>as_PendingProviderAction :=
       (case action of
          providerActionStart \<Rightarrow> providerActionStart
        | providerActionResume \<Rightarrow>
            (if as_PendingProviderAction s = providerActionStart then providerActionStart else providerActionResume)
        | providerActionNone \<Rightarrow> providerActionNone), as_UpdatedAt := now\<rparr>) w)"

subsection \<open>Events of a provider call\<close>

definition providerTokenMatches :: "world \<Rightarrow> u64 \<Rightarrow> bool" where
  "providerTokenMatches w token \<longleftrightarrow>
     token \<noteq> 0 \<and> (case stream w of None \<Rightarrow> False | Some s \<Rightarrow> as_CurrentProviderToken s = token)"

record thinking_end =
  th_Style :: int
  th_DurationMS :: int
  th_Signature :: string
  th_SignatureSource :: string
  th_ItemID :: string
  th_Status :: string
  th_Summary :: string

datatype ModelEvent =
    EventTextDelta string
  | EventThinkingDelta string int
  | EventThinkingCompleted thinking_end
  | EventPartialToolCall string "tool_call option" string
  | EventToolCallDelta string "tool_call_delta option"
  | EventToolLikeCompleted "tool_invocation option"
  | EventTurnFinished string turnUsageSnapshot
  | EventProviderError "turn_error option"
  | EventOther

definition firstNonZeroTime :: "gtime \<Rightarrow> gtime \<Rightarrow> gtime" where
  "firstNonZeroTime a b = (if IsZero a then b else a)"

definition completedToolCall :: "ActiveStream \<Rightarrow> string \<Rightarrow> bool" where
  "completedToolCall s toolCallID \<longleftrightarrow>
     TrimSpace toolCallID \<noteq> [] \<and> map_of (as_CompletedToolCallIDs s) (TrimSpace toolCallID) \<noteq> None"

definition encrypted_thinking_text :: string where
  "encrypted_thinking_text = ''The reasoning process is encrypted. Please wait a moment. '' @
     ''(This message does not affect any functionality; it only indicates the current reasoning status.)''"

text \<open>
  The end of a thinking block: the stream with its signature, whether a stand-in text is shown, whether
  the end is not announced, and the duration announced.
\<close>

definition thinking_section ::
  "thinking_end \<Rightarrow> gtime \<Rightarrow> ActiveStream \<Rightarrow> ActiveStream \<times> bool \<times> bool \<times> int" where
  "thinking_section e now s =
     (if TrimSpace (th_Signature e) = [] then (s, False, False, th_DurationMS e)
      else let s1 = s\<lparr>as_ReasoningSignature := TrimSpace (th_Signature e),
                 as_ReasoningSignatureSource := TrimSpace (th_SignatureSource e),
                 as_ReasoningItemID := TrimSpace (th_ItemID e), as_ReasoningStatus := TrimSpace (th_Status e),
                 as_ReasoningSummary := th_Summary e, as_UpdatedAt := now\<rparr>
           in if TrimSpace (as_AccumulatedReasoning s) = [] \<and> TrimSpace (th_SignatureSource e) = ''openai_responses''
              then let startedAt = (if IsZero (as_SyntheticThinkingStartedAt s) then now else as_SyntheticThinkingStartedAt s);
                       s2 = s1\<lparr>as_SyntheticThinkingStartedAt := startedAt\<rparr>;
                       elapsed = sint (of_int ((now - startedAt) div 10 ^ 6) :: 32 word);
                       duration = (if th_DurationMS e \<le> 0 then (if elapsed \<le> 0 then 1 else elapsed) else th_DurationMS e)
                   in if as_SyntheticThinkingPublished s then (s2, False, True, duration)
                      else (s2\<lparr>as_SyntheticThinkingPublished := True\<rparr>, True, False, duration)
              else (s1, False, False, th_DurationMS e))"

definition applyProviderModelEvent :: "env \<Rightarrow> gtime \<Rightarrow> ModelEvent \<Rightarrow> gtime \<Rightarrow> world \<Rightarrow> turn_result" where
  "applyProviderModelEvent env occurredAt event now w0 =
     (case stream w0 of
        None \<Rightarrow> (w0, None)
      | Some s0 \<Rightarrow>
          (let w = on_stream (\<lambda>s. if IsZero (tu_FirstEventAt (as_Usage s))
                     then s\<lparr>as_Usage := (as_Usage s)\<lparr>tu_FirstEventAt := firstNonZeroTime occurredAt now\<rparr>\<rparr> else s) w0;
               callID = as_CurrentModelCallID s0
           in case event of
                EventTextDelta t \<Rightarrow>
                  publish_message (buildTextDeltaMessage t) now
                    (on_stream (\<lambda>s. s\<lparr>as_AccumulatedText := as_AccumulatedText s @ t, as_UpdatedAt := now\<rparr>) w)
              | EventThinkingDelta t style \<Rightarrow>
                  publish_message (buildThinkingDeltaMessage t style) now
                    (on_stream (\<lambda>s. s\<lparr>as_AccumulatedReasoning := as_AccumulatedReasoning s @ t, as_UpdatedAt := now\<rparr>) w)
              | EventThinkingCompleted e \<Rightarrow>
                  (let (_, synthetic, suppress, duration) = thinking_section e now s0;
                       w1 = on_stream (\<lambda>s. fst (thinking_section e now s)) w
                   in and_then (if synthetic
                                then publish_message (buildThinkingDeltaMessage encrypted_thinking_text (th_Style e)) now w1
                                else (w1, None))
                        (\<lambda>w2. if suppress then (w2, None)
                              else publish_message (buildThinkingCompletedMessage duration) now w2))
              | EventPartialToolCall callRaw toolCall args \<Rightarrow>
                  (case toolCall of
                     None \<Rightarrow> (w, None)
                   | Some tc \<Rightarrow>
                       (if TrimSpace callRaw = [] \<or> completedToolCall s0 (TrimSpace callRaw) then (w, None)
                        else let shown = en_display env w tc;
                                 w1 = on_stream (\<lambda>s. s\<lparr>as_PartialToolCallIDs :=
                                        List.insert (TrimSpace callRaw) (as_PartialToolCallIDs s), as_UpdatedAt := now\<rparr>) w
                             in publish_message
                                  (if tc_name shown = ''GenerateImage''
                                   then buildToolCallStartedMessage (TrimSpace callRaw) callID (Some shown)
                                   else buildPartialToolCallMessage (TrimSpace callRaw) callID shown args) now w1))
              | EventToolCallDelta callRaw delta \<Rightarrow>
                  (case delta of
                     None \<Rightarrow> (w, None)
                   | Some d \<Rightarrow>
                       (if TrimSpace callRaw = [] \<or> completedToolCall s0 (TrimSpace callRaw) then (w, None)
                        else publish_message (buildToolCallDeltaMessage (TrimSpace callRaw) callID d) now w))
              | EventToolLikeCompleted invocation \<Rightarrow>
                  (let ((t, r), w1) = takeProviderOutputForTool now w
                   in and_then (if TrimSpace t \<noteq> []
                                then flushAssistantText env (as_ConversationID s0) (as_TurnSeq s0) (request w) t r False now w1
                                else (w1, None))
                        (\<lambda>w2. case invocation of
                           None \<Rightarrow> (w2, Some (OtherError ''tool invocation is required''))
                         | Some call \<Rightarrow>
                             (let r2 = (if TrimSpace t \<noteq> [] then no_reasoning else r)
                              in en_tool env w2
                                   (call\<lparr>ti_ReasoningContent := rp_Content r2, ti_ReasoningSignature := rp_Signature r2,
                                      ti_ReasoningSignatureSource := rp_SignatureSource r2,
                                      ti_ReasoningProviderItemID := rp_ItemID r2,
                                      ti_ReasoningProviderStatus := rp_Status r2,
                                      ti_ReasoningProviderSummary := rp_Summary r2, ti_ModelCallID := callID\<rparr>))))
              | EventTurnFinished finishReason u \<Rightarrow>
                  (on_stream (\<lambda>s. s\<lparr>as_FinishReason := TrimSpace finishReason,
                     as_Usage := (as_Usage s)\<lparr>tu_Provider := tu_Provider u, tu_Model := tu_Model u,
                       tu_InputTokens := tu_InputTokens u, tu_OutputTokens := tu_OutputTokens u,
                       tu_CacheReadTokens := tu_CacheReadTokens u, tu_CacheWriteTokens := tu_CacheWriteTokens u,
                       tu_UsagePresent := tu_UsagePresent u, tu_CacheReadPresent := tu_CacheReadPresent u,
                       tu_CacheWritePresent := tu_CacheWritePresent u\<rparr>, as_UpdatedAt := now\<rparr>) w, None)
              | EventProviderError e \<Rightarrow>
                  (w, Some (ProviderTerminal (case e of Some cause \<Rightarrow> cause | None \<Rightarrow> OtherError ''provider error'')))
              | EventOther \<Rightarrow> (w, None)))"


subsection \<open>The end of a provider call\<close>

definition reset_pass :: "gtime \<Rightarrow> ActiveStream \<Rightarrow> ActiveStream" where
  "reset_pass now s =
     (clear_output s)\<lparr>as_ProviderActive := False, as_ProviderCancel := None, as_PendingProviderAction := providerActionNone,
       as_FinishReason := [], as_Usage := zero_usage, as_TerminalToolInvocation := False, as_ToolInvocationCount := 0,
       as_UpdatedAt := now\<rparr>"

definition isChildConversationSubagentTypeName :: "string \<Rightarrow> bool" where
  "isChildConversationSubagentTypeName name \<longleftrightarrow> TrimSpace name \<noteq> []"

definition currentTurnHasToolResult :: "ConversationFile \<Rightarrow> int \<Rightarrow> bool" where
  "currentTurnHasToolResult c turnSeq \<longleftrightarrow>
     0 < turnSeq \<and> list_ex (\<lambda>e. he_TurnSeq e = turnSeq \<and> TrimSpace (he_Kind e) = ''tool_result'') (cf_Entries c)"

text \<open>The source of a \<open>prompt_context\<close> payload, if its string fields decode.\<close>

definition prompt_context_source :: "raw_json \<Rightarrow> string option" where
  "prompt_context_source raw =
     (case struct_members raw of
        None \<Rightarrow> None
      | Some ms \<Rightarrow> map_option hd (string_fields ms [''source'', ''role'', ''content'', ''content_hash'']))"

definition currentTurnHasPromptContextSource :: "ConversationFile \<Rightarrow> int \<Rightarrow> string \<Rightarrow> bool" where
  "currentTurnHasPromptContextSource c turnSeq source \<longleftrightarrow>
     0 < turnSeq \<and> TrimSpace source \<noteq> [] \<and>
     list_ex (\<lambda>e. he_TurnSeq e = turnSeq \<and> TrimSpace (he_Kind e) = ''prompt_context'' \<and>
       (case prompt_context_source (he_Payload e) of None \<Rightarrow> False | Some v \<Rightarrow> TrimSpace v = TrimSpace source)) (cf_Entries c)"

definition wrapSystemReminder :: "string \<Rightarrow> string" where
  "wrapSystemReminder content =
     (let t = TrimSpace content; opening = ''<system_reminder>''; closing = ''</system_reminder>''
      in if t = [] then []
         else if has_prefix t opening \<and> has_prefix (rev t) (rev closing) then t
         else opening @ [CHR 0x0A] @ t @ [CHR 0x0A] @ closing)"

definition promptContextContentHash :: "env \<Rightarrow> string \<Rightarrow> string \<Rightarrow> string" where
  "promptContextContentHash env role content = en_sha env (TrimSpace role @ [CHR 0x00] @ TrimSpace content)"

text \<open>The entry of a reminder: \<open>newPromptContextEntry\<close> of \<open>newPromptContextReminder\<close>.\<close>

definition reminder_entry :: "env \<Rightarrow> int \<Rightarrow> string \<Rightarrow> string \<Rightarrow> string \<Rightarrow> HistoryEntry" where
  "reminder_entry env turnSeq requestID source content =
     (let wrapped = wrapSystemReminder content; h0 = TrimSpace (promptContextContentHash env ''user'' wrapped);
          digest = (if h0 = [] then promptContextContentHash env ''user'' wrapped else h0)
      in \<lparr>he_Seq = 0, he_TurnSeq = turnSeq, he_RequestID = TrimSpace requestID, he_IdempotencyKey = [],
          he_Role = ''system'', he_Kind = ''prompt_context'', he_ToolCallID = [], he_ParentToolCallID = [],
          he_Payload = RawValue (JObj ([(''source'', JStr (TrimSpace source)), (''role'', JStr ''user''),
            (''content'', JStr (TrimSpace wrapped))] @ omitempty ''content_hash'' digest)), he_CreatedAt = 0\<rparr>)"

definition subagentEmptyStopRecoveryText :: string where
  "subagentEmptyStopRecoveryText = ''During this subagent turn, a prior provider pass stopped after tool results '' @
     ''without visible assistant output. Continue from the latest tool result and return a concise investigation '' @
     ''result for the parent. Only call another allowed read-only tool if necessary.''"

definition handleSubagentEmptyStopAfterToolResult ::
  "env \<Rightarrow> ActiveStream \<Rightarrow> gtime \<Rightarrow> world \<Rightarrow> bool \<times> turn_result" where
  "handleSubagentEmptyStopAfterToolResult env s now w =
     (if TrimSpace (as_FinishReason s) \<noteq> ''stop'' \<or> TrimSpace (as_AccumulatedText s) \<noteq> [] then (False, (w, None))
      else case snapshotCheckpointConversation w of
             Inl e \<Rightarrow> (True, (w, Some e))
           | Inr (c, _, _) \<Rightarrow>
               (if \<not> isChildConversationSubagentTypeName (cf_SubagentTypeName c) \<or> \<not> currentTurnHasToolResult c (as_TurnSeq s)
                then (False, (w, None))
                else if currentTurnHasPromptContextSource c (as_TurnSeq s) ''subagent_empty_stop_recovery''
                then (True, failStream env ''empty_response'' (OtherError ''subagent returned empty response after tool result'') now
                        (set_phase TurnPhaseFailed now w))
                else (True,
                  and_then (append_entries env (as_ConversationID s)
                    [reminder_entry env (as_TurnSeq s) (request w) ''subagent_empty_stop_recovery'' subagentEmptyStopRecoveryText] now w)
                  (\<lambda>w1. and_then (syncSummaryCarryForward (en_dc env) w1 (request w) (as_CurrentModelCallID s) now)
                  (\<lambda>w2. and_then (publishCheckpoint env now w2)
                  (\<lambda>w3. requestProviderAction env providerActionResume now w3))))))"

text \<open>What is decided once the output of the call is stored.\<close>

definition resume_turn :: "env \<Rightarrow> gtime \<Rightarrow> world \<Rightarrow> turn_result" where
  "resume_turn env now w =
     on_error (and_then (publishCheckpoint env now w) (requestProviderAction env providerActionResume now))
       (\<lambda>w1 e. failStreamIfNonTerminal env ''unknown'' e now w1)"

definition pass_completion :: "world \<Rightarrow> ActiveStream \<Rightarrow> int \<Rightarrow> pendingCompletionDisposition \<Rightarrow> pendingTurnCompletion" where
  "pass_completion w s pass disposition =
     \<lparr>pc_ConversationID = as_ConversationID s, pc_RequestID = request w, pc_TurnSeq = as_TurnSeq s,
      pc_ModelCallID = as_CurrentModelCallID s, pc_ProviderPass = pass, pc_Usage = as_Usage s, pc_Disposition = disposition\<rparr>"

definition after_pass :: "env \<Rightarrow> ActiveStream \<Rightarrow> gtime \<Rightarrow> world \<Rightarrow> turn_result" where
  "after_pass env s now w =
     (case stream w of
        None \<Rightarrow> (w, None)
      | Some s1 \<Rightarrow>
          (let hadToolInvocation = (0 < as_ToolInvocationCount s); pass = as_ProviderPassCount s1;
               failing = (\<lambda>w2 e. failStreamIfNonTerminal env ''unknown'' e now w2)
           in if 0 < pendingBridgeCount s1
              then let awaitingUser = hasPendingAwaitingUserInteraction s1;
                       w1 = rememberPendingProviderCompletion (pass_completion w s pass
                         (completionDispositionForExternalResults (as_FinishReason s) awaitingUser hadToolInvocation)) now w
                   in on_error (publishCheckpoint env now
                        (set_phase (if awaitingUser then TurnPhaseAwaitingUser else TurnPhaseWaitingExternal) now w1)) failing
              else case as_PendingProviderCompletion s of
                     Some existing \<Rightarrow>
                       (let completion = existing
                              \<lparr>pc_ModelCallID := (if TrimSpace (pc_ModelCallID existing) = [] then as_CurrentModelCallID s
                                                   else pc_ModelCallID existing),
                               pc_ProviderPass := (if pc_ProviderPass existing = 0 then pass else pc_ProviderPass existing),
                               pc_Usage := as_Usage s\<rparr>;
                            w1 = clearPendingProviderCompletion now w
                        in if pc_Disposition completion = completionDispositionResumeAfterExternal then resume_turn env now w1
                           else on_error (completeSuccessfulTurn env completion now w1) failing)
                   | None \<Rightarrow>
                       (case handleSubagentEmptyStopAfterToolResult env s now w of
                          (True, r) \<Rightarrow> on_error r failing
                        | (False, (w1, _)) \<Rightarrow>
                            (if (hadToolInvocation \<or> shouldResumeAfterToolResults (as_FinishReason s)) \<and> \<not> as_TerminalToolInvocation s
                             then resume_turn env now w1
                             else on_error (completeSuccessfulTurn env (pass_completion w s pass completionDispositionNone) now
                                    (clearPendingProviderCompletion now w1)) failing))))"

definition handleProviderDoneEvent :: "env \<Rightarrow> turn_error option \<Rightarrow> gtime \<Rightarrow> world \<Rightarrow> turn_result" where
  "handleProviderDoneEvent env err now w0 =
     (case stream w0 of
        None \<Rightarrow> (w0, None)
      | Some s \<Rightarrow>
          (let w = on_stream (reset_pass now) w0; cid = as_ConversationID s; seq = as_TurnSeq s;
               reasoningOnly = (as_ToolInvocationCount s \<le> 0);
               flushed = flushAssistantText env cid seq (request w) (as_AccumulatedText s) (stream_reasoning s) reasoningOnly now w;
               unless_ended = (\<lambda>code r f. case r of
                  (w1, Some e) \<Rightarrow> failStreamIfNonTerminal env code e now w1 | (w1, None) \<Rightarrow> f w1)
           in if (case err of Some e \<Rightarrow> is_interrupted e | None \<Rightarrow> False) \<or> isTerminalStreamStatus (as_Status s) then (w, None)
              else case err of
                     Some e \<Rightarrow>
                       (if is_provider_error e
                        then closeStreamWithProviderError env s e reasoningOnly now (set_phase TurnPhaseFailed now w)
                        else case flushed of
                               (w1, Some fe) \<Rightarrow> failStream env ''unknown'' (Wrapped ''flush failed provider output: '' fe) now w1
                             | (w1, None) \<Rightarrow> failStream env ''unknown'' e now (set_phase TurnPhaseFailed now w1))
                   | None \<Rightarrow>
                       unless_ended ''unknown'' flushed
                       (\<lambda>w1. unless_ended ''usage_persistence_error''
                          (recordTurnUsageSnapshot (en_dc env) w1 cid (request w) (as_CurrentModelCallID s) ''completed'' (as_Usage s) [] now)
                       (\<lambda>w2. unless_ended ''unknown''
                          (updateConversationTokenState (en_dc env) w2 cid (as_Usage s) (as_CurrentModelCallID s) True now)
                       (\<lambda>w3. unless_ended ''unknown'' (syncSummaryCarryForward (en_dc env) w3 (request w) (as_CurrentModelCallID s) now)
                       (after_pass env s now))))))"

definition handleProviderEvent ::
  "env \<Rightarrow> u64 \<Rightarrow> (turn_error option + gtime \<times> ModelEvent) \<Rightarrow> gtime \<Rightarrow> world \<Rightarrow> turn_result" where
  "handleProviderEvent env token payload now w =
     (if \<not> providerTokenMatches w token then (w, None)
      else case payload of
             Inl err \<Rightarrow> handleProviderDoneEvent env err now w
           | Inr (occurredAt, event) \<Rightarrow> applyProviderModelEvent env occurredAt event now w)"


text \<open>
  The end of \<open>runProviderStream\<close>: the actor is told that the call is done, and an error of its handler
  fails the stream. The goroutine is gone then.
\<close>

definition provider_call_done :: "env \<Rightarrow> u64 \<Rightarrow> turn_error option \<Rightarrow> gtime \<Rightarrow> world \<Rightarrow> world" where
  "provider_call_done env token err now w0 =
     (let w = w0\<lparr>w_providers := remove1 token (w_providers w0)\<rparr>
      in case handleProviderEvent env token (Inl err) now w of
           (w1, None) \<Rightarrow> w1
         | (w1, Some e) \<Rightarrow>
             (if is_interrupted e then w1 else ignoring (failStreamIfNonTerminal env ''unknown'' e now w1)))"

end
