(* ===== verification/Turn_Progress.thy ===== *)
theory Turn_Progress
  imports Turn_Actor
begin

text \<open>
  A turn does not stall: the operations of the actor keep the stream registered and its claim on the
  end consistent, failing and completing end the stream whatever the store does, and after a provider
  call the turn has ended or something it waits for will move it on.
\<close>

subsection \<open>How the operations of a turn change its stream\<close>

text \<open>What the stream knows of its turn, apart from its status, its events and its timers.\<close>

definition core :: "ActiveStream \<Rightarrow> _" where
  "core s = (as_ConversationID s, as_TurnSeq s, as_ProviderActive s, as_PendingExecs s, as_PendingInteractions s,
     as_PendingCompaction s, as_PendingProviderCompletion s, as_PendingProviderAction s, as_CurrentModelCallID s,
     as_ProviderPassCount s, as_ToolInvocationCount s, as_TerminalToolInvocation s, as_CurrentProviderToken s)"

definition good :: "turn \<Rightarrow> bool" where
  "good t \<longleftrightarrow> (\<exists>s. stream_of t = Some s \<and> (as_TerminalActionClaimed s \<longrightarrow> isTerminalStreamStatus (as_Status s))) \<and>
     (\<forall>p c. ck_PendingCheckpoint (tn_checkpoint t) = Some p \<longrightarrow> pp_Terminal p = checkpointTerminalActionComplete c \<longrightarrow>
        completion_for t c)"

definition evolves :: "turn \<Rightarrow> turn \<Rightarrow> bool" where
  "evolves t t' \<longleftrightarrow> tn_RequestID t' = tn_RequestID t \<and>
     (\<forall>s. stream_of t = Some s \<longrightarrow> (\<exists>s'. stream_of t' = Some s' \<and> core s' = core s \<and>
        (isTerminalStreamStatus (as_Status s) \<longrightarrow> isTerminalStreamStatus (as_Status s'))))"

definition steps_to :: "turn \<Rightarrow> turn \<Rightarrow> bool" where
  "steps_to t t' \<longleftrightarrow> good t \<longrightarrow> good t' \<and> evolves t t'"

lemma evolves_refl [simp]: "evolves t t"
  by (simp add: evolves_def)

lemma evolves_trans: "evolves t t1 \<Longrightarrow> evolves t1 t2 \<Longrightarrow> evolves t t2"
  unfolding evolves_def by metis

lemma steps_refl [simp, intro]: "steps_to t t"
  by (simp add: steps_to_def)

lemma steps_trans [trans]: "steps_to t t1 \<Longrightarrow> steps_to t1 t2 \<Longrightarrow> steps_to t t2"
  unfolding steps_to_def using evolves_trans by blast

lemma completion_for_request: "tn_RequestID t' = tn_RequestID t \<Longrightarrow> completion_for t' c = completion_for t c"
  by (simp add: completion_for_def)

lemma upd_steps:
  assumes "\<And>s. core (f s) = core s \<and> as_Status (f s) = as_Status s \<and> as_TerminalActionClaimed (f s) = as_TerminalActionClaimed s"
  shows "steps_to t (upd f t)"
  using assms by (fastforce simp: steps_to_def good_def evolves_def completion_for_def)

lemma core_simps [simp]:
  "core (s\<lparr>as_UpdatedAt := now\<rparr>) = core s" "core (s\<lparr>as_Phase := p\<rparr>) = core s"
  "core (s\<lparr>as_TerminalActionClaimed := b\<rparr>) = core s" "core (s\<lparr>as_Status := st\<rparr>) = core s"
  "core (bump_token key now s) = core s"
  by (simp_all add: core_def bump_token_def)

lemma touch_steps: "steps_to t (upd (\<lambda>s. s\<lparr>as_UpdatedAt := now\<rparr>) t)"
  by (rule upd_steps) simp

lemma setTurnPhase_steps: "steps_to t (setTurnPhase t p now)"
  unfolding setTurnPhase_def by (rule upd_steps) simp

lemma timers_steps:
  "steps_to t (t\<lparr>tn_timers := ts\<rparr>)"
  by (auto simp: steps_to_def good_def evolves_def completion_for_def)

lemma clearStreamTimer_steps: "steps_to t (clearStreamTimer t key now)"
  by (auto simp: clearStreamTimer_def Let_def intro!: upd_steps split: if_splits)

lemma scheduleStreamTimer_steps: "steps_to t (scheduleStreamTimer t key kind x i r now)"
proof -
  have "steps_to t (upd (bump_token key now) t)" by (rule upd_steps) simp
  then show ?thesis
    by (auto simp: scheduleStreamTimer_def split: option.split intro: steps_trans timers_steps)
qed

lemma Get_broker [simp]:
  "stream_of (t\<lparr>tn_broker := b\<rparr>) = Get b (tn_RequestID t)" "completion_for (t\<lparr>tn_broker := b\<rparr>) c = completion_for t c"
  by (simp_all add: stream_of_def completion_for_def)

lemma publish_stream_core [simp]:
  "core (publish_stream l e now s) = core s" "as_Status (publish_stream l e now s) = as_Status s"
  "as_TerminalActionClaimed (publish_stream l e now s) = as_TerminalActionClaimed s"
  by (simp_all add: core_def publish_stream_def Let_def)

lemma publish_to_steps:
  assumes "publish_to t r m now = (t', e)"
  shows "steps_to t t'"
proof (cases "Get (tn_broker t) r")
  case None
  then show ?thesis using assms by (simp add: publish_to_def Publish_def steps_to_def)
next
  case (Some s)
  have "Get (tn_broker t) (tn_RequestID t) = Some s" if "TrimSpace r = TrimSpace (tn_RequestID t)"
    using Some that by (simp add: Get_def)
  then show ?thesis using assms Some
    by (auto simp: publish_to_def Publish_def steps_to_def good_def evolves_def stream_of_def)
qed

lemma ended_stream_core [simp]:
  "core (ended_stream l e now n s) = core s" "as_Status (ended_stream l e now n s) = as_Status s"
  "as_TerminalActionClaimed (ended_stream l e now n s) = as_TerminalActionClaimed s"
  by (simp_all add: core_def ended_stream_def publish_stream_def schedule_stream_def stopTerminalCleanupTimerLocked_def Let_def)

lemma stopCleanup_core [simp]:
  "core (stopTerminalCleanupTimerLocked s) = core s"
  "as_TerminalActionClaimed (stopTerminalCleanupTimerLocked s) = as_TerminalActionClaimed s"
  by (simp_all add: core_def stopTerminalCleanupTimerLocked_def)

definition ended :: "turn \<Rightarrow> bool" where
  "ended t = (case stream_of t of None \<Rightarrow> False | Some s \<Rightarrow> isTerminalStreamStatus (as_Status s))"

lemma ending_steps:
  assumes "publish_end (put_stream (tn_broker t) r s1) r e n now = Inr b" "TrimSpace r = TrimSpace (tn_RequestID t)"
    and "stream_of t = Some s" "core s1 = core s" "isTerminalStreamStatus (as_Status s1)"
  shows "(good t \<or> (\<forall>p c. ck_PendingCheckpoint (tn_checkpoint t) = Some p \<longrightarrow> pp_Terminal p = checkpointTerminalActionComplete c \<longrightarrow>
        completion_for t c) \<longrightarrow> good (t\<lparr>tn_broker := b\<rparr>)) \<and> evolves t (t\<lparr>tn_broker := b\<rparr>) \<and> ended (t\<lparr>tn_broker := b\<rparr>)"
proof -
  have "Get b (tn_RequestID t) = Get b r" using assms(2) by (simp add: Get_def)
  also have "\<dots> = Some (ended_stream (br_backlogLimit (tn_broker t)) e now n s1)"
    using publish_end_Get [OF assms(1)] by simp
  finally show ?thesis using assms(3-5) by (auto simp: good_def evolves_def ended_def)
qed

lemma fail_ends:
  assumes "finishFailedTurnAfterCheckpoint t code message now = (t', e)" "good t"
  shows "good t' \<and> evolves t t' \<and> ended t' \<and> e = None"
proof -
  obtain s where s: "stream_of t = Some s" using assms(2) by (auto simp: good_def)
  have "\<exists>b. Fail (tn_broker t) (tn_RequestID t) code message now = Inr b \<and> good (t\<lparr>tn_broker := b\<rparr>) \<and>
      evolves t (t\<lparr>tn_broker := b\<rparr>) \<and> ended (t\<lparr>tn_broker := b\<rparr>)"
  proof (cases "isTerminalStreamStatus (as_Status s)")
    case True
    then show ?thesis using s assms(2) by (auto simp: Fail_def stream_of_def ended_def intro: exI [of _ "tn_broker t"])
  next
    case False
    let ?s1 = "(stopTerminalCleanupTimerLocked s)\<lparr>as_Status := StreamStatusFailed, as_UpdatedAt := now\<rparr>"
    obtain b where b: "publish_end (put_stream (tn_broker t) (tn_RequestID t) ?s1) (tn_RequestID t)
        (end_event (TrimSpace code) (TrimSpace message)) (length (as_Subscribers s)) now = Inr b"
      using publish_end_total by metis
    have "Fail (tn_broker t) (tn_RequestID t) code message now = Inr b"
      using False s b by (simp add: Fail_def Let_def stream_of_def)
    then show ?thesis using ending_steps [OF b refl s] assms(2) by auto
  qed
  then obtain b where b: "Fail (tn_broker t) (tn_RequestID t) code message now = Inr b" "good (t\<lparr>tn_broker := b\<rparr>)"
    "evolves t (t\<lparr>tn_broker := b\<rparr>)" "ended (t\<lparr>tn_broker := b\<rparr>)" by blast
  have "steps_to (t\<lparr>tn_broker := b\<rparr>) (setTurnPhase (t\<lparr>tn_broker := b\<rparr>) TurnPhaseFailed now)" by (rule setTurnPhase_steps)
  moreover have "ended (setTurnPhase (t\<lparr>tn_broker := b\<rparr>) TurnPhaseFailed now)"
    using b(4) by (auto simp: ended_def setTurnPhase_def split: option.splits)
  ultimately show ?thesis using assms(1) b evolves_trans by (auto simp: finishFailedTurnAfterCheckpoint_def steps_to_def)
qed


lemma complete_ends:
  assumes "finishSuccessfulTurnAfterCheckpoint t c now = (t', e)" "good t" "completion_for t c"
  shows "good t' \<and> evolves t t' \<and> ended t' \<and> e = None"
proof -
  obtain s where s: "stream_of t = Some s" "as_TerminalActionClaimed s \<longrightarrow> isTerminalStreamStatus (as_Status s)"
    and ck: "\<forall>p c. ck_PendingCheckpoint (tn_checkpoint t) = Some p \<longrightarrow> pp_Terminal p = checkpointTerminalActionComplete c \<longrightarrow>
        completion_for t c" using assms(2) by (auto simp: good_def)
  show ?thesis
  proof (cases "isTerminalStreamStatus (as_Status s)")
    case True
    then have "claimTerminalEvent t now = (False, t)" using s(1) by (simp add: claimTerminalEvent_def)
    then show ?thesis using assms(1,2) s(1) True by (auto simp: finishSuccessfulTurnAfterCheckpoint_def Let_def ended_def)
  next
    case False
    let ?rid = "tn_RequestID t" and ?r = "firstNonEmpty [TrimSpace (pc_RequestID c), TrimSpace (tn_RequestID t)]"
    have r: "?r = TrimSpace ?rid" using assms(3) by (auto simp: completion_for_def)
    let ?f = "\<lambda>s. s\<lparr>as_TerminalActionClaimed := True, as_UpdatedAt := now\<rparr>"
    define t1 where "t1 = upd ?f t"
    have c: "claimTerminalEvent t now = (True, t1)"
      using s False by (simp add: claimTerminalEvent_def t1_def)
    have st1: "stream_of t1 = Some (?f s)" "tn_RequestID t1 = ?rid" using s(1) by (simp_all add: t1_def)
    let ?m = "buildTurnEndedMessage (tu_InputTokens (pc_Usage c)) (tu_OutputTokens (pc_Usage c))
      (tu_CacheReadTokens (pc_Usage c)) (tu_CacheWriteTokens (pc_Usage c))"
    let ?ev = "\<lparr>ev_Message = Some ?m, ev_End = False, ev_TerminalErrorCode = [], ev_TerminalErrorMessage = []\<rparr>"
    let ?s2 = "publish_stream (br_backlogLimit (tn_broker t1)) ?ev now (?f s)"
    define t2 where "t2 = t1\<lparr>tn_broker := put_stream (tn_broker t1) ?rid ?s2\<rparr>"
    have p: "publish_to t1 (TrimSpace ?rid) ?m now = (t2, None)"
      using st1 by (simp add: publish_to_def Publish_def t2_def stream_of_def)
    have st2: "stream_of t2 = Some ?s2" "tn_RequestID t2 = ?rid" using st1(2) by (simp_all add: t2_def)
    let ?s3 = "(stopTerminalCleanupTimerLocked ?s2)\<lparr>as_Status := StreamStatusCompleted, as_UpdatedAt := now\<rparr>"
    obtain b where b: "publish_end (put_stream (tn_broker t2) (TrimSpace ?rid) ?s3) (TrimSpace ?rid) (end_event [] [])
        (length (as_Subscribers ?s2)) now = Inr b"
      using publish_end_total by metis
    have "Get (tn_broker t2) (TrimSpace ?rid) = Some ?s2" using st2 by (simp add: stream_of_def)
    moreover have "\<not> isTerminalStreamStatus (as_Status ?s2)" using False by simp
    moreover have "TrimSpace [] = []" by code_simp
    ultimately have "Complete (tn_broker t2) (TrimSpace ?rid) [] [] now = Inr b"
      using b by (auto simp: Complete_def Let_def)
    then have t': "t' = setTurnPhase (t2\<lparr>tn_broker := b\<rparr>) TurnPhaseCompleted now" "e = None"
      using assms(1) unfolding finishSuccessfulTurnAfterCheckpoint_def c Let_def prod.case r p by simp_all
    have "tn_checkpoint t2 = tn_checkpoint t" by (simp add: t2_def t1_def)
    then have "\<forall>p c. ck_PendingCheckpoint (tn_checkpoint t2) = Some p \<longrightarrow> pp_Terminal p = checkpointTerminalActionComplete c \<longrightarrow>
        completion_for t2 c" using ck st2(2) by (auto simp: completion_for_def)
    then have g: "good (t2\<lparr>tn_broker := b\<rparr>)" "evolves t2 (t2\<lparr>tn_broker := b\<rparr>)" "ended (t2\<lparr>tn_broker := b\<rparr>)"
      using ending_steps [OF b _ st2(1)] st2(2) by auto
    have "evolves t t2" using s(1) st2 by (simp add: evolves_def)
    moreover have "steps_to (t2\<lparr>tn_broker := b\<rparr>) t'" unfolding t' by (rule setTurnPhase_steps)
    moreover have "ended t'" using g(3) by (auto simp: ended_def setTurnPhase_def t' split: option.splits)
    ultimately show ?thesis using g t'(2) evolves_trans by (auto simp: steps_to_def)
  qed
qed

lemma terminal_action_steps:
  assumes "finishCheckpointTerminalAction t a now = (t', e)" "good t"
    and "\<And>c. a = checkpointTerminalActionComplete c \<Longrightarrow> completion_for t c"
  shows "good t' \<and> evolves t t' \<and> e = None"
  using assms complete_ends fail_ends
  by (cases a) (fastforce simp: finishCheckpointTerminalAction_def)+

lemma drop_checkpoint_good: "good t \<Longrightarrow> good (t\<lparr>tn_checkpoint := ck\<lparr>ck_PendingCheckpoint := None\<rparr>\<rparr>)"
  and drop_writes_good: "good t \<Longrightarrow> good (t\<lparr>tn_checkpoint := ck\<lparr>ck_PendingCheckpoint := None, ck_PendingCheckpointBlobWrites := ws\<rparr>\<rparr>)"
  by (auto simp: good_def)

lemma completion_for_checkpoint [simp]: "completion_for (t\<lparr>tn_checkpoint := ck\<rparr>) c = completion_for t c"
  by (simp add: completion_for_def)

lemma checkpoint_evolves [simp]: "evolves t (t\<lparr>tn_checkpoint := ck\<rparr>)"
  by (auto simp: evolves_def)

lemma good_completion:
  "good t \<Longrightarrow> ck_PendingCheckpoint (tn_checkpoint t) = Some p \<Longrightarrow> pp_Terminal p = checkpointTerminalActionComplete c \<Longrightarrow>
     completion_for t c"
  by (simp add: good_def)

lemma sync_failure_steps: "finishAfterCheckpointSyncFailure t now = (t', e) \<Longrightarrow> steps_to t t'"
  unfolding steps_to_def
proof
  assume f: "finishAfterCheckpointSyncFailure t now = (t', e)" and g: "good t"
  let ?t1 = "t\<lparr>tn_checkpoint := (tn_checkpoint t)\<lparr>ck_PendingCheckpoint := None, ck_PendingCheckpointBlobWrites := []\<rparr>\<rparr>"
  let ?t2 = "clearStreamTimer ?t1 checkpoint_timer now"
  have t2: "good ?t2" "evolves t ?t2"
    using clearStreamTimer_steps [of ?t1 checkpoint_timer now] drop_writes_good [OF g] evolves_trans [OF checkpoint_evolves]
    unfolding steps_to_def by blast+
  show "good t' \<and> evolves t t'"
  proof (cases "ck_PendingCheckpoint (tn_checkpoint t)")
    case None
    then show ?thesis using f t2 by (simp add: finishAfterCheckpointSyncFailure_def Let_def)
  next
    case (Some p)
    then have "finishCheckpointTerminalAction ?t2 (pp_Terminal p) now = (t', e)"
      using f by (simp add: finishAfterCheckpointSyncFailure_def Let_def)
    moreover have "completion_for ?t2 c" if "pp_Terminal p = checkpointTerminalActionComplete c" for c
      using good_completion [OF g Some that] by (simp add: completion_for_def)
    ultimately show ?thesis using terminal_action_steps t2 evolves_trans by blast
  qed
qed

lemma discard_steps: "steps_to t (discardPendingCheckpoint t now)"
proof -
  let ?t1 = "t\<lparr>tn_checkpoint := (tn_checkpoint t)\<lparr>ck_PendingCheckpoint := None, ck_PendingCheckpointBlobWrites := []\<rparr>\<rparr>"
  have "steps_to t ?t1" using drop_writes_good by (auto simp: steps_to_def)
  then show ?thesis unfolding discardPendingCheckpoint_def by (rule steps_trans) (rule clearStreamTimer_steps)
qed

lemma ready_steps: "publishReadyCheckpoint t now = (t', e) \<Longrightarrow> steps_to t t'"
  unfolding steps_to_def
proof
  assume f: "publishReadyCheckpoint t now = (t', e)" and g: "good t"
  show "good t' \<and> evolves t t'"
  proof (cases "\<exists>p. ck_PendingCheckpoint (tn_checkpoint t) = Some p \<and> required_confirmed (tn_checkpoint t) p")
    case False
    then show ?thesis using f g by (auto simp: publishReadyCheckpoint_def Let_def split: option.splits if_splits)
  next
    case True
    then obtain p where p: "ck_PendingCheckpoint (tn_checkpoint t) = Some p" "required_confirmed (tn_checkpoint t) p" by blast
    let ?t1 = "t\<lparr>tn_checkpoint := (tn_checkpoint t)\<lparr>ck_PendingCheckpoint := None\<rparr>\<rparr>"
    let ?t2 = "clearStreamTimer ?t1 checkpoint_timer now"
    obtain t3 e3 where t3: "publish_to ?t2 (tn_RequestID ?t2) (buildCheckpointMessage (Some (pp_State p))) now = (t3, e3)" by fastforce
    have "good ?t1" "evolves t ?t1" using drop_checkpoint_good [OF g] by simp_all
    then have g2: "good ?t2" "evolves t ?t2"
      using clearStreamTimer_steps [of ?t1 checkpoint_timer now] evolves_trans unfolding steps_to_def by blast+
    have g3: "good t3" "evolves t t3"
      using publish_to_steps [OF t3] g2 evolves_trans unfolding steps_to_def by blast+
    let ?t4 = "t3\<lparr>tn_checkpoint := (tn_checkpoint t3)\<lparr>ck_sent := ck_sent (tn_checkpoint t3) @ [p]\<rparr>\<rparr>"
    have g4: "good ?t4" using g3(1) by (auto simp: good_def completion_for_def)
    have e4: "evolves t ?t4" by (rule evolves_trans [OF g3(2) checkpoint_evolves])
    have rid: "tn_RequestID t3 = tn_RequestID t" using g3(2) by (simp add: evolves_def)
    have c: "completion_for t3 c" if "pp_Terminal p = checkpointTerminalActionComplete c" for c
      using good_completion [OF g p(1) that] rid by (simp add: completion_for_def)
    have r: "(t', e) = (case e3 of
          Some x \<Rightarrow> if pp_Terminal p \<noteq> checkpointTerminalActionNone then finishCheckpointTerminalAction t3 (pp_Terminal p) now else (t3, Some x)
        | None \<Rightarrow> finishCheckpointTerminalAction ?t4 (pp_Terminal p) now)"
      using f [unfolded publishReadyCheckpoint_def Let_def p(1) option.case t3 prod.case] p(2) by (simp split: option.splits)
    show ?thesis
    proof (cases e3)
      case None
      then have "finishCheckpointTerminalAction ?t4 (pp_Terminal p) now = (t', e)" using r by simp
      from terminal_action_steps [OF this g4] c e4 evolves_trans show ?thesis by (auto simp: completion_for_def)
    next
      case (Some x)
      then show ?thesis using r terminal_action_steps [of t3 "pp_Terminal p" now t' e] g3 c evolves_trans
        by (auto split: if_splits)
    qed
  qed
qed


lemma send_blobs_steps: "send_blobs t ws now = (t', e) \<Longrightarrow> steps_to t t'"
proof (induction t ws now arbitrary: t' e rule: send_blobs.induct)
  case (2 t i blob ws now)
  obtain t1 e1 where p: "publish_to t (tn_RequestID t) (buildSetCheckpointBlobMessage i (cb_ID blob) (cb_Data blob)) now = (t1, e1)"
    by fastforce
  from publish_to_steps [OF p] 2 p show ?case by (cases e1) (auto intro: steps_trans)
qed simp

lemma queue_steps:
  assumes "queueCheckpointProjectionWithTerminal t state blobs terminal now = (t', e)"
    and "\<And>c. terminal = checkpointTerminalActionComplete c \<Longrightarrow> completion_for t c"
  shows "steps_to t t'"
  unfolding steps_to_def
proof
  assume g: "good t"
  obtain t1 ws where q: "queue_section t state blobs terminal now = (t1, ws)" by fastforce
  define gen where "gen = (if ck_CheckpointGeneration (tn_checkpoint t) + 1 = 0 then ck_CheckpointGeneration (tn_checkpoint t) + 2
    else ck_CheckpointGeneration (tn_checkpoint t) + 1)"
  define act where "act = (case ck_PendingCheckpoint (tn_checkpoint t) of
      Some p \<Rightarrow> if terminal = checkpointTerminalActionNone then pp_Terminal p else terminal | None \<Rightarrow> terminal)"
  have act: "completion_for t c" if "act = checkpointTerminalActionComplete c" for c
    using that assms(2) good_completion [OF g] by (auto simp: act_def split: option.splits if_splits)
  obtain ck1 required w where d: "dispatch_blobs gen now (pending_keys (tn_checkpoint t)) blobs
      ((tn_checkpoint t)\<lparr>ck_CheckpointGeneration := gen\<rparr>) = (ck1, required, w)" by (metis prod_cases3)
  obtain p where t1: "t1 = upd (\<lambda>s. (if act \<noteq> checkpointTerminalActionNone then s\<lparr>as_Phase := TurnPhaseCheckpointing\<rparr> else s)
      \<lparr>as_UpdatedAt := now\<rparr>) (t\<lparr>tn_checkpoint := ck1\<lparr>ck_PendingCheckpoint := Some p\<rparr>\<rparr>)" and p: "pp_Terminal p = act"
    using q unfolding queue_section_def Let_def gen_def [symmetric] act_def [symmetric] d by auto
  have "good (t\<lparr>tn_checkpoint := ck1\<lparr>ck_PendingCheckpoint := Some p\<rparr>\<rparr>)"
    using g act p by (auto simp: good_def)
  moreover have "steps_to (t\<lparr>tn_checkpoint := ck1\<lparr>ck_PendingCheckpoint := Some p\<rparr>\<rparr>) t1"
    unfolding t1 by (rule upd_steps) simp
  ultimately have g1: "good t1" "evolves t t1"
    using evolves_trans [OF checkpoint_evolves] unfolding steps_to_def by blast+
  obtain t2 e2 where b: "send_blobs t1 ws now = (t2, e2)" by fastforce
  have g2: "good t2" "evolves t t2"
    using send_blobs_steps [OF b] g1 evolves_trans unfolding steps_to_def by blast+
  have cases: "(e2 \<noteq> None \<and> finishAfterCheckpointSyncFailure t2 now = (t', e)) \<or> publishReadyCheckpoint t2 now = (t', e) \<or>
      t' = scheduleCheckpointBlobTimeout t2 (ck_CheckpointGeneration (tn_checkpoint t2)) now"
    using assms(1) unfolding queueCheckpointProjectionWithTerminal_def q Let_def prod.case b
    by (auto split: option.splits if_splits)
  have "steps_to t2 (scheduleCheckpointBlobTimeout t2 (ck_CheckpointGeneration (tn_checkpoint t2)) now)"
    by (simp add: scheduleCheckpointBlobTimeout_def scheduleStreamTimer_steps)
  then have "steps_to t2 t'" using cases sync_failure_steps ready_steps by blast
  then show "good t' \<and> evolves t t'" using g2 evolves_trans by (auto simp: steps_to_def)
qed

subsection \<open>The same for what handlers do\<close>

abbreviation runs_to :: "world \<Rightarrow> world \<Rightarrow> bool" where
  "runs_to w w' \<equiv> steps_to (w_turn w) (w_turn w')"

lemma w_turn_frame [simp]:
  "w_turn (with_store st w) = w_turn w" "w_turn (on_turn f w) = f (w_turn w)"
  by (simp_all add: with_store_def on_turn_def)

lemma appendConversationEntries_runs: "appendConversationEntries dc w cid es now = (w', r) \<Longrightarrow> runs_to w w'"
  by (auto simp: appendConversationEntries_def intro: touch_steps split: option.splits prod.splits sum.splits if_splits)

lemma append_entries_runs: "append_entries env cid es now w = (w', e) \<Longrightarrow> runs_to w w'"
  using appendConversationEntries_runs by (fastforce simp: append_entries_def split: prod.splits sum.splits)

lemma sync_record_turn: "syncConversationRecord dc w cid c now = (w', e) \<Longrightarrow> w_turn w' = w_turn w"
  by (auto simp: syncConversationRecord_def Let_def split: sum.splits prod.splits)

lemma update_meta_runs: "updateConversationMetaAndCheckpoint dc w cid f now = (w', e) \<Longrightarrow> runs_to w w'"
  using sync_record_turn
  by (fastforce simp: updateConversationMetaAndCheckpoint_def Let_def intro: touch_steps split: option.splits prod.splits)

lemma summary_turn: "syncSummaryCarryForward dc w rid m now = (w', e) \<Longrightarrow> w_turn w' = w_turn w"
  using sync_record_turn
  by (auto simp: syncSummaryCarryForward_def syncSummarySnapshot_def split: option.splits sum.splits if_splits)

lemma summary_turn' [simp]: "w_turn (fst (syncSummaryCarryForward dc w rid m now)) = w_turn w"
  using summary_turn by (metis prod.exhaust_sel)

lemma finalized_turn [simp]: "w_turn (recordTurnFinalizedSnapshot w cid n rid st now) = w_turn w"
  by (simp add: recordTurnFinalizedSnapshot_def Let_def)

lemma usage_snapshot_runs:
  assumes "recordTurnUsageSnapshot dc w cid rid m st u e now = (w', r)"
  shows "runs_to w w'"
proof -
  show ?thesis using assms unfolding recordTurnUsageSnapshot_def Let_def
    by (auto split: if_splits dest!: update_meta_runs)
qed

lemma token_state_runs: "updateConversationTokenState dc w cid u m fin now = (w', r) \<Longrightarrow> runs_to w w'"
  using update_meta_runs by (auto simp: updateConversationTokenState_def Let_def split: if_splits)

lemma flush_runs: "flushAssistantText env cid n rid t r o' now w = (w', e) \<Longrightarrow> runs_to w w'"
  using append_entries_runs by (auto simp: flushAssistantText_def split: if_splits)

lemma publishCheckpoint_runs:
  assumes "publishCheckpointWithTerminalAction env terminal now w = (w', e)"
    and "\<And>c. terminal = checkpointTerminalActionComplete c \<Longrightarrow> completion_for (w_turn w) c"
  shows "runs_to w w'"
  using assms queue_steps
  by (fastforce simp: publishCheckpointWithTerminalAction_def lift_turn_def split: option.splits sum.splits prod.splits)

lemma publishCheckpoint_runs': "publishCheckpoint env now w = (w', e) \<Longrightarrow> runs_to w w'"
  unfolding publishCheckpoint_def
  by (rule publishCheckpoint_runs) (auto simp: successfulCheckpointTerminalAction_def)

subsection \<open>Failing and completing end the turn\<close>

lemma runs_good: "runs_to w w' \<Longrightarrow> good (w_turn w) \<Longrightarrow> good (w_turn w')"
  by (simp add: steps_to_def)

lemma upd_good:
  "good t \<Longrightarrow> (\<And>s. as_Status (f s) = as_Status s \<and> as_TerminalActionClaimed (f s) = as_TerminalActionClaimed s) \<Longrightarrow> good (upd f t)"
  by (fastforce simp: good_def completion_for_def)

lemma append_entries_good: "good (w_turn w) \<Longrightarrow> good (w_turn (fst (append_entries env cid es now w)))"
  using append_entries_runs runs_good by (metis prod.collapse)

lemma publishCheckpoint_good: "good (w_turn w) \<Longrightarrow> good (w_turn (fst (publishCheckpoint env now w)))"
  using publishCheckpoint_runs' runs_good by (metis prod.collapse)

lemma cancel_provider_good: "good (w_turn w) \<Longrightarrow> good (w_turn (cancel_provider w))"
  by (auto simp: cancel_provider_def good_def stream_of_def completion_for_def split: option.splits)

lemma discard_good: "good t \<Longrightarrow> good (discardPendingCheckpoint t now)"
  using discard_steps by (simp add: steps_to_def)

lemma failActiveStream_ends:
  assumes "failActiveStream env m code msg now w = (w', e)" "good (w_turn w)"
  shows "good (w_turn w') \<and> ended (w_turn w')" and "e = None"
proof -
  define w2 where "w2 = on_stream (\<lambda>s. s\<lparr>as_ProviderActive := False, as_ProviderCancel := None,
    as_PendingProviderAction := providerActionNone, as_UpdatedAt := now\<rparr>) (cancel_provider (clearPendingProviderCompletion now w))"
  have "good (w_turn w2)"
    unfolding w2_def clearPendingProviderCompletion_def using assms(2)
    by (auto intro!: upd_good cancel_provider_good)
  then have "good (w_turn (fst (publishCheckpoint env now (on_turn (\<lambda>t. discardPendingCheckpoint t now)
      (fst (syncSummaryCarryForward (en_dc env) w2 (request w2) m now))))))"
    by (auto intro!: publishCheckpoint_good discard_good)
  then have "(good (w_turn w') \<and> ended (w_turn w')) \<and> e = None" using assms(1) fail_ends
    unfolding failActiveStream_def Let_def w2_def [symmetric]
    by (auto simp: lift_turn_def split: prod.splits)
  then show "good (w_turn w') \<and> ended (w_turn w')" "e = None" by blast+
qed

lemma failStream_ends:
  assumes "failStream env code cause now w = (w', e)" "good (w_turn w)"
  shows "good (w_turn w') \<and> ended (w_turn w')"
proof -
  obtain s where "stream w = Some s" using assms(2) by (auto simp: good_def)
  then show ?thesis using assms failActiveStream_ends append_entries_good
    by (fastforce simp: failStream_def Let_def)
qed

lemma failIfNonTerminal_ends:
  assumes "failStreamIfNonTerminal env code cause now w = (w', e)" "good (w_turn w)"
  shows "good (w_turn w') \<and> ended (w_turn w')"
proof -
  obtain s where "stream w = Some s" using assms(2) by (auto simp: good_def)
  then show ?thesis using assms failStream_ends
    by (auto simp: failStreamIfNonTerminal_def ended_def split: if_splits)
qed

lemma completeSuccessfulTurn_ends:
  assumes "completeSuccessfulTurn env c now w = (w', e)" "good (w_turn w)" "completion_for (w_turn w) c"
  shows "good (w_turn w') \<and> (e = None \<longrightarrow> ended (w_turn w'))"
proof -
  obtain s where s: "stream w = Some s" using assms(2) by (auto simp: good_def)
  define rid where "rid = firstNonEmpty [TrimSpace (pc_RequestID c), TrimSpace (request w)]"
  define cid where "cid = firstNonEmpty [TrimSpace (pc_ConversationID c), TrimSpace (as_ConversationID s)]"
  define m where "m = firstNonEmpty [TrimSpace (pc_ModelCallID c), TrimSpace (as_CurrentModelCallID s)]"
  define n where "n = (if pc_TurnSeq c \<le> 0 then as_TurnSeq s else pc_TurnSeq c)"
  obtain w1 e1 where r1: "recordTurnUsageSnapshot (en_dc env) w cid rid m ''completed'' (pc_Usage c) [] now = (w1, e1)" by fastforce
  obtain w2 e2 where r2: "append_entries env cid [newMetadataEntry n rid ''turn_completed'' [(''model_call_id'', JStr m)]] now w1 = (w2, e2)"
    by fastforce
  let ?w4 = "fst (syncSummaryCarryForward (en_dc env) (recordTurnFinalizedSnapshot w2 cid n rid ''completed'' now) rid m now)"
  obtain w5 e5 where r5: "publishCheckpoint env now ?w4 = (w5, e5)" by fastforce
  have g1: "good (w_turn w1)" "request w1 = request w" using usage_snapshot_runs [OF r1] assms(2) s
    by (auto simp: steps_to_def evolves_def)
  have g2: "good (w_turn w2)" "request w2 = request w" using append_entries_runs [OF r2] g1
    by (auto simp: steps_to_def evolves_def)
  have g5: "good (w_turn w5)" "request w5 = request w" using publishCheckpoint_runs' [OF r5] g2
    by (auto simp: steps_to_def evolves_def)
  have "(w', e) = (case e1 of Some x \<Rightarrow> (w1, Some (Wrapped ''record completed turn usage: '' x)) | None \<Rightarrow>
      (case e2 of Some x \<Rightarrow> (w2, Some x) | None \<Rightarrow> lift_turn (\<lambda>t. finishSuccessfulTurnAfterCheckpoint t c now) w5))"
    using assms(1) unfolding completeSuccessfulTurn_def s option.case Let_def rid_def [symmetric] cid_def [symmetric]
      m_def [symmetric] n_def [symmetric] r1 wrapping_def prod.case
    by (cases e1; cases e2) (auto simp: and_then_def r2 r5)
  moreover have "completion_for (w_turn w5) c" using assms(3) g5(2) by (simp add: completion_for_def)
  ultimately show ?thesis using g1 g2 g5 complete_ends [of "w_turn w5" c now]
    by (auto simp: lift_turn_def split: option.splits prod.splits)
qed

lemma completing_ends:
  assumes "on_error (completeSuccessfulTurn env c now w) (\<lambda>w1 x. failStreamIfNonTerminal env code x now w1) = (w', e)"
    and "good (w_turn w)" "completion_for (w_turn w) c"
  shows "good (w_turn w') \<and> ended (w_turn w')"
proof -
  obtain w1 e1 where r: "completeSuccessfulTurn env c now w = (w1, e1)" by fastforce
  from completeSuccessfulTurn_ends [OF this assms(2,3)] failIfNonTerminal_ends assms(1) r show ?thesis
    by (cases e1) (auto simp: on_error_def)
qed

subsection \<open>What a turn waits for\<close>

definition live_resume_timer :: "turn \<Rightarrow> bool" where
  "live_resume_timer t = list_ex (\<lambda>e. te_Kind e = streamTimerProviderResume \<and> timerEventMatches t e) (tn_timers t)"

definition settled :: "turn \<Rightarrow> bool" where
  "settled t =
     (case stream_of t of
        None \<Rightarrow> False
      | Some s \<Rightarrow> isTerminalStreamStatus (as_Status s) \<or>
          0 < pendingBridgeCount s \<and> as_PendingProviderCompletion s \<noteq> None \<or>
          as_PendingProviderAction s = providerActionResume \<and> \<not> as_ProviderActive s \<and> pendingBridgeCount s = 0 \<and>
          live_resume_timer t)"

definition idle :: "ActiveStream \<Rightarrow> bool" where
  "idle s \<longleftrightarrow> \<not> as_ProviderActive s \<and> pendingBridgeCount s = 0 \<and> \<not> as_PendingCompaction s \<and>
     as_PendingProviderAction s \<noteq> providerActionStart"

lemma ended_settled: "ended t \<Longrightarrow> settled t"
  by (auto simp: ended_def settled_def split: option.splits)

lemma core_idle: "core s' = core s \<Longrightarrow> idle s' = idle s"
  by (simp add: core_def idle_def pendingBridgeCount_def)

lemma resume_timer_key: "TrimSpace providerResumeTimer \<noteq> []"
  by code_simp

lemma schedule_resume_settles:
  assumes "stream_of t = Some s" "as_PendingProviderAction s = providerActionResume" "\<not> as_ProviderActive s" "pendingBridgeCount s = 0"
  shows "settled (scheduleStreamTimer t providerResumeTimer streamTimerProviderResume x i r now)"
proof -
  have tok: "timer_token (bump_token k now s) k = timer_token s k + 1" for k
    by (simp add: timer_token_def bump_token_def map_of_update_gomap)
  have b: "as_PendingProviderAction (bump_token k now s) = as_PendingProviderAction s"
    "as_ProviderActive (bump_token k now s) = as_ProviderActive s" "pendingBridgeCount (bump_token k now s) = pendingBridgeCount s" for k
    by (simp_all add: bump_token_def pendingBridgeCount_def)
  show ?thesis using assms resume_timer_key
    by (simp add: scheduleStreamTimer_def settled_def live_resume_timer_def timerEventMatches_def tok b)
qed

lemma follow_resume_settles:
  assumes "stream w = Some s" "idle s" "as_PendingProviderAction s = providerActionResume"
  shows "settled (w_turn (fst (follow_action env providerActionResume now w)))"
  using assms unfolding follow_action_def
  by (auto simp: idle_def set_phase_def setTurnPhase_def pendingBridgeCount_def intro!: schedule_resume_settles)


lemma request_resume_settles:
  assumes "stream w = Some s" "good (w_turn w)" "isTerminalStreamStatus (as_Status s) \<or> idle s \<and> as_PendingProviderCompletion s = None"
  shows "settled (w_turn (fst (requestProviderAction env providerActionResume now w))) \<and>
    snd (requestProviderAction env providerActionResume now w) = None"
proof -
  define f :: "ActiveStream \<Rightarrow> ActiveStream" where "f = (\<lambda>s. s\<lparr>as_PendingProviderAction := (if as_PendingProviderAction s = providerActionStart
    then providerActionStart else providerActionResume), as_UpdatedAt := now\<rparr>)"
  have r: "requestProviderAction env providerActionResume now w = reconcileStream env now (on_stream f w)"
    by (simp add: requestProviderAction_def f_def)
  have st: "stream (on_stream f w) = Some (f s)" using assms(1) by simp
  show ?thesis
  proof (cases "isTerminalStreamStatus (as_Status s)")
    case True
    then have "reconcileStream env now (on_stream f w) = (on_stream f w, None)"
      unfolding reconcileStream_def st option.case by (simp add: f_def)
    then show ?thesis unfolding r using True assms(1) by (simp add: settled_def f_def)
  next
    case False
    then have i: "idle s" "as_PendingProviderCompletion s = None" using assms(3) by auto
    then have "idle (f s)" "as_PendingProviderAction (f s) = providerActionResume"
      by (simp_all add: idle_def f_def pendingBridgeCount_def)
    moreover from this False i have "reconcileStream env now (on_stream f w) = follow_action env providerActionResume now (on_stream f w)"
      unfolding reconcileStream_def st option.case by (simp add: idle_def f_def pendingBridgeCount_def)
    ultimately show ?thesis unfolding r using follow_resume_settles [OF st] by (simp add: follow_action_def)
  qed
qed

abbreviation resting :: "world \<Rightarrow> bool" where
  "resting w \<equiv> \<exists>s. stream w = Some s \<and> (isTerminalStreamStatus (as_Status s) \<or> idle s \<and> as_PendingProviderCompletion s = None)"

lemma runs_resting:
  assumes "runs_to w w'" "good (w_turn w)" "resting w"
  shows "good (w_turn w') \<and> resting w' \<and> request w' = request w"
proof -
  obtain s s' where s: "stream w = Some s" "isTerminalStreamStatus (as_Status s) \<or> idle s \<and> as_PendingProviderCompletion s = None"
    "good (w_turn w')" "stream w' = Some s'" "core s' = core s" "request w' = request w"
    "isTerminalStreamStatus (as_Status s) \<longrightarrow> isTerminalStreamStatus (as_Status s')"
    using assms by (auto simp: steps_to_def evolves_def)
  then show ?thesis using core_idle [OF s(5)] by (auto simp: core_def)
qed

abbreviation at_rest :: "world \<Rightarrow> bool" where
  "at_rest w \<equiv> good (w_turn w) \<and> settled (w_turn w)"

text \<open>The way out of an error: the stream fails, unless it has ended.\<close>

lemma failIf_at_rest: "good (w_turn w) \<Longrightarrow> at_rest (fst (failStreamIfNonTerminal env code e now w))"
  using failIfNonTerminal_ends ended_settled by (metis prod.collapse)

lemma on_error_settles:
  assumes "good (w_turn (fst r))" "snd r = None \<Longrightarrow> settled (w_turn (fst r))"
  shows "at_rest (fst (on_error r (\<lambda>w1 e. failStreamIfNonTerminal env code e now w1)))"
  using assms failIf_at_rest by (cases r; cases "snd r") (simp_all add: on_error_def)

lemma set_phase_runs: "runs_to w (set_phase p now w)"
  using setTurnPhase_steps by (simp add: set_phase_def)

lemma request_good:
  assumes "good (w_turn w)" "resting w"
  shows "good (w_turn (fst (requestProviderAction env providerActionResume now w)))"
proof -
  obtain s where s: "stream w = Some s" "isTerminalStreamStatus (as_Status s) \<or> idle s \<and> as_PendingProviderCompletion s = None"
    using assms(2) by blast
  define f :: "ActiveStream \<Rightarrow> ActiveStream" where "f = (\<lambda>s. s\<lparr>as_PendingProviderAction := (if as_PendingProviderAction s = providerActionStart
    then providerActionStart else providerActionResume), as_UpdatedAt := now\<rparr>)"
  have g: "good (w_turn (on_stream f w))" using assms(1) by (simp add: f_def upd_good)
  have st: "stream (on_stream f w) = Some (f s)" using s(1) by simp
  have "fst (reconcileStream env now (on_stream f w)) = on_stream f w \<or>
      reconcileStream env now (on_stream f w) = follow_action env providerActionResume now (on_stream f w)"
    using s(2) unfolding reconcileStream_def st option.case by (auto simp: idle_def f_def pendingBridgeCount_def)
  moreover have "good (w_turn (fst (follow_action env providerActionResume now (on_stream f w))))"
    unfolding follow_action_def using g setTurnPhase_steps [of "upd f (w_turn w)"] scheduleStreamTimer_steps
    by (simp add: steps_to_def set_phase_def)
  ultimately show ?thesis using g by (auto simp: requestProviderAction_def f_def)
qed

lemma resume_turn_settles:
  assumes "stream w = Some s" "good (w_turn w)" "isTerminalStreamStatus (as_Status s) \<or> idle s \<and> as_PendingProviderCompletion s = None"
  shows "at_rest (fst (resume_turn env now w))"
proof -
  obtain w1 e where r: "publishCheckpoint env now w = (w1, e)" by fastforce
  obtain s1 where s1: "good (w_turn w1)" "stream w1 = Some s1" "core s1 = core s"
    "isTerminalStreamStatus (as_Status s) \<longrightarrow> isTerminalStreamStatus (as_Status s1)"
    using publishCheckpoint_runs' [OF r] assms(1,2) by (auto simp: steps_to_def evolves_def)
  have c: "isTerminalStreamStatus (as_Status s1) \<or> idle s1 \<and> as_PendingProviderCompletion s1 = None"
    using s1(3,4) assms(3) core_idle [OF s1(3)] by (auto simp: core_def)
  show ?thesis
  proof (cases e)
    case None
    have "resting w1" using s1(2) c by blast
    with None show ?thesis using request_resume_settles [OF s1(2,1) c, of env now] request_good [OF s1(1), of env now]
      by (cases "requestProviderAction env providerActionResume now w1") (simp add: resume_turn_def and_then_def on_error_def r)
  next
    case (Some x)
    with failIf_at_rest [OF s1(1)] show ?thesis
      by (simp add: resume_turn_def and_then_def on_error_def r)
  qed
qed


lemma subagent_settles:
  assumes "handleSubagentEmptyStopAfterToolResult env s0 now w = (handled, r)" "good (w_turn w)" "resting w"
  shows "(handled \<longrightarrow> at_rest (fst (on_error r (\<lambda>w1 e. failStreamIfNonTerminal env code e now w1)))) \<and>
    (\<not> handled \<longrightarrow> r = (w, None))"
proof -
  define failing where "failing = set_phase TurnPhaseFailed now w"
  obtain wf ef where wf: "failStream env ''empty_response'' (OtherError ''subagent returned empty response after tool result'') now
      failing = (wf, ef)" by fastforce
  have "good (w_turn failing)" using runs_good [OF set_phase_runs assms(2)] by (simp add: failing_def)
  note gf = failStream_ends [OF wf this]
  define es where "es = [reminder_entry env (as_TurnSeq s0) (request w) ''subagent_empty_stop_recovery'' subagentEmptyStopRecoveryText]"
  obtain w1 e1 where r1: "append_entries env (as_ConversationID s0) es now w = (w1, e1)" by fastforce
  obtain w2 e2 where r2: "syncSummaryCarryForward (en_dc env) w1 (request w) (as_CurrentModelCallID s0) now = (w2, e2)" by fastforce
  obtain w3 e3 where r3: "publishCheckpoint env now w2 = (w3, e3)" by fastforce
  have g1: "good (w_turn w1) \<and> resting w1" using runs_resting [OF append_entries_runs [OF r1]] assms(2,3) by blast
  then have g2: "good (w_turn w2) \<and> resting w2" using summary_turn [OF r2] by simp
  have g3: "good (w_turn w3) \<and> resting w3" using runs_resting [OF publishCheckpoint_runs' [OF r3]] g2 by blast
  define chain where "chain = and_then (append_entries env (as_ConversationID s0) es now w)
    (\<lambda>w1. and_then (syncSummaryCarryForward (en_dc env) w1 (request w) (as_CurrentModelCallID s0) now)
    (\<lambda>w2. and_then (publishCheckpoint env now w2) (\<lambda>w3. requestProviderAction env providerActionResume now w3)))"
  have chain: "good (w_turn (fst chain)) \<and> (snd chain = None \<longrightarrow> settled (w_turn (fst chain)))"
    using g1 g2 g3 request_resume_settles [of w3] request_good [of w3]
    by (cases e1; cases e2; cases e3) (auto simp: chain_def and_then_def r1 r2 r3)
  have "(handled, r) \<in> {(False, (w, None)), (True, (wf, ef)), (True, chain)} \<or> handled \<and> fst r = w \<and> snd r \<noteq> None"
    using assms(1)
    unfolding handleSubagentEmptyStopAfterToolResult_def failing_def [symmetric] es_def [symmetric] wf chain_def [symmetric]
    by (auto split: if_splits sum.splits prod.splits)
  then consider "\<not> handled" "r = (w, None)" | "handled" "r = (wf, ef)" | "handled" "r = chain" | "handled" "fst r = w" "snd r \<noteq> None"
    by auto
  then show ?thesis
    using gf chain assms(2) ended_settled
    by cases (auto intro!: on_error_settles)
qed


lemma after_pass_settles:
  assumes "good (w_turn w)" "stream w = Some s1" "core s1 = core (reset_pass now s)" "\<not> as_PendingCompaction s"
    and "\<And>c. as_PendingProviderCompletion s = Some c \<Longrightarrow> completion_for (w_turn w) c"
  shows "at_rest (fst (after_pass env s now w))"
proof -
  define failing where "failing = (\<lambda>w2 e. failStreamIfNonTerminal env ''unknown'' e now w2)"
  define pass where "pass = as_ProviderPassCount s1"
  have c: "as_PendingProviderCompletion s1 = as_PendingProviderCompletion s" "\<not> as_PendingCompaction s1" "\<not> as_ProviderActive s1"
    "as_PendingProviderAction s1 = providerActionNone"
    using assms(3,4) by (simp_all add: core_def reset_pass_def clear_output_def)
  show ?thesis
  proof (cases "0 < pendingBridgeCount s1")
    case True
    define w1 where "w1 = rememberPendingProviderCompletion (pass_completion w s pass (completionDispositionForExternalResults
      (as_FinishReason s) (hasPendingAwaitingUserInteraction s1) (0 < as_ToolInvocationCount s))) now w"
    define w2 where "w2 = set_phase (if hasPendingAwaitingUserInteraction s1 then TurnPhaseAwaitingUser else TurnPhaseWaitingExternal) now w1"
    obtain w3 e3 where r: "publishCheckpoint env now w2 = (w3, e3)" by fastforce
    have g1: "good (w_turn w1)" unfolding w1_def rememberPendingProviderCompletion_def using assms(1) by (simp add: upd_good)
    have g2: "good (w_turn w2)" using runs_good [OF set_phase_runs g1] by (simp add: w2_def)
    obtain s2 where s2: "stream w2 = Some s2" "pendingBridgeCount s2 = pendingBridgeCount s1" "as_PendingProviderCompletion s2 \<noteq> None"
      using assms(2) by (simp add: w2_def w1_def set_phase_def setTurnPhase_def rememberPendingProviderCompletion_def pendingBridgeCount_def)
    obtain s3 where s3: "good (w_turn w3)" "stream w3 = Some s3" "core s3 = core s2"
      using publishCheckpoint_runs' [OF r] g2 s2(1) by (auto simp: steps_to_def evolves_def)
    then have "settled (w_turn w3)"
      using s2 True by (auto simp: settled_def core_def pendingBridgeCount_def)
    then have "at_rest (fst (on_error (publishCheckpoint env now w2) failing))"
      unfolding failing_def using s3(1) by (auto intro!: on_error_settles simp: r)
    then show ?thesis unfolding after_pass_def assms(2) option.case Let_def failing_def w2_def w1_def pass_def
      using True by simp
  next
    case False
    have i: "idle s1" using False c by (simp add: idle_def)
    show ?thesis
    proof (cases "as_PendingProviderCompletion s")
      case None
      have rest: "resting w" using assms(2) i c(1) None by simp
      obtain handled r where h: "handleSubagentEmptyStopAfterToolResult env s now w = (handled, r)" by (metis surj_pair)
      note hs = subagent_settles [OF h assms(1) rest, of "''unknown''"]
      have res: "at_rest (fst (resume_turn env now w))"
        using resume_turn_settles [OF assms(2,1)] i c(1) None by simp
      have comp: "at_rest (fst (on_error (completeSuccessfulTurn env (pass_completion w s pass completionDispositionNone) now
          (clearPendingProviderCompletion now w)) failing))"
      proof -
        obtain w2 e2 where f: "on_error (completeSuccessfulTurn env (pass_completion w s pass completionDispositionNone) now
          (clearPendingProviderCompletion now w)) failing = (w2, e2)" by fastforce
        have "good (w_turn (clearPendingProviderCompletion now w))"
          unfolding clearPendingProviderCompletion_def using assms(1) by (simp add: upd_good)
        moreover have "completion_for (w_turn (clearPendingProviderCompletion now w)) (pass_completion w s pass completionDispositionNone)"
          by (simp add: completion_for_def pass_completion_def clearPendingProviderCompletion_def)
        ultimately show ?thesis using completing_ends [OF f [unfolded failing_def]] f by (simp add: ended_settled)
      qed
      show ?thesis unfolding after_pass_def assms(2) option.case Let_def None h
        using False hs res comp by (cases handled) (auto simp: failing_def pass_def split: prod.splits)
    next
      case (Some existing)
      let ?w1 = "clearPendingProviderCompletion now w"
      define completion where "completion = existing
          \<lparr>pc_ModelCallID := (if TrimSpace (pc_ModelCallID existing) = [] then as_CurrentModelCallID s else pc_ModelCallID existing),
           pc_ProviderPass := (if pc_ProviderPass existing = 0 then pass else pc_ProviderPass existing), pc_Usage := as_Usage s\<rparr>"
      have g: "good (w_turn ?w1)" unfolding clearPendingProviderCompletion_def using assms(1) by (simp add: upd_good)
      have st: "stream ?w1 = Some (s1\<lparr>as_PendingProviderCompletion := None, as_UpdatedAt := now\<rparr>)"
        using assms(2) by (simp add: clearPendingProviderCompletion_def)
      have res: "at_rest (fst (resume_turn env now ?w1))"
        using resume_turn_settles [OF st g] i by (simp add: idle_def pendingBridgeCount_def)
      obtain w2 e2 where f: "on_error (completeSuccessfulTurn env completion now ?w1) failing = (w2, e2)" by fastforce
      have "completion_for (w_turn ?w1) completion"
        using assms(5) [OF Some] by (simp add: completion_def completion_for_def clearPendingProviderCompletion_def)
      then have comp: "at_rest (fst (on_error (completeSuccessfulTurn env completion now ?w1) failing))"
        using completing_ends [OF f [unfolded failing_def] g] f by (simp add: ended_settled)
      show ?thesis unfolding after_pass_def assms(2) option.case Let_def Some completion_def [unfolded pass_def, symmetric]
        using False res comp by (auto simp: failing_def)
    qed
  qed
qed


lemma storing_errors:
  "append_entries env cid es now w = (w', Some e) \<Longrightarrow> \<not> is_interrupted e"
  "updateConversationMetaAndCheckpoint dc w cid f now = (w', Some e) \<Longrightarrow> \<not> is_interrupted e"
  "flushAssistantText env cid n rid t r o' now w = (w', Some e) \<Longrightarrow> \<not> is_interrupted e"
  "recordTurnUsageSnapshot dc w cid rid m st u text now = (w', Some e) \<Longrightarrow> \<not> is_interrupted e"
  "updateConversationTokenState dc w cid u m fin now = (w', Some e) \<Longrightarrow> \<not> is_interrupted e"
proof -
  show a: "\<not> is_interrupted e" if "append_entries env cid es now w = (w', Some e)" for env cid es w w' e
    using that by (auto simp: append_entries_def appendConversationEntries_def split: option.splits prod.splits sum.splits if_splits)
  have s: "\<not> is_interrupted e" if "syncConversationRecord dc w cid c now = (w', Some e)" for dc w cid c w' e
    using that by (auto simp: syncConversationRecord_def Let_def split: sum.splits prod.splits)
  show m: "\<not> is_interrupted e" if "updateConversationMetaAndCheckpoint dc w cid f now = (w', Some e)" for dc w cid f w' e
    using that s by (fastforce simp: updateConversationMetaAndCheckpoint_def Let_def split: option.splits prod.splits)
  show "flushAssistantText env cid n rid t r o' now w = (w', Some e) \<Longrightarrow> \<not> is_interrupted e"
    using a by (auto simp: flushAssistantText_def split: if_splits)
  show "recordTurnUsageSnapshot dc w cid rid m st u text now = (w', Some e) \<Longrightarrow> \<not> is_interrupted e"
    using m by (auto simp: recordTurnUsageSnapshot_def Let_def split: if_splits)
  show "updateConversationTokenState dc w cid u m fin now = (w', Some e) \<Longrightarrow> \<not> is_interrupted e"
    using m by (auto simp: updateConversationTokenState_def Let_def split: if_splits)
qed

lemma close_ends:
  assumes "closeStreamWithProviderError env s cause ro now w = (w', e)" "good (w_turn w)"
  shows "good (w_turn w') \<and> (e = None \<longrightarrow> ended (w_turn w')) \<and> (\<forall>x. e = Some x \<longrightarrow> \<not> is_interrupted x)"
proof -
  define msg where "msg = (if TrimSpace (en_text env cause) = [] then ''provider error'' else TrimSpace (en_text env cause))"
  define m where "m = TrimSpace (as_CurrentModelCallID s)"
  define cid where "cid = as_ConversationID s"
  obtain w1 e1 where r1: "flushAssistantText env cid (as_TurnSeq s) (request w) (as_AccumulatedText s) (stream_reasoning s) ro now w = (w1, e1)"
    by fastforce
  obtain w2 e2 where r2: "recordTurnUsageSnapshot (en_dc env) w1 cid (request w) m ''provider_error'' (as_Usage s) msg now = (w2, e2)"
    by fastforce
  obtain w3 e3 where r3: "append_entries env cid [newMetadataEntry (as_TurnSeq s) (request w) ''provider_error''
      [(''error'', JStr msg), (''model_call_id'', JStr m)]] now w2 = (w3, e3)" by fastforce
  let ?w4 = "recordTurnFinalizedSnapshot w3 cid (as_TurnSeq s) (request w) ''provider_error'' now"
  obtain w5 e5 where r5: "updateConversationTokenState (en_dc env) ?w4 cid (as_Usage s) m False now = (w5, e5)" by fastforce
  obtain w6 e6 where r6: "failActiveStream env m ''provider_error'' msg now w5 = (w6, e6)" by fastforce
  have g1: "good (w_turn w1)" using runs_good [OF flush_runs [OF r1] assms(2)] .
  have g2: "good (w_turn w2)" using runs_good [OF usage_snapshot_runs [OF r2] g1] .
  have g3: "good (w_turn w3)" using runs_good [OF append_entries_runs [OF r3] g2] .
  have g5: "good (w_turn w5)" using runs_good [OF token_state_runs [OF r5]] g3 by simp
  have g6: "good (w_turn w6) \<and> ended (w_turn w6)" "e6 = None" using failActiveStream_ends [OF r6 g5] .
  have "closeStreamWithProviderError env s cause ro now w = (case e1 of
      Some x \<Rightarrow> (w1, Some (Wrapped ''flush provider error assistant output: '' x)) | None \<Rightarrow> (case e2 of
      Some x \<Rightarrow> (w2, Some (Wrapped ''record provider error usage: '' x)) | None \<Rightarrow> (case e3 of
      Some x \<Rightarrow> (w3, Some x) | None \<Rightarrow> (case e5 of Some x \<Rightarrow> (w5, Some x) | None \<Rightarrow> (w6, e6)))))"
    unfolding closeStreamWithProviderError_def Let_def msg_def [symmetric] m_def [symmetric] cid_def [symmetric]
    by (cases e1; cases e2; cases e3; cases e5) (simp_all add: and_then_def wrapping_def r1 r2 r3 r5 r6)
  then show ?thesis using assms(1) g1 g2 g3 g5 g6 storing_errors(3) r1 storing_errors(4) r2 storing_errors(1) r3 storing_errors(5) r5
    by (fastforce split: option.splits)
qed

lemma done_event_settles:
  assumes "good (w_turn w)" "stream w = Some s" "\<not> as_PendingCompaction s"
    and "case err of None \<Rightarrow> True | Some e \<Rightarrow> \<not> is_interrupted e"
    and "\<And>c. as_PendingProviderCompletion s = Some c \<Longrightarrow> completion_for (w_turn w) c"
  shows "at_rest (case handleProviderDoneEvent env err now w of (w1, None) \<Rightarrow> w1
      | (w1, Some e) \<Rightarrow> if is_interrupted e then w1 else fst (failStreamIfNonTerminal env ''unknown'' e now w1))"
    (is "at_rest (?after (handleProviderDoneEvent env err now w))")
proof -
  define w0 where "w0 = on_stream (reset_pass now) w"
  have st0: "stream w0 = Some (reset_pass now s)" "request w0 = request w" using assms(2) by (simp_all add: w0_def)
  have g0: "good (w_turn w0)" unfolding w0_def using assms(1)
    by (simp add: upd_good reset_pass_def clear_output_def)
  have after: "at_rest (?after r)" if "settled (w_turn (fst r))" "good (w_turn (fst r))" for r
    using that failIf_at_rest by (cases r) (auto split: option.split)
  show ?thesis
  proof (cases "isTerminalStreamStatus (as_Status s)")
    case True
    then have "handleProviderDoneEvent env err now w = (w0, None)"
      by (simp add: handleProviderDoneEvent_def assms(2) w0_def)
    then show ?thesis using True st0(1) g0 by (simp add: settled_def reset_pass_def clear_output_def)
  next
    case False
    have kept: "good (w_turn w') \<and> (\<exists>s1. stream w' = Some s1 \<and> core s1 = core (reset_pass now s)) \<and> request w' = request w"
      if "runs_to w'' w'" "good (w_turn w'')" "stream w'' = Some s2" "core s2 = core (reset_pass now s)" "request w'' = request w"
      for w'' w' s2
      using that by (auto simp: steps_to_def evolves_def)
    define ro where "ro = (as_ToolInvocationCount s \<le> 0)"
    define cid where "cid = as_ConversationID s"
    obtain w1 e1 where r1: "flushAssistantText env cid (as_TurnSeq s) (request w) (as_AccumulatedText s) (stream_reasoning s) ro now w0 = (w1, e1)"
      by fastforce
    obtain s1 where k1: "good (w_turn w1)" "stream w1 = Some s1" "core s1 = core (reset_pass now s)" "request w1 = request w"
      using kept [OF flush_runs [OF r1] g0 st0(1) refl] st0(2) by auto
    show ?thesis
    proof (cases err)
      case None
      obtain w2 e2 where r2: "recordTurnUsageSnapshot (en_dc env) w1 cid (request w) (as_CurrentModelCallID s) ''completed'' (as_Usage s) [] now = (w2, e2)"
        by fastforce
      obtain s2 where k2: "good (w_turn w2)" "stream w2 = Some s2" "core s2 = core (reset_pass now s)" "request w2 = request w"
        using kept [OF usage_snapshot_runs [OF r2] k1] by auto
      obtain w3 e3 where r3: "updateConversationTokenState (en_dc env) w2 cid (as_Usage s) (as_CurrentModelCallID s) True now = (w3, e3)"
        by fastforce
      obtain s3 where k3: "good (w_turn w3)" "stream w3 = Some s3" "core s3 = core (reset_pass now s)" "request w3 = request w"
        using kept [OF token_state_runs [OF r3] k2] by auto
      obtain w4 e4 where r4: "syncSummaryCarryForward (en_dc env) w3 (request w) (as_CurrentModelCallID s) now = (w4, e4)" by fastforce
      have k4: "good (w_turn w4)" "stream w4 = Some s3" "request w4 = request w" using k3 summary_turn [OF r4] by simp_all
      have "completion_for (w_turn w4) c" if "as_PendingProviderCompletion s = Some c" for c
        using assms(5) [OF that] k4(3) by (simp add: completion_for_def)
      then have ap: "settled (w_turn (fst (after_pass env s now w4))) \<and> good (w_turn (fst (after_pass env s now w4)))"
        using after_pass_settles [OF k4(1,2) k3(3) assms(3)] by blast
      show ?thesis
        unfolding handleProviderDoneEvent_def assms(2) option.case Let_def None w0_def [symmetric] cid_def [symmetric] ro_def [symmetric]
        by (rule after; use False ap failIf_at_rest k1(1) k2(1) k3(1) k4(1) in \<open>cases e1; cases e2; cases e3; cases e4; simp add: st0(2) r1 r2 r3 r4\<close>)
    next
      case (Some e)
      define wf where "wf = set_phase TurnPhaseFailed now w0"
      have gf: "good (w_turn wf)" "request wf = request w" using runs_good [OF set_phase_runs g0] st0(2)
        by (simp_all add: wf_def set_phase_def setTurnPhase_def)
      obtain wc ec where c: "closeStreamWithProviderError env s e ro now wf = (wc, ec)" by fastforce
      note cl = close_ends [OF c gf(1)]
      have close: "at_rest (?after (wc, ec))" using cl failIf_at_rest ended_settled by (cases ec) auto
      have fs: "settled (w_turn (fst (failStream env code x now w'))) \<and> good (w_turn (fst (failStream env code x now w')))"
        if "good (w_turn w')" for code x w'
        using failStream_ends [OF _ that] ended_settled by (metis prod.collapse)
      have "good (w_turn (set_phase TurnPhaseFailed now w1))" using runs_good [OF set_phase_runs k1(1)] .
      then have other: "at_rest (?after (case (w1, e1) of
          (w1, Some fe) \<Rightarrow> failStream env ''unknown'' (Wrapped ''flush failed provider output: '' fe) now w1
        | (w1, None) \<Rightarrow> failStream env ''unknown'' e now (set_phase TurnPhaseFailed now w1)))"
        by (intro after) (use fs k1(1) in \<open>cases e1; simp\<close>)+
      show ?thesis
        unfolding handleProviderDoneEvent_def assms(2) option.case Let_def Some w0_def [symmetric] cid_def [symmetric] ro_def [symmetric]
          wf_def [symmetric] c
        using False assms(4) close other by (simp add: Some st0(2) r1)
    qed
  qed
qed

text \<open>
  C24. A finished provider call is always followed by something: once the call of the current pass is
  done, with an error or without, and whatever goes wrong while its output is stored, the stream has
  ended, or results of tools are awaited and the completion is remembered, or a timer that the stream
  accepts will start the next provider call.
\<close>

theorem provider_done_moves_on:
  assumes "good (w_turn w)" "stream w = Some s" "\<not> as_PendingCompaction s" "providerTokenMatches w token"
    and "case err of None \<Rightarrow> True | Some e \<Rightarrow> \<not> is_interrupted e"
    and "\<And>c. as_PendingProviderCompletion s = Some c \<Longrightarrow> completion_for (w_turn w) c"
  shows "good (w_turn (provider_call_done env token err now w)) \<and>
    settled (w_turn (provider_call_done env token err now w))"
proof -
  define w00 where "w00 = w\<lparr>w_providers := remove1 token (w_providers w)\<rparr>"
  have w00: "w_turn w00 = w_turn w" by (simp add: w00_def)
  have "handleProviderEvent env token (Inl err) now w00 = handleProviderDoneEvent env err now w00"
    using assms(4) by (simp add: handleProviderEvent_def providerTokenMatches_def w00)
  moreover have "at_rest (case handleProviderDoneEvent env err now w00 of (w1, None) \<Rightarrow> w1
      | (w1, Some e) \<Rightarrow> if is_interrupted e then w1 else fst (failStreamIfNonTerminal env ''unknown'' e now w1))"
    by (rule done_event_settles) (use assms w00 in auto)
  ultimately show ?thesis unfolding provider_call_done_def Let_def w00_def [symmetric] by simp
qed

definition demo_env :: env where
  "demo_env = \<lparr>en_dc = demo_decoders, en_text = (\<lambda>_. ''error''), en_raw = (\<lambda>_. RawEmpty), en_sha = (\<lambda>s. s), en_uuid = ''call-2'',
     en_projection = (\<lambda>_. Inr (demo_state, [])), en_prepare = (\<lambda>w. (w, Prepared 1 10 2)), en_tool = (\<lambda>w _. (w, None)),
     en_display = (\<lambda>_ tc. tc), en_edit_outcome = (\<lambda>_. Inl (OtherError ''no edit''))\<rparr>"

text \<open>A turn whose first provider call runs and has used a tool; the first write of the store fails.\<close>

definition demo_running :: world where
  "demo_running = \<lparr>w_turn = upd (\<lambda>s. s\<lparr>as_ProviderActive := True, as_CurrentProviderToken := 1, as_ToolInvocationCount := 1,
       as_AccumulatedText := ''hello'', as_Status := StreamStatusStreaming\<rparr>) demo_turn,
     w_conversation = Some (new_conversation ''c'' 1), w_store = NewConversationFileStore, w_usage = NewUsageFileStore [] None 1,
     w_io = [\<lparr>io_context = WriteOk, io_append = AppendFailed 0 False, io_state = WriteOk\<rparr>], w_providers = [1]\<rparr>"

lemma demo_running_stream:
  "stream demo_running = Some ((fresh_stream ''r'' ''c'' 1 ''m'' ''m'' AGENT_MODE_AGENT ''hi'' 0)
     \<lparr>as_ProviderActive := True, as_CurrentProviderToken := 1, as_ToolInvocationCount := 1,
      as_AccumulatedText := ''hello'', as_Status := StreamStatusStreaming\<rparr>)"
proof -
  have "stream_of demo_turn = Some (fresh_stream ''r'' ''c'' 1 ''m'' ''m'' AGENT_MODE_AGENT ''hi'' 0)"
    by (simp add: demo_turn_def stream_of_def)
  then show ?thesis by (simp add: demo_running_def)
qed

lemma demo_running_good: "good (w_turn demo_running)"
  using demo_running_stream by (simp add: good_def) (simp add: demo_running_def demo_turn_def fresh_stream_def no_checkpoint_def)

theorem provider_done_moves_on_witness:
  "settled (w_turn (provider_call_done demo_env 1 None 9 demo_running))"
  using provider_done_moves_on [OF demo_running_good demo_running_stream, of 1 None demo_env 9]
  by (simp add: providerTokenMatches_def demo_running_stream fresh_stream_def)

subsection \<open>The last checkpoint of a turn\<close>

abbreviation same_checkpoint :: "world \<Rightarrow> world \<Rightarrow> bool" where
  "same_checkpoint w w' \<equiv> tn_checkpoint (w_turn w') = tn_checkpoint (w_turn w)"

lemma append_checkpoint: "append_entries env cid es now w = (w', e) \<Longrightarrow> same_checkpoint w w'"
  by (auto simp: append_entries_def appendConversationEntries_def split: option.splits prod.splits sum.splits if_splits)

lemma update_meta_checkpoint: "updateConversationMetaAndCheckpoint dc w cid f now = (w', e) \<Longrightarrow> same_checkpoint w w'"
  using sync_record_turn
  by (fastforce simp: updateConversationMetaAndCheckpoint_def Let_def split: option.splits prod.splits)

lemma usage_checkpoint: "recordTurnUsageSnapshot dc w cid rid m st u e now = (w', r) \<Longrightarrow> same_checkpoint w w'"
  unfolding recordTurnUsageSnapshot_def Let_def by (auto split: if_splits dest!: update_meta_checkpoint)

lemma send_blobs_ok: "stream_of t \<noteq> None \<Longrightarrow> send_blobs t ws now = (t', e) \<Longrightarrow> e = None"
proof (induction t ws now arbitrary: t' e rule: send_blobs.induct)
  case (2 t i blob ws now)
  obtain t1 e1 where p: "publish_to t (tn_RequestID t) (buildSetCheckpointBlobMessage i (cb_ID blob) (cb_Data blob)) now = (t1, e1)"
    by fastforce
  then have "e1 = None" "stream_of t1 \<noteq> None" using 2(2) by (auto simp: publish_to_def Publish_def stream_of_def)
  with 2 p show ?case by auto
qed simp

lemma dispatch_requires:
  "blob \<in> set blobs \<Longrightarrow> cb_ID blob \<noteq> [] \<Longrightarrow> cb_ID blob \<in> set (fst (snd (dispatch_blobs g now ks blobs ck)))"
proof (induction blobs arbitrary: ks ck)
  case (Cons b blobs)
  then show ?case by (auto simp: dispatch_blobs_Cons Let_def split_beta)
qed simp

lemma unready_checkpoint_waits:
  assumes "stream_of t \<noteq> None" "blob \<in> set blobs" "cb_ID blob \<noteq> []" "cb_ID blob \<notin> set (ck_ConfirmedCheckpointBlobs (tn_checkpoint t))"
    and "queueCheckpointProjectionWithTerminal t state blobs terminal now = (t', e)"
  shows "ck_sent (tn_checkpoint t') = ck_sent (tn_checkpoint t) \<and>
    ck_ConfirmedCheckpointBlobs (tn_checkpoint t') = ck_ConfirmedCheckpointBlobs (tn_checkpoint t)"
proof -
  obtain t1 ws where q: "queue_section t state blobs terminal now = (t1, ws)" by fastforce
  define gen where "gen = (if ck_CheckpointGeneration (tn_checkpoint t) + 1 = 0 then ck_CheckpointGeneration (tn_checkpoint t) + 2
    else ck_CheckpointGeneration (tn_checkpoint t) + 1)"
  obtain ck1 required w where d: "dispatch_blobs gen now (pending_keys (tn_checkpoint t)) blobs
      ((tn_checkpoint t)\<lparr>ck_CheckpointGeneration := gen\<rparr>) = (ck1, required, w)" by (metis prod_cases3)
  obtain p where t1: "tn_checkpoint t1 = ck1\<lparr>ck_PendingCheckpoint := Some p\<rparr>" "pp_Required p = required" "stream_of t1 \<noteq> None"
    using q assms(1) unfolding queue_section_def Let_def gen_def [symmetric] d by auto
  obtain t2 e2 where b: "send_blobs t1 ws now = (t2, e2)" by fastforce
  have t2: "e2 = None" "tn_checkpoint t2 = tn_checkpoint t1"
    using send_blobs_ok [OF t1(3) b] send_blobs_frame [of t1 ws now] b by simp_all
  have "\<not> checkpointProjectionReady t2"
    using dispatch_requires [OF assms(2,3), of gen now] d dispatch_frame [OF d] assms(4) t1 t2
    by (simp add: checkpointProjectionReady_def required_confirmed_def list_all_iff) (metis fst_conv snd_conv)
  then have "t' = scheduleCheckpointBlobTimeout t2 (ck_CheckpointGeneration (tn_checkpoint t2)) now"
    using assms(5) t2(1) unfolding queueCheckpointProjectionWithTerminal_def q Let_def prod.case b by simp
  then show ?thesis using t2 t1 dispatch_frame [OF d] by simp
qed

definition sent_and_confirmed :: "world \<Rightarrow> pendingCheckpointPublish list \<times> string list" where
  "sent_and_confirmed w = (ck_sent (tn_checkpoint (w_turn w)), ck_ConfirmedCheckpointBlobs (tn_checkpoint (w_turn w)))"

lemma publish_unready:
  assumes "\<And>w. en_projection env w = Inr (state, blobs)" "blob \<in> set blobs" "cb_ID blob \<noteq> []"
    and "cb_ID blob \<notin> set (snd (sent_and_confirmed w))"
  shows "sent_and_confirmed (fst (publishCheckpoint env now w)) = sent_and_confirmed w"
proof -
  obtain w1 e1 where r: "publishCheckpoint env now w = (w1, e1)" by fastforce
  have "w_turn w1 = w_turn w \<or> stream w \<noteq> None \<and>
      (\<exists>e. queueCheckpointProjectionWithTerminal (w_turn w) state blobs checkpointTerminalActionNone now = (w_turn w1, e))"
    using r by (auto simp: publishCheckpoint_def publishCheckpointWithTerminalAction_def assms(1) lift_turn_def
        successfulCheckpointTerminalAction_def split: option.splits sum.splits prod.splits)
  then show ?thesis
    using unready_checkpoint_waits [of "w_turn w" blob blobs state] assms(2-4) r by (auto simp: sent_and_confirmed_def)
qed

lemma failing_unready:
  assumes "\<And>w. en_projection env w = Inr (state, blobs)" "blob \<in> set blobs" "cb_ID blob \<noteq> []"
    and "cb_ID blob \<notin> set (snd (sent_and_confirmed w))"
  shows "sent_and_confirmed (fst (failStreamIfNonTerminal env code e now w)) = sent_and_confirmed w"
proof -
  have active: "sent_and_confirmed (fst (failActiveStream env m code msg now w)) = sent_and_confirmed w"
    if "cb_ID blob \<notin> set (snd (sent_and_confirmed w))" for m code msg w
  proof -
    define w2 where "w2 = on_stream (\<lambda>s. s\<lparr>as_ProviderActive := False, as_ProviderCancel := None,
      as_PendingProviderAction := providerActionNone, as_UpdatedAt := now\<rparr>) (cancel_provider (clearPendingProviderCompletion now w))"
    define w4 where "w4 = on_turn (\<lambda>t. discardPendingCheckpoint t now) (fst (syncSummaryCarryForward (en_dc env) w2 (request w2) m now))"
    define w5 where "w5 = fst (publishCheckpoint env now w4)"
    have "tn_checkpoint (w_turn w2) = tn_checkpoint (w_turn w)"
      by (auto simp: w2_def cancel_provider_def clearPendingProviderCompletion_def split: option.split)
    then have w4: "sent_and_confirmed w4 = sent_and_confirmed w"
      by (simp add: w4_def sent_and_confirmed_def discardPendingCheckpoint_def)
    then have "sent_and_confirmed w5 = sent_and_confirmed w"
      using publish_unready [OF assms(1-3), of w4] that by (simp add: w5_def)
    then show ?thesis using finish_frame(2) [of "w_turn w5" code msg now]
      unfolding failActiveStream_def Let_def w2_def [symmetric] w4_def [symmetric] w5_def [symmetric]
      by (cases "finishFailedTurnAfterCheckpoint (w_turn w5) code msg now") (simp add: lift_turn_def sent_and_confirmed_def)
  qed
  have app: "sent_and_confirmed (fst (append_entries env cid es now w)) = sent_and_confirmed w" for cid es
    using append_checkpoint [of env cid es now w] by (cases "append_entries env cid es now w") (simp add: sent_and_confirmed_def)
  show ?thesis
    using active app assms(4) by (auto simp: failStreamIfNonTerminal_def failStream_def Let_def split: option.split)
qed

text \<open>
  C25. The last checkpoint of a turn is not waited for: when the projection of the conversation refers to
  a blob the client has not confirmed, a turn that completes, or fails while it completes, ends its
  stream without ever sending that checkpoint.
\<close>

theorem last_checkpoint_not_sent:
  assumes "good (w_turn w)" "completion_for (w_turn w) c" "\<And>w. en_projection env w = Inr (state, blobs)"
    and "blob \<in> set blobs" "cb_ID blob \<noteq> []" "cb_ID blob \<notin> set (ck_ConfirmedCheckpointBlobs (tn_checkpoint (w_turn w)))"
    and "w' = fst (on_error (completeSuccessfulTurn env c now w) (\<lambda>w1 e. failStreamIfNonTerminal env ''unknown'' e now w1))"
  shows "ended (w_turn w') \<and> ck_sent (tn_checkpoint (w_turn w')) = ck_sent (tn_checkpoint (w_turn w))"
proof -
  obtain s where s: "stream w = Some s" using assms(1) by (auto simp: good_def)
  define rid where "rid = firstNonEmpty [TrimSpace (pc_RequestID c), TrimSpace (request w)]"
  define cid where "cid = firstNonEmpty [TrimSpace (pc_ConversationID c), TrimSpace (as_ConversationID s)]"
  define m where "m = firstNonEmpty [TrimSpace (pc_ModelCallID c), TrimSpace (as_CurrentModelCallID s)]"
  define n where "n = (if pc_TurnSeq c \<le> 0 then as_TurnSeq s else pc_TurnSeq c)"
  obtain w1 e1 where r1: "recordTurnUsageSnapshot (en_dc env) w cid rid m ''completed'' (pc_Usage c) [] now = (w1, e1)" by fastforce
  obtain w2 e2 where r2: "append_entries env cid [newMetadataEntry n rid ''turn_completed'' [(''model_call_id'', JStr m)]] now w1 = (w2, e2)"
    by fastforce
  define w4 where "w4 = fst (syncSummaryCarryForward (en_dc env) (recordTurnFinalizedSnapshot w2 cid n rid ''completed'' now) rid m now)"
  define w5 where "w5 = fst (publishCheckpoint env now w4)"
  define w6 where "w6 = fst (lift_turn (\<lambda>t. finishSuccessfulTurnAfterCheckpoint t c now) w5)"
  have fresh: "cb_ID blob \<notin> set (snd (sent_and_confirmed w))" using assms(6) by (simp add: sent_and_confirmed_def)
  have sc: "sent_and_confirmed w1 = sent_and_confirmed w" "sent_and_confirmed w2 = sent_and_confirmed w"
    "sent_and_confirmed w4 = sent_and_confirmed w"
    using usage_checkpoint [OF r1] append_checkpoint [OF r2] by (simp_all add: w4_def sent_and_confirmed_def)
  have "sent_and_confirmed w5 = sent_and_confirmed w"
    using publish_unready [OF assms(3-5), of w4] fresh sc by (simp add: w5_def)
  then have s6: "sent_and_confirmed w6 = sent_and_confirmed w"
    using finish_frame(1) [of "w_turn w5" c now]
    by (cases "finishSuccessfulTurnAfterCheckpoint (w_turn w5) c now") (simp add: w6_def lift_turn_def sent_and_confirmed_def)
  have "completeSuccessfulTurn env c now w = (case e1 of
      Some x \<Rightarrow> (w1, Some (Wrapped ''record completed turn usage: '' x)) | None \<Rightarrow>
      (case e2 of Some x \<Rightarrow> (w2, Some x) | None \<Rightarrow> lift_turn (\<lambda>t. finishSuccessfulTurnAfterCheckpoint t c now) w5))"
    unfolding completeSuccessfulTurn_def s option.case Let_def rid_def [symmetric] cid_def [symmetric]
      m_def [symmetric] n_def [symmetric] r1 wrapping_def prod.case
    by (cases e1; cases e2) (auto simp: and_then_def r2 w4_def [symmetric] w5_def [symmetric])
  then have "sent_and_confirmed (fst (completeSuccessfulTurn env c now w)) = sent_and_confirmed w"
    using sc s6 by (auto simp: w6_def split: option.split)
  then have "sent_and_confirmed w' = sent_and_confirmed w"
    using failing_unready [OF assms(3-5)] fresh assms(7) unfolding on_error_def
    by (cases "completeSuccessfulTurn env c now w"; cases "snd (completeSuccessfulTurn env c now w)") auto
  moreover have "ended (w_turn w')"
    using completing_ends [OF _ assms(1,2)] assms(7) by (metis prod.collapse)
  ultimately show ?thesis by (simp add: sent_and_confirmed_def)
qed

definition demo_projecting :: env where
  "demo_projecting = demo_env\<lparr>en_projection := (\<lambda>_. Inr (demo_state, [\<lparr>cb_ID = ''new'', cb_Data = ''turn''\<rparr>]))\<rparr>"

theorem last_checkpoint_not_sent_witness:
  "let w' = fst (on_error (completeSuccessfulTurn demo_projecting demo_completion 9 demo_running)
          (\<lambda>w1 e. failStreamIfNonTerminal demo_projecting ''unknown'' e 9 w1))
   in ended (w_turn w') \<and> ck_sent (tn_checkpoint (w_turn w')) = []"
proof -
  have c: "completion_for (w_turn demo_running) demo_completion" by code_simp
  have p: "en_projection demo_projecting w = Inr (demo_state, [\<lparr>cb_ID = ''new'', cb_Data = ''turn''\<rparr>])" for w
    by (simp add: demo_projecting_def)
  have n: "tn_checkpoint (w_turn demo_running) = no_checkpoint" by (simp add: demo_running_def demo_turn_def)
  from last_checkpoint_not_sent [OF demo_running_good c p _ _ _ refl, of "\<lparr>cb_ID = ''new'', cb_Data = ''turn''\<rparr>" 9]
  show ?thesis by (simp add: n Let_def) (simp add: no_checkpoint_def)
qed

end
