(* ===== verification/Run_Intent.thy ===== *)
theory Run_Intent
  imports Run_Rewind Turn_Progress
begin

text \<open>
  How a run starts and how it is canceled (\<open>service.go\<close>, \<open>runtime_summary.go\<close>). A run takes over a request:
  other streams of the conversation are canceled, the conversation is loaded or created, an active run of the
  same request is superseded, the history is cut or continued, and the stream is opened and its provider
  started. Parts that are not modelled are parameters, collected in \<open>run_env\<close>: the cancellation of the
  other streams (which their own actors do), the size of a model's context, the import of the conversation a
  client sends, the JSON form of a message and of the request context, the replay of selected commands, and
  the tool servers.
\<close>

record run_env =
  re_env :: env
  re_cancel_others :: "world \<Rightarrow> world"
  re_window :: "string \<Rightarrow> u32"
  re_import :: "InboundIntent \<Rightarrow> ConversationFile \<Rightarrow> turn_error + (ConversationFile \<times> HistoryEntry list)"
  re_message :: "UserMessage \<Rightarrow> raw_json option"
  re_context :: "raw_json \<Rightarrow> bool \<Rightarrow> raw_json option option"
  re_commands :: "UserMessage \<Rightarrow> (string \<times> string) option"
  re_servers :: "InboundIntent \<Rightarrow> ConversationFile \<Rightarrow> (string, string) gomap"

abbreviation re_dc :: "run_env \<Rightarrow> decoders" where
  "re_dc re \<equiv> en_dc (re_env re)"

subsection \<open>The entries of a run\<close>

fun collect :: "('a \<Rightarrow> 'e + 'b list) \<Rightarrow> 'a list \<Rightarrow> 'e + 'b list" where
  "collect f [] = Inr []"
| "collect f (x # xs) =
     (case f x of
        Inl e \<Rightarrow> Inl e
      | Inr ys \<Rightarrow> (case collect f xs of Inl e \<Rightarrow> Inl e | Inr zs \<Rightarrow> Inr (ys @ zs)))"

definition newPromptContextEntry :: "env \<Rightarrow> int \<Rightarrow> string \<Rightarrow> string \<Rightarrow> string \<Rightarrow> string \<Rightarrow> HistoryEntry" where
  "newPromptContextEntry env turnSeq requestID source role content =
     (let h0 = TrimSpace (promptContextContentHash env role content);
          digest = (if h0 = [] then promptContextContentHash env role content else h0)
      in \<lparr>he_Seq = 0, he_TurnSeq = turnSeq, he_RequestID = TrimSpace requestID, he_IdempotencyKey = [],
          he_Role = ''system'', he_Kind = ''prompt_context'', he_ToolCallID = [], he_ParentToolCallID = [],
          he_Payload = RawValue (JObj ([(''source'', JStr (TrimSpace source)), (''role'', JStr (firstNonEmpty [TrimSpace role, ''user''])),
            (''content'', JStr (TrimSpace content))] @ omitempty ''content_hash'' digest)), he_CreatedAt = 0\<rparr>)"

definition newModeMetadataEntry :: "int \<Rightarrow> string \<Rightarrow> AgentMode \<Rightarrow> bool \<Rightarrow> ModeSource \<Rightarrow> fwd_error + HistoryEntry" where
  "newModeMetadataEntry turnSeq requestID mode explicit source =
     (case modeAlias mode of
        Inl e \<Rightarrow> Inl e
      | Inr alias \<Rightarrow> Inr (newMetadataEntry turnSeq requestID ''mode''
          ((if explicit then [(''explicit'', JBool True)] else []) @ [(''mode'', JStr alias)] @
           (if TrimSpace (modeSourceText source) \<noteq> [] then [(''source'', JStr (TrimSpace (modeSourceText source)))] else []))))"

definition newModeChangePromptContextEntry :: "env \<Rightarrow> int \<Rightarrow> string \<Rightarrow> AgentMode \<Rightarrow> HistoryEntry" where
  "newModeChangePromptContextEntry env turnSeq requestID mode =
     (let alias = (case modeAlias mode of Inl _ \<Rightarrow> ''agent'' | Inr a \<Rightarrow> a)
      in newPromptContextEntry env turnSeq requestID ''mode_change'' ''user''
           (wrapSystemReminder (''At this point, the active mode changed to '' @ alias @
              ''; follow later mode reminders if present.'')))"

definition buildRunRequestMetadata :: "InboundIntent \<Rightarrow> (string \<times> json) list" where
  "buildRunRequestMetadata intent =
     [(''model_id'', JStr (in_ModelID intent)), (''model_name'', JStr (in_ModelName intent)), (''prewarm'', JBool (in_Prewarm intent))]"

definition user_entry :: "InboundIntent \<Rightarrow> int \<Rightarrow> string \<Rightarrow> raw_json \<Rightarrow> HistoryEntry" where
  "user_entry intent turnSeq kind payload =
     \<lparr>he_Seq = 0, he_TurnSeq = turnSeq, he_RequestID = in_RequestID intent, he_IdempotencyKey = [], he_Role = ''user'',
      he_Kind = kind, he_ToolCallID = [], he_ParentToolCallID = [], he_Payload = payload, he_CreatedAt = 0\<rparr>"

definition message_entries :: "run_env \<Rightarrow> InboundIntent \<Rightarrow> int \<Rightarrow> UserMessage \<Rightarrow> turn_error + HistoryEntry list" where
  "message_entries re intent turnSeq m =
     (let normalized = normalizeUserMessageForStorage m
      in case re_message re normalized of
           None \<Rightarrow> Inl (OtherError ''encode user message'')
         | Some payload \<Rightarrow>
             Inr (user_entry intent turnSeq ''user_message'' payload #
                  (case re_commands re normalized of
                     None \<Rightarrow> []
                   | Some (role, content) \<Rightarrow>
                       [newPromptContextEntry (re_env re) turnSeq (in_RequestID intent) ''selected_cursor_commands'' role content])))"

definition repeats_user_message :: "InboundIntent \<Rightarrow> UserMessage \<Rightarrow> bool" where
  "repeats_user_message intent m =
     (case in_UserMessage intent of
        None \<Rightarrow> False
      | Some u \<Rightarrow> TrimSpace (um_MessageId m) \<noteq> [] \<and> TrimSpace (um_MessageId m) = TrimSpace (um_MessageId u))"

definition context_entries :: "run_env \<Rightarrow> InboundIntent \<Rightarrow> int \<Rightarrow> turn_error + HistoryEntry list" where
  "context_entries re intent turnSeq =
     (case in_RequestContext intent of
        None \<Rightarrow> Inr []
      | Some c \<Rightarrow>
          (case re_context re c (turnSeq = 1) of
             None \<Rightarrow> Inr []
           | Some None \<Rightarrow> Inl (OtherError ''encode request context'')
           | Some (Some payload) \<Rightarrow> Inr [user_entry intent turnSeq ''request_context'' payload]))"

definition buildRunEntries :: "run_env \<Rightarrow> InboundIntent \<Rightarrow> AgentMode \<Rightarrow> int \<Rightarrow> turn_error + HistoryEntry list" where
  "buildRunEntries re intent effectiveMode turnSeq =
     (case context_entries re intent turnSeq of
        Inl e \<Rightarrow> Inl e
      | Inr context \<Rightarrow>
          (case collect (message_entries re intent turnSeq)
                  (filter (\<lambda>m. \<not> repeats_user_message intent m) (in_PrependUserMessages intent) @
                   (case in_UserMessage intent of None \<Rightarrow> [] | Some m \<Rightarrow> [m])) of
             Inl e \<Rightarrow> Inl e
           | Inr messages \<Rightarrow>
               (case newModeMetadataEntry turnSeq (in_RequestID intent) effectiveMode (in_HasExplicitMode intent) (in_ModeSource intent) of
                  Inl e \<Rightarrow> Inl (StreamError e)
                | Inr modeEntry \<Rightarrow>
                    Inr (context @ messages @
                      [modeEntry, newMetadataEntry turnSeq (in_RequestID intent) ''run_request'' (buildRunRequestMetadata intent)] @
                      (if in_HasExplicitMode intent
                       then [newModeChangePromptContextEntry (re_env re) turnSeq (in_RequestID intent) effectiveMode] else [])))))"

subsection \<open>The conversation of a run\<close>

definition newRuntimeConversation :: "string \<Rightarrow> AgentMode \<Rightarrow> gtime \<Rightarrow> fwd_error + ConversationFile" where
  "newRuntimeConversation conversationID mode now =
     (case modeAlias mode of
        Inl e \<Rightarrow> Inl e
      | Inr alias \<Rightarrow>
          Inr (zero_conversation\<lparr>cf_ConversationID := TrimSpace conversationID, cf_RootConversationID := TrimSpace conversationID,
            cf_Mode := alias, cf_CreatedAt := now, cf_UpdatedAt := now, cf_NextTurnSeq := 1, cf_NextEntrySeq := 1\<rparr>))"

text \<open>The settings of a loaded conversation a run fills in or overrides.\<close>

definition run_settings :: "run_env \<Rightarrow> InboundIntent \<Rightarrow> ConversationFile \<Rightarrow> fwd_error + ConversationFile" where
  "run_settings re intent c0 =
     (let window = (if 0 < in_RequestedContextTokens intent then in_RequestedContextTokens intent else re_window re (in_ModelID intent));
          c1 = (if TrimSpace (cf_ConversationID c0) = [] then c0\<lparr>cf_ConversationID := TrimSpace (in_ConversationID intent)\<rparr> else c0);
          c2 = (if TrimSpace (cf_RootConversationID c1) = [] then c1\<lparr>cf_RootConversationID := TrimSpace (cf_ConversationID c1)\<rparr> else c1);
          mode = (if in_HasExplicitMode intent \<or> TrimSpace (cf_Mode c2) = [] then modeAlias (in_Mode intent) else Inr (cf_Mode c2))
      in case mode of
           Inl e \<Rightarrow> Inl e
         | Inr alias \<Rightarrow>
             Inr (c2\<lparr>cf_Mode := alias,
                     cf_SubagentTypeName := (if TrimSpace (in_SubagentTypeName intent) \<noteq> [] then TrimSpace (in_SubagentTypeName intent)
                                             else cf_SubagentTypeName c2),
                     cf_TokenDetailsMaxTokens := (if 0 < window then window
                                                  else if cf_TokenDetailsMaxTokens c2 = 0 then of_int projectedConversationMaxTokens
                                                  else cf_TokenDetailsMaxTokens c2)\<rparr>))"

definition bootstrapRuntimeConversation ::
  "run_env \<Rightarrow> InboundIntent \<Rightarrow> gtime \<Rightarrow> world \<Rightarrow>
   world \<times> (turn_error + (ConversationFile \<times> AgentMode \<times> int \<times> HistoryEntry list))" where
  "bootstrapRuntimeConversation re intent now w =
     (case LoadConversation (re_dc re) (w_store w) (in_ConversationID intent) now of
        (st, Inl e) \<Rightarrow> (w\<lparr>w_store := st\<rparr>, Inl (StoreError e))
      | (st, Inr loaded) \<Rightarrow>
          (w\<lparr>w_store := st\<rparr>,
           case (case loaded of None \<Rightarrow> newRuntimeConversation (in_ConversationID intent) (in_Mode intent) now | Some c \<Rightarrow> Inr c) of
             Inl e \<Rightarrow> Inl (StreamError e)
           | Inr c \<Rightarrow>
               (case (if cf_Entries c = [] \<and> in_ClientTurns intent \<noteq> None then re_import re intent c else Inr (c, [])) of
                  Inl e \<Rightarrow> Inl e
                | Inr (c1, imported) \<Rightarrow>
                    (case run_settings re intent c1 of
                       Inl e \<Rightarrow> Inl (StreamError e)
                     | Inr c2 \<Rightarrow>
                         (let turnSeq = (if cf_NextTurnSeq c2 \<le> 0 then 1 else cf_NextTurnSeq c2)
                          in case parseModeAlias (cf_Mode c2) of
                               Inl e \<Rightarrow> Inl (StreamError e)
                             | Inr mode \<Rightarrow>
                                 (case buildRunEntries re intent mode turnSeq of
                                    Inl e \<Rightarrow> Inl e
                                  | Inr entries \<Rightarrow>
                                      Inr (c2\<lparr>cf_CurrentRequestID := TrimSpace (in_RequestID intent), cf_CurrentTurnSeq := turnSeq,
                                              cf_CurrentLoopID := loop_id turnSeq intent, cf_CurrentLoopStatus := ''running'',
                                              cf_NextTurnSeq := (if cf_NextTurnSeq c2 \<le> turnSeq then turnSeq + 1 else cf_NextTurnSeq c2)\<rparr>,
                                           mode, turnSeq, imported @ entries)))))))"

subsection \<open>Starting a run\<close>

text \<open>An active run of the same request loses its provider call, its timers and all it waits for.\<close>

definition supersedeActiveRunWithSameRequest :: "gtime \<Rightarrow> world \<Rightarrow> world" where
  "supersedeActiveRunWithSameRequest now w =
     (case stream w of
        None \<Rightarrow> w
      | Some s \<Rightarrow>
          (if \<not> (as_ProviderActive s \<or> as_PendingExecs s \<noteq> [] \<or> as_PendingInteractions s \<noteq> [] \<or> as_Phase s = TurnPhaseWaitingExternal)
           then w
           else on_stream (\<lambda>s. s\<lparr>as_ProviderCancel := None, as_ProviderActive := False,
                  as_CurrentProviderToken := as_CurrentProviderToken s + 1,
                  as_CurrentCompactionToken := as_CurrentCompactionToken s + 1,
                  as_PendingProviderAction := providerActionNone, as_PendingProviderCompletion := None,
                  as_PendingCompaction := False, as_PendingExecs := [], as_PendingInteractions := [], as_TimerTokens := [],
                  as_UpdatedAt := now\<rparr>) (cancel_provider w)))"

definition reset_for_run :: "gtime \<Rightarrow> ActiveStream \<Rightarrow> ActiveStream" where
  "reset_for_run now s =
     (clear_output s)\<lparr>as_PendingProviderAction := providerActionNone, as_PendingCompaction := False, as_PendingExecs := [],
       as_PendingInteractions := [], as_RecentCompletedExecs := [], as_TimerTokens := [],
       as_CurrentProviderToken := as_CurrentProviderToken s + 1, as_CurrentCompactionToken := as_CurrentCompactionToken s + 1,
       as_SyntheticThinkingStartedAt := 0, as_SyntheticThinkingPublished := False, as_FinishReason := [], as_Usage := zero_usage,
       as_ToolInvocationCount := 0, as_UpdatedAt := now\<rparr>"

definition open_stream :: "InboundIntent \<Rightarrow> int \<Rightarrow> AgentMode \<Rightarrow> gtime \<Rightarrow> world \<Rightarrow> turn_result" where
  "open_stream intent turnSeq mode now w =
     (case OpenStream (tn_broker (w_turn w)) (in_RequestID intent) (in_ConversationID intent) turnSeq (in_ModelID intent)
             (in_ModelName intent) mode (userMessageText (in_UserMessage intent)) now of
        Inl e \<Rightarrow> (w, Some (StreamError e))
      | Inr (None, _) \<Rightarrow> (w, Some (OtherError ''open stream failed''))
      | Inr (Some _, b) \<Rightarrow> (on_turn (\<lambda>t. t\<lparr>tn_broker := b\<rparr>) w, None))"

text \<open>What a run stores: the entries it replaces the history with, or those it appends.\<close>

definition store_run ::
  "run_env \<Rightarrow> InboundIntent \<Rightarrow> runRewindDecision \<Rightarrow> ConversationFile \<Rightarrow> int \<Rightarrow> HistoryEntry list \<Rightarrow> gtime \<Rightarrow> world \<Rightarrow>
   world \<times> (turn_error + ConversationFile)" where
  "store_run re intent d c turnSeq entries now w =
     (case (if rd_Apply d
            then ReplaceEntries (re_dc re) (next_io w) (w_store w) (in_ConversationID intent)
                   (appendReplacementRunEntries (rd_PrefixEntries d) entries)
                   (Some (\<lambda>item. Inr (applyRunRewindMetadata c intent turnSeq item))) now
            else SaveConversationWithEntries (re_dc re) (next_io w) (w_store w) (in_ConversationID intent) (Some c) entries now) of
        (st, Inl e) \<Rightarrow> (with_store st w, Inl (StoreError e))
      | (st, Inr persisted) \<Rightarrow> (with_store st w, Inr persisted))"

text \<open>From the stored conversation on: the stream is opened, reset and started.\<close>

definition start_run :: "run_env \<Rightarrow> InboundIntent \<Rightarrow> ConversationFile \<Rightarrow> int \<Rightarrow> AgentMode \<Rightarrow> gtime \<Rightarrow> world \<Rightarrow> turn_result" where
  "start_run re intent c turnSeq mode now w0 =
     and_then (open_stream intent turnSeq mode now w0)
     (\<lambda>w1. and_then (replaceCheckpointConversation w1 (Some c))
     (\<lambda>w2. case UpdateConversationMeta (re_dc re) (next_io w2) (w_store w2) (in_ConversationID intent)
                  (Some (\<lambda>item. Inr (item\<lparr>cf_MCPToolServers := re_servers re intent c\<rparr>))) now of
              (st, Inl e) \<Rightarrow> (with_store st w2, Some (StoreError e))
            | (st, Inr _) \<Rightarrow>
                and_then (publishCheckpoint (re_env re) now
                  (set_phase TurnPhaseIdle now (on_stream (reset_for_run now) (with_store st w2))))
                (\<lambda>w3. if in_Prewarm intent then (w3, None) else requestProviderAction (re_env re) providerActionStart now w3)))"

text \<open>The messages a run has to process and the entries for them; \<open>None\<close> when there is nothing to do.\<close>

definition run_work ::
  "run_env \<Rightarrow> InboundIntent \<Rightarrow> runRewindDecision \<Rightarrow> ConversationFile \<Rightarrow> AgentMode \<Rightarrow> int \<Rightarrow> HistoryEntry list \<Rightarrow>
   turn_error + (InboundIntent \<times> int \<times> HistoryEntry list) option" where
  "run_work re intent d c mode turnSeq initialEntries =
     (if rd_Apply d
      then (case buildRunEntries re intent mode (rd_TargetTurnSeq d) of
              Inl e \<Rightarrow> Inl e | Inr entries \<Rightarrow> Inr (Some (intent, rd_TargetTurnSeq d, entries)))
      else if in_Prewarm intent \<or> mc_Requested (in_ManualCompaction intent) then Inr (Some (intent, turnSeq, initialEntries))
      else let (targetUser, remaining, hasNewWork) = filterUnprocessedUserMessages (re_dc re) intent c
           in if \<not> hasNewWork then Inr None
              else if targetUser = in_UserMessage intent \<and> length remaining = length (in_PrependUserMessages intent)
              then Inr (Some (intent, turnSeq, initialEntries))
              else let intent1 = intent\<lparr>in_UserMessage := targetUser, in_PrependUserMessages := remaining\<rparr>
                   in case buildRunEntries re intent1 mode turnSeq of
                        Inl e \<Rightarrow> Inl e | Inr entries \<Rightarrow> Inr (Some (intent1, turnSeq, entries)))"

definition handleRunIntent :: "run_env \<Rightarrow> InboundIntent \<Rightarrow> gtime \<Rightarrow> world \<Rightarrow> turn_result" where
  "handleRunIntent re intent0 now w0 =
     (let intent = intent0\<lparr>in_UserMessage := map_option normalizeUserMessageForStorage (in_UserMessage intent0)\<rparr>;
          w1 = (if in_Prewarm intent then w0 else re_cancel_others re w0)
      in case bootstrapRuntimeConversation re intent now w1 of
           (w2, Inl e) \<Rightarrow> (w2, Some e)
         | (w2, Inr (c0, mode, turnSeq, initialEntries)) \<Rightarrow>
             (let w3 = supersedeActiveRunWithSameRequest now w2;
                  c = (if in_RequestContext intent \<noteq> None \<and> normalizeAgentTranscriptsFolder (in_TranscriptsFolder intent) \<noteq> []
                       then c0\<lparr>cf_AgentTranscriptsFolder := normalizeAgentTranscriptsFolder (in_TranscriptsFolder intent)\<rparr> else c0);
                  d = decideRunRewind (re_dc re) intent c
              in case run_work re intent d c mode turnSeq initialEntries of
                   Inl e \<Rightarrow> (w3, Some e)
                 | Inr None \<Rightarrow> (w3, None)
                 | Inr (Some (intent1, turnSeq1, entries)) \<Rightarrow>
                     (case store_run re intent1 d c turnSeq1 entries now w3 of
                        (w4, Inl e) \<Rightarrow> (w4, Some e)
                      | (w4, Inr persisted) \<Rightarrow> start_run re intent1 persisted turnSeq1 mode now w4)))"

text \<open>
  A run that comes in: the stream is opened first (\<open>streamForIntent\<close>), with no turn yet, and the run is
  handled on its actor.
\<close>

definition dispatch_run :: "run_env \<Rightarrow> InboundIntent \<Rightarrow> gtime \<Rightarrow> world \<Rightarrow> turn_result" where
  "dispatch_run re intent now w = and_then (open_stream intent 0 (in_Mode intent) now w) (handleRunIntent re intent now)"

subsection \<open>A run with nothing to do\<close>

lemma collect_ok: "(\<And>x. x \<in> set xs \<Longrightarrow> \<exists>ys. f x = Inr ys) \<Longrightarrow> \<exists>ys. collect f xs = Inr ys"
  by (induction xs) (auto, metis sum.simps(6))

lemma parse_alias: "parseModeAlias a = Inr m \<Longrightarrow> \<exists>b. modeAlias m = Inr b"
  by (auto simp: parseModeAlias_def modeAlias_def normalizeMode_def Let_def split: if_splits)

lemma buildRunEntries_ok:
  assumes "\<forall>m. re_message re m \<noteq> None" "in_RequestContext intent = None" "parseModeAlias a = Inr mode"
  shows "\<exists>es. buildRunEntries re intent mode n = Inr es"
proof -
  have one: "\<exists>ys. message_entries re intent n m = Inr ys" for m
  proof -
    obtain p where "re_message re (normalizeUserMessageForStorage m) = Some p" using assms(1) by blast
    then show ?thesis by (simp add: message_entries_def)
  qed
  have "\<exists>ys. collect (message_entries re intent n) ms = Inr ys" for ms by (rule collect_ok) (rule one)
  then obtain ys where "collect (message_entries re intent n)
      (filter (\<lambda>m. \<not> repeats_user_message intent m) (in_PrependUserMessages intent) @
       (case in_UserMessage intent of None \<Rightarrow> [] | Some m \<Rightarrow> [m])) = Inr ys"
    by blast
  moreover obtain b where "modeAlias mode = Inr b" using parse_alias [OF assms(3)] by blast
  ultimately show ?thesis using assms(2) by (simp add: buildRunEntries_def context_entries_def newModeMetadataEntry_def)
qed

lemma run_settings_plain:
  assumes "\<not> in_HasExplicitMode intent" "TrimSpace (cf_Mode c) \<noteq> []"
  shows "\<exists>c1. run_settings re intent c = Inr c1 \<and> cf_Entries c1 = cf_Entries c \<and> cf_Mode c1 = cf_Mode c \<and>
    cf_NextTurnSeq c1 = cf_NextTurnSeq c"
  using assms by (simp add: run_settings_def Let_def)

lemma decide_same_entries:
  "cf_Entries c' = cf_Entries c \<Longrightarrow> rd_Apply (decideRunRewind dc intent c') = rd_Apply (decideRunRewind dc intent c)"
  by (auto simp: decideRunRewind_def Let_def no_rewind_def split: option.split prod.splits)

lemma filter_same_entries:
  "cf_Entries c' = cf_Entries c \<Longrightarrow> filterUnprocessedUserMessages dc intent c' = filterUnprocessedUserMessages dc intent c"
  by (simp add: filterUnprocessedUserMessages_def)

abbreviation run_messages :: "InboundIntent \<Rightarrow> UserMessage list" where
  "run_messages intent \<equiv> in_PrependUserMessages intent @ (case in_UserMessage intent of None \<Rightarrow> [] | Some m \<Rightarrow> [m])"

abbreviation stored_intent :: "InboundIntent \<Rightarrow> InboundIntent" where
  "stored_intent intent \<equiv> intent\<lparr>in_UserMessage := map_option normalizeUserMessageForStorage (in_UserMessage intent)\<rparr>"

lemma nothing_new:
  assumes "\<forall>m \<in> set (run_messages intent). \<not> is_new_message (existingMessageIDs dc (cf_Entries c)) m"
  shows "\<not> snd (snd (filterUnprocessedUserMessages dc (stored_intent intent) c))"
proof -
  have "\<forall>m \<in> set (run_messages (stored_intent intent)). \<not> is_new_message (existingMessageIDs dc (cf_Entries c)) m"
    using assms by (auto simp: is_new_message_def split: option.splits)
  then have "filter (is_new_message (existingMessageIDs dc (cf_Entries c))) (run_messages (stored_intent intent)) = []"
    by (meson filter_False)
  then show ?thesis
    using unprocessed_messages_are_run [of dc "stored_intent intent" c] by (auto simp: Let_def split: prod.splits)
qed

text \<open>Everything a run with nothing to do leaves behind: it has superseded the active run of its request.\<close>

lemma run_without_work:
  assumes load: "LoadConversation (re_dc re) (w_store (re_cancel_others re w)) (in_ConversationID intent) now = (st, Inr (Some c))"
    and "cf_Entries c \<noteq> []" "parseModeAlias (cf_Mode c) = Inr mode" "TrimSpace (cf_Mode c) \<noteq> []"
    and encodes: "\<forall>m. re_message re m \<noteq> None"
    and plain: "\<not> in_HasExplicitMode intent" "\<not> in_Prewarm intent" "\<not> mc_Requested (in_ManualCompaction intent)"
      "in_RequestContext intent = None"
    and stale: "\<forall>m \<in> set (run_messages intent). \<not> is_new_message (existingMessageIDs (re_dc re) (cf_Entries c)) m"
      "\<not> rd_Apply (decideRunRewind (re_dc re) (stored_intent intent) c)"
  shows "handleRunIntent re intent now w =
    (supersedeActiveRunWithSameRequest now ((re_cancel_others re w)\<lparr>w_store := st\<rparr>), None)"
proof -
  let ?i = "stored_intent intent"
  obtain c1 where c1: "run_settings re ?i c = Inr c1" "cf_Entries c1 = cf_Entries c" "cf_Mode c1 = cf_Mode c" "cf_NextTurnSeq c1 = cf_NextTurnSeq c"
    using run_settings_plain [of ?i c re] plain(1) assms(4) by auto
  let ?n = "if cf_NextTurnSeq c1 \<le> 0 then 1 else cf_NextTurnSeq c1"
  obtain es where es: "buildRunEntries re ?i mode ?n = Inr es"
    using buildRunEntries_ok [OF encodes _ assms(3), of ?i ?n] plain by auto
  obtain c2 where boot: "bootstrapRuntimeConversation re ?i now (re_cancel_others re w) =
      ((re_cancel_others re w)\<lparr>w_store := st\<rparr>, Inr (c2, mode, ?n, es))" and c2: "cf_Entries c2 = cf_Entries c"
    using load assms(2,3) c1 es by (simp add: bootstrapRuntimeConversation_def Let_def)
  have "\<not> rd_Apply (decideRunRewind (re_dc re) ?i c2)" using stale(2) decide_same_entries [OF c2] by simp
  moreover have "\<not> snd (snd (filterUnprocessedUserMessages (re_dc re) ?i c2))"
    using nothing_new [OF stale(1)] filter_same_entries [OF c2] by simp
  ultimately have "run_work re ?i (decideRunRewind (re_dc re) ?i c2) c2 mode ?n es = Inr None"
    using plain by (auto simp: run_work_def split: prod.splits)
  with boot plain show ?thesis by (simp add: handleRunIntent_def Let_def)
qed

text \<open>The cancellation of other streams does not touch the stream of the run.\<close>

definition cancels_only_others :: "run_env \<Rightarrow> bool" where
  "cancels_only_others re \<longleftrightarrow> (\<forall>w. stream (re_cancel_others re w) = stream w \<and> request (re_cancel_others re w) = request w \<and>
     tn_timers (w_turn (re_cancel_others re w)) = tn_timers (w_turn w))"

lemma open_stream_existing:
  assumes "stream w = Some s" "request w = TrimSpace (in_RequestID intent)" "TrimSpace (in_RequestID intent) \<noteq> []"
    "validateSupportedActiveMode mode = Inr m"
  shows "\<exists>w1. open_stream intent n mode now w = (w1, None) \<and> request w1 = request w \<and> tn_timers (w_turn w1) = tn_timers (w_turn w) \<and>
    w_store w1 = w_store w \<and> w_conversation w1 = w_conversation w \<and>
    stream w1 = Some (reopen_stream (in_ConversationID intent) n (in_ModelID intent) (in_ModelName intent) m
      (userMessageText (in_UserMessage intent)) now s)"
  using assms by (auto simp: open_stream_def OpenStream_def Let_def on_turn_def stream_of_def Get_def put_stream_def
      TrimSpace_idem update_conv' split: if_splits option.splits)

text \<open>
  A turn that is stuck: it has not ended, and nothing is left that would move it on, no provider call, nothing
  it waits for, no decision to carry out and no timer that would be heard.
\<close>

definition stranded :: "turn \<Rightarrow> bool" where
  "stranded t =
     (case stream_of t of
        None \<Rightarrow> False
      | Some s \<Rightarrow> \<not> isTerminalStreamStatus (as_Status s) \<and> \<not> as_ProviderActive s \<and> pendingBridgeCount s = 0 \<and>
          \<not> as_PendingCompaction s \<and> as_PendingProviderAction s = providerActionNone \<and> as_PendingProviderCompletion s = None \<and>
          list_all (\<lambda>e. \<not> timerEventMatches t e) (tn_timers t))"

lemma cancel_provider_frame [simp]:
  "stream (cancel_provider w) = stream w" "request (cancel_provider w) = request w"
  "tn_timers (w_turn (cancel_provider w)) = tn_timers (w_turn w)"
  by (auto simp: cancel_provider_def on_turn_def stream_of_def Get_def split: option.split)

lemma stream_on_stream: "stream (on_stream f w) = map_option f (stream w)"
  by (auto simp: on_turn_def stream_of_upd)

lemma open_stream_store: "w_store (fst (open_stream intent n mode now w)) = w_store w"
  by (auto simp: open_stream_def on_turn_def split: sum.split option.split)

lemma supersede_strands:
  assumes "stream w = Some s" "as_ProviderActive s" "\<not> isTerminalStreamStatus (as_Status s)"
    and "\<forall>e \<in> set (tn_timers (w_turn w)). te_Token e \<noteq> 0"
  shows "stranded (w_turn (supersedeActiveRunWithSameRequest now w)) \<and>
    \<not> providerTokenMatches (supersedeActiveRunWithSameRequest now w) (as_CurrentProviderToken s)"
proof -
  let ?w = "supersedeActiveRunWithSameRequest now w"
  have w: "\<exists>s'. stream ?w = Some s' \<and> as_Status s' = as_Status s \<and> \<not> as_ProviderActive s' \<and> as_PendingExecs s' = [] \<and>
      as_PendingInteractions s' = [] \<and> \<not> as_PendingCompaction s' \<and> as_PendingProviderAction s' = providerActionNone \<and>
      as_PendingProviderCompletion s' = None \<and> as_TimerTokens s' = [] \<and> as_CurrentProviderToken s' = as_CurrentProviderToken s + 1"
    using assms(1,2) by (simp add: supersedeActiveRunWithSameRequest_def stream_on_stream)
  then obtain s' where s': "stream ?w = Some s'" "as_Status s' = as_Status s" "\<not> as_ProviderActive s'" "as_PendingExecs s' = []"
    "as_PendingInteractions s' = []" "\<not> as_PendingCompaction s'" "as_PendingProviderAction s' = providerActionNone"
    "as_PendingProviderCompletion s' = None" "as_TimerTokens s' = []" "as_CurrentProviderToken s' = as_CurrentProviderToken s + 1"
    by blast
  have "tn_timers (w_turn ?w) = tn_timers (w_turn w)"
    using assms(1,2) by (simp add: supersedeActiveRunWithSameRequest_def on_turn_def upd_frame)
  with assms(4) s' have "list_all (\<lambda>e. \<not> timerEventMatches (w_turn ?w) e) (tn_timers (w_turn ?w))"
    by (auto simp: timerEventMatches_def timer_token_def list_all_iff)
  then show ?thesis using s' assms(3) by (simp add: stranded_def pendingBridgeCount_def providerTokenMatches_def)
qed

text \<open>
  C34. A run that repeats messages of the history strands the turn that is running. When the messages of a run
  are all in the history and it is no rewind (or it has none, as when it resumes), nothing is started and no
  error reported; but by then the active run of the same request has been superseded: its provider call is
  canceled and its events are no longer heard, while the stream has not ended and nothing is left that would
  move it on.
\<close>
theorem repeated_run_strands_turn:
  assumes live: "stream w = Some s" "request w = TrimSpace (in_RequestID intent)" "request w \<noteq> []"
      "as_ProviderActive s" "as_Status s = StreamStatusStreaming" "\<forall>e \<in> set (tn_timers (w_turn w)). te_Token e \<noteq> 0"
    and others: "cancels_only_others re" and encodes: "\<forall>m. re_message re m \<noteq> None"
    and mode: "validateSupportedActiveMode (in_Mode intent) = Inr m"
    and plain: "\<not> in_HasExplicitMode intent" "\<not> in_Prewarm intent" "\<not> mc_Requested (in_ManualCompaction intent)"
      "in_RequestContext intent = None"
    and load: "LoadConversation (re_dc re) (w_store (re_cancel_others re (fst (open_stream intent 0 (in_Mode intent) now w))))
        (in_ConversationID intent) now = (st, Inr (Some c))"
      "cf_Entries c \<noteq> []" "parseModeAlias (cf_Mode c) = Inr mode" "TrimSpace (cf_Mode c) \<noteq> []"
    and stale: "\<forall>m \<in> set (run_messages intent). \<not> is_new_message (existingMessageIDs (re_dc re) (cf_Entries c)) m"
      "\<not> rd_Apply (decideRunRewind (re_dc re) (stored_intent intent) c)"
  shows "\<exists>w'. dispatch_run re intent now w = (w', None) \<and> stranded (w_turn w') \<and>
    \<not> providerTokenMatches w' (as_CurrentProviderToken s)"
proof -
  obtain w1 where w1: "open_stream intent 0 (in_Mode intent) now w = (w1, None)"
    and same: "tn_timers (w_turn w1) = tn_timers (w_turn w)"
    and reopened: "stream w1 = Some (reopen_stream (in_ConversationID intent) 0 (in_ModelID intent) (in_ModelName intent) m
      (userMessageText (in_UserMessage intent)) now s)"
    using open_stream_existing [OF live(1,2) _ mode] live(2,3) by metis
  let ?w2 = "(re_cancel_others re w1)\<lparr>w_store := st\<rparr>"
  have "handleRunIntent re intent now w1 = (supersedeActiveRunWithSameRequest now ?w2, None)"
    using load w1 by (intro run_without_work [OF _ load(2-4) encodes plain stale]) simp
  then have "dispatch_run re intent now w = (supersedeActiveRunWithSameRequest now ?w2, None)"
    by (simp add: dispatch_run_def w1 and_then_def)
  moreover have "stream ?w2 = stream w1" "tn_timers (w_turn ?w2) = tn_timers (w_turn w1)"
    using others by (simp_all add: cancels_only_others_def)
  ultimately show ?thesis
    using supersede_strands [of ?w2 _ now] reopened live same by (simp add: reopen_stream_def)
qed

text \<open>The last message of a history of one turn is sent again while its turn is running.\<close>

definition demo_run_env :: run_env where
  "demo_run_env = \<lparr>re_env = demo_env\<lparr>en_dc := demo_ids\<rparr>, re_cancel_others = (\<lambda>w. w), re_window = (\<lambda>_. 1000),
     re_import = (\<lambda>_ c. Inr (c, [])), re_message = (\<lambda>m. Some (RawValue (JObj [(''messageId'', JStr (um_MessageId m))]))), re_context = (\<lambda>_ _. None),
     re_commands = (\<lambda>_. None), re_servers = (\<lambda>_ _. [])\<rparr>"

definition demo_stored :: ConversationFileStore where
  "demo_stored = NewConversationFileStore\<lparr>fs_files := (\<lambda>_.
     \<lparr>dk_state = FileWith ((new_conversation ''c'' 1)\<lparr>cf_Mode := ''agent'', cf_NextTurnSeq := 2, cf_NextEntrySeq := 2\<rparr>),
      dk_jsonl = Some (fresh_lines [demo_turn_entry 1 ''a'']), dk_legacy = NoFile\<rparr>)\<rparr>"

definition demo_repeated :: world where
  "demo_repeated = demo_running\<lparr>w_store := demo_stored\<rparr>"

lemma demo_loaded:
  "case LoadConversation demo_ids demo_stored ''c'' 9 of
     (st, Inr (Some c)) \<Rightarrow> cf_Entries c = [demo_turn_entry 1 ''a''] \<and> cf_Mode c = ''agent'' \<and>
       \<not> rd_Apply (decideRunRewind demo_ids (stored_intent (demo_intent (Some 1) ''a'')) c)
   | _ \<Rightarrow> False"
  by code_simp

theorem repeated_run_strands_turn_witness:
  "\<exists>w'. dispatch_run demo_run_env (demo_intent (Some 1) ''a'') 9 demo_repeated = (w', None) \<and> stranded (w_turn w') \<and>
    \<not> providerTokenMatches w' 1"
proof -
  obtain st c where load: "LoadConversation demo_ids demo_stored ''c'' 9 = (st, Inr (Some c))"
    "cf_Entries c = [demo_turn_entry 1 ''a'']" "cf_Mode c = ''agent''"
    "\<not> rd_Apply (decideRunRewind demo_ids (stored_intent (demo_intent (Some 1) ''a'')) c)"
    using demo_loaded by (auto split: prod.splits sum.splits option.splits)
  have stream: "stream demo_repeated = Some ((fresh_stream ''r'' ''c'' 1 ''m'' ''m'' AGENT_MODE_AGENT ''hi'' 0)
     \<lparr>as_ProviderActive := True, as_CurrentProviderToken := 1, as_ToolInvocationCount := 1,
      as_AccumulatedText := ''hello'', as_Status := StreamStatusStreaming\<rparr>)" (is "_ = Some ?s")
    using demo_running_stream by (simp add: demo_repeated_def)
  have turn: "request demo_repeated = ''r''" "tn_timers (w_turn demo_repeated) = []"
    by (simp_all add: demo_repeated_def demo_running_def demo_turn_def upd_frame)
  have mode: "validateSupportedActiveMode (in_Mode (demo_intent (Some 1) ''a'')) = Inr 1" by code_simp
  have parsed: "parseModeAlias ''agent'' = Inr 1" "TrimSpace ''agent'' = ''agent''" by code_simp+
  have stale: "\<forall>m \<in> set (run_messages (demo_intent (Some 1) ''a'')). \<not> is_new_message (existingMessageIDs demo_ids [demo_turn_entry 1 ''a'']) m"
    by code_simp
  have opened: "w_store (fst (open_stream (demo_intent (Some 1) ''a'') 0 (in_Mode (demo_intent (Some 1) ''a'')) 9 demo_repeated)) = demo_stored"
    by (simp add: open_stream_store demo_repeated_def)
  have "re_dc demo_run_env = demo_ids" "cancels_only_others demo_run_env" "\<forall>m. re_message demo_run_env m \<noteq> None"
    by (simp_all add: demo_run_env_def cancels_only_others_def)
  then have "\<exists>w'. dispatch_run demo_run_env (demo_intent (Some 1) ''a'') 9 demo_repeated = (w', None) \<and> stranded (w_turn w') \<and>
      \<not> providerTokenMatches w' (as_CurrentProviderToken ?s)"
    using load opened parsed stale
    by (intro repeated_run_strands_turn [OF stream _ _ _ _ _ _ _ mode, where st = st and c = c and mode = 1])
      (simp_all add: turn demo_intent_def demo_run_env_def)
  then show ?thesis by simp
qed

subsection \<open>What a run has stored\<close>

lemma assign_keeps:
  "e \<in> set es \<Longrightarrow> TrimSpace (he_IdempotencyKey e) = [] \<Longrightarrow>
     \<exists>e' \<in> set (fst (assign_entries now keys n t es)). he_Kind e' = he_Kind e \<and> he_Payload e' = he_Payload e"
proof (induction es arbitrary: keys n t)
  case (Cons x xs)
  show ?case
  proof (cases "e = x")
    case True
    with Cons.prems(2) show ?thesis by (auto simp: Let_def split: prod.splits)
  next
    case False
    with Cons have IH: "\<exists>e' \<in> set (fst (assign_entries now keys n t xs)). he_Kind e' = he_Kind e \<and> he_Payload e' = he_Payload e" for keys n t
      by auto
    show ?thesis
    proof (cases "TrimSpace (he_IdempotencyKey x) \<noteq> [] \<and> TrimSpace (he_IdempotencyKey x) \<in> set keys")
      case True
      then show ?thesis using IH by (simp add: Let_def)
    next
      case False
      let ?e1 = "if IsZero (he_CreatedAt x) then x\<lparr>he_CreatedAt := now\<rparr> else x"
      let ?p = "if he_Seq ?e1 \<le> 0 then (?e1\<lparr>he_Seq := n\<rparr>, n + 1) else if n \<le> he_Seq ?e1 then (?e1, he_Seq ?e1 + 1) else (?e1, n)"
      let ?ks = "if TrimSpace (he_IdempotencyKey x) \<noteq> [] then TrimSpace (he_IdempotencyKey x) # keys else keys"
      have "fst (assign_entries now keys n t (x # xs)) =
          fst ?p # fst (assign_entries now ?ks (snd ?p) (max t (he_TurnSeq (fst ?p))) xs)"
        using False by (auto simp: Let_def split_beta)
      then show ?thesis using IH [of ?ks "snd ?p" "max t (he_TurnSeq (fst ?p))"] by (metis list.set_intros(2))
    qed
  qed
qed simp

lemma append_keeps:
  assumes "e \<in> set es" "TrimSpace (he_IdempotencyKey e) = []"
  shows "\<exists>e' \<in> set (cf_Entries (fst (appendEntriesInPlace c (resetEntrySequences es) now))). he_Kind e' = he_Kind e \<and> he_Payload e' = he_Payload e"
proof -
  obtain r where r: "r \<in> set (resetEntrySequences es)" "he_Kind r = he_Kind e" "he_Payload r = he_Payload e"
    "TrimSpace (he_IdempotencyKey r) = []"
    using assms that [of "e\<lparr>he_Seq := 0\<rparr>"] by (auto simp: resetEntrySequences_def)
  from assign_keeps [OF r(1,4)] obtain e' where "e' \<in> set (fst (assign_entries now (entry_keys (cf_Entries c)) (cf_NextEntrySeq c) (cf_NextTurnSeq c - 1) (resetEntrySequences es)))"
    "he_Kind e' = he_Kind e" "he_Payload e' = he_Payload e" using r(2,3) by metis
  then show ?thesis using r(1) by (intro bexI [of _ e']) (auto simp: appendEntriesInPlace_def Let_def split: prod.splits)
qed

lemma rewind_metadata_entries [simp]: "cf_Entries (applyRunRewindMetadata s intent n c) = cf_Entries c"
  by (simp add: applyRunRewindMetadata_def applyRunRewindConversationState_def clearConversationAutoCompactionState_def)

lemma merge_entries [simp]: "cf_Entries (mergeConversationMetadata c s) = cf_Entries c"
  by (simp add: mergeConversationMetadata_def)

lemma store_run_ok:
  assumes ok: "history_ok (w_store w)" and cid: "validateConversationID (in_ConversationID intent) = Inr cid"
    and run: "store_run re intent d c n es now w = (w', Inr p)"
  shows "history_ok (w_store w') \<and> same_entries (cf_Entries p) (disk_entries (fs_files (w_store w') cid)) \<and>
    (\<exists>m. dk_state (fs_files (w_store w') cid) = FileWith m) \<and> dk_jsonl (fs_files (w_store w') cid) \<noteq> None \<and>
    (\<forall>e \<in> set es. TrimSpace (he_IdempotencyKey e) = [] \<longrightarrow>
       (\<exists>e' \<in> set (cf_Entries p). he_Kind e' = he_Kind e \<and> he_Payload e' = he_Payload e))"
proof -
  obtain st1 loaded where rd: "readConversationLocked (re_dc re) (w_store w) cid now = (st1, Inr loaded)"
    using run cid by (auto simp: store_run_def ReplaceEntries_def SaveConversationWithEntries_def split: if_splits prod.splits sum.splits)
  have st1: "history_ok st1" using readConversation_ok [OF ok rd] by blast
  let ?new = "if rd_Apply d then rd_PrefixEntries d @ es else es"
  obtain c0 c1 where wr: "writeConversationLocked (re_dc re) (next_io w) st1 cid (deriveConversationLoopState c1) now = (w_store w', Inr p)"
    and c1: "cf_Entries c1 = cf_Entries (fst (appendEntriesInPlace c0 (resetEntrySequences ?new) now))"
  proof (cases "rd_Apply d")
    case True
    with run cid rd that show ?thesis
      by (auto simp: store_run_def ReplaceEntries_def appendReplacementRunEntries_def Let_def with_store_def split: prod.splits sum.splits)
  next
    case False
    with run cid rd that show ?thesis
      by (auto simp: store_run_def SaveConversationWithEntries_def Let_def with_store_def split: prod.splits sum.splits)
  qed
  from writeConversation_ok [OF st1 wr] have w: "history_ok (w_store w')" "cf_Entries p = cf_Entries c1"
    "same_entries (cf_Entries c1) (disk_entries (fs_files (w_store w') cid))"
    "\<exists>m. dk_state (fs_files (w_store w') cid) = FileWith m" "dk_jsonl (fs_files (w_store w') cid) \<noteq> None" by auto
  moreover have "\<exists>e' \<in> set (cf_Entries p). he_Kind e' = he_Kind e \<and> he_Payload e' = he_Payload e"
    if "e \<in> set es" "TrimSpace (he_IdempotencyKey e) = []" for e
    using append_keeps [of e ?new c0 now] that c1 w(2) by auto
  ultimately show ?thesis by simp
qed

text \<open>What is relied on of the JSON form of a message: it is JSON and its id can be read from it.\<close>

definition message_codec_ok :: "run_env \<Rightarrow> bool" where
  "message_codec_ok re \<longleftrightarrow>
     (\<forall>m p. re_message re m = Some p \<longrightarrow> (\<exists>ms. p = RawValue (JObj ms)) \<and> dc_message_id (re_dc re) p = Some (um_MessageId m))"

lemma collect_mem: "collect f xs = Inr ys \<Longrightarrow> x \<in> set xs \<Longrightarrow> \<exists>zs. f x = Inr zs \<and> set zs \<subseteq> set ys"
  by (induction xs arbitrary: ys) (fastforce split: sum.splits)+

lemma built_entry:
  assumes "buildRunEntries re intent mode n = Inr es" "m \<in> set (run_messages intent)" "message_codec_ok re"
    "TrimSpace (um_MessageId m) \<noteq> []"
  shows "\<exists>e \<in> set es. TrimSpace (he_IdempotencyKey e) = [] \<and> user_message_id (re_dc re) e = Some (TrimSpace (um_MessageId m)) \<and>
    (\<exists>ms. he_Payload e = RawValue (JObj ms))"
proof -
  let ?ms = "filter (\<lambda>m. \<not> repeats_user_message intent m) (in_PrependUserMessages intent) @
    (case in_UserMessage intent of None \<Rightarrow> [] | Some m \<Rightarrow> [m])"
  obtain ys where ys: "collect (message_entries re intent n) ?ms = Inr ys" "set ys \<subseteq> set es"
    using assms(1) that by (fastforce simp: buildRunEntries_def split: sum.splits)
  obtain k where k: "k \<in> set ?ms" "TrimSpace (um_MessageId k) = TrimSpace (um_MessageId m)"
  proof (cases "m \<in> set ?ms")
    case False
    with assms(2) have "repeats_user_message intent m" by auto
    then show ?thesis using that by (auto simp: repeats_user_message_def split: option.splits)
  qed (use that in blast)
  from collect_mem [OF ys(1) k(1)] obtain zs where zs: "message_entries re intent n k = Inr zs" "set zs \<subseteq> set es"
    using ys(2) by blast
  then obtain p where p: "re_message re (normalizeUserMessageForStorage k) = Some p" "user_entry intent n ''user_message'' p \<in> set es"
    by (auto simp: message_entries_def Let_def split: option.splits)
  obtain v where v: "p = RawValue (JObj v)" "dc_message_id (re_dc re) p = Some (um_MessageId k)"
    using assms(3) p(1) unfolding message_codec_ok_def by (metis normalized_id)
  have "TrimSpace ''user_message'' = ''user_message''" by code_simp
  then have "user_message_id (re_dc re) (user_entry intent n ''user_message'' p) = Some (TrimSpace (um_MessageId m))"
    using v k(2) by (simp add: user_message_id_def user_entry_def)
  moreover have "TrimSpace (he_IdempotencyKey (user_entry intent n ''user_message'' p)) = []" by (simp add: user_entry_def)
  moreover have "he_Payload (user_entry intent n ''user_message'' p) = RawValue (JObj v)" using v(1) by (simp add: user_entry_def)
  ultimately show ?thesis using p(2) by blast
qed

lemma same_entries_object:
  assumes "same_entries xs ys" "e \<in> set ys" "he_Payload e = RawValue (JObj ms)"
  shows "e \<in> set xs"
proof -
  have "stored e = e" using assms(3) by (simp add: stored_def)
  then obtain e' where e': "e' \<in> set xs" "stored e' = e" using assms(1,2) by (metis (no_types, lifting) image_iff image_set)
  then have "e' = e" using assms(3) by (auto simp: stored_def split: if_splits)
  with e'(1) show ?thesis by simp
qed

lemma existing_id:
  "e \<in> set es \<Longrightarrow> user_message_id dc e = Some i \<Longrightarrow> i \<noteq> [] \<Longrightarrow> i \<in> set (existingMessageIDs dc es)"
  by (force simp: existingMessageIDs_def List.map_filter_def)


definition demo_run_entries :: "HistoryEntry list" where
  "demo_run_entries = [user_entry (demo_intent None ''b'') 2 ''user_message'' (RawValue (JObj [(''messageId'', JStr ''b'')])),
     newMetadataEntry 2 ''r'' ''mode'' [(''mode'', JStr ''agent'')],
     newMetadataEntry 2 ''r'' ''run_request'' (buildRunRequestMetadata (demo_intent None ''b''))]"

lemma demo_run_built: "buildRunEntries demo_run_env (demo_intent None ''b'') 1 2 = Inr demo_run_entries"
proof -
  have "modeAlias 1 = Inr ''agent''" by code_simp
  moreover have "TrimSpace [] = []" by code_simp
  ultimately show ?thesis
    by (simp add: buildRunEntries_def context_entries_def demo_intent_def demo_run_env_def message_entries_def
        newModeMetadataEntry_def demo_run_entries_def demo_message_def Let_def)
qed

text \<open>Entries that are no tool results and no runtime state can always be stored when the disk works.\<close>

definition plain_entry :: "HistoryEntry \<Rightarrow> bool" where
  "plain_entry e \<longleftrightarrow> TrimSpace (he_Kind e) \<notin> {''runtime_state'', ''tool_result''} \<and> encodable e"

lemma plain_projection: "list_all plain_entry es \<Longrightarrow> project_entries dc now st es = Inr st"
  by (induction es arbitrary: st) (auto simp: plain_entry_def project_entry_def)

lemma assign_plain: "list_all plain_entry es \<Longrightarrow> list_all plain_entry (fst (assign_entries now keys n t es))"
  by (induction es arbitrary: keys n t) (auto simp: Let_def plain_entry_def encodable_def split_beta)

lemma meta_plain:
  assumes "list_all plain_entry (cf_Entries c)"
  shows "\<exists>m. meta_conversation dc cid now c = Inr m"
proof -
  have "list_all plain_entry (checkpointProjectionEntries (cf_Entries c))"
    using assms by (auto simp: checkpointProjectionEntries_def list_all_iff sanitize_eq_filter)
  then have "\<exists>m. refreshConversationRuntimeState dc now d = Inr m" if "cf_Entries d = cf_Entries c" for d
    by (simp add: refreshConversationRuntimeState_def projectConversationStructuredState_def that plain_projection)
  then show ?thesis by (simp add: meta_conversation_def Let_def)
qed

lemma save_plain_entries:
  assumes "validateConversationID cid0 = Inr cid" "readConversationLocked dc st cid now = (st1, Inr None)"
    and "io_context io = WriteOk" "io_state io = WriteOk" "list_all plain_entry es" "es \<noteq> []"
  shows "\<exists>st' p. SaveConversationWithEntries dc io st cid0 (Some s) es now = (st', Inr p)"
proof -
  let ?c1 = "mergeConversationMetadata (new_conversation cid now) s"
  let ?c2 = "deriveConversationLoopState (fst (appendEntriesInPlace ?c1 (resetEntrySequences es) now))"
  let ?n = "normalizeLoadedConversation dc cid now ?c2"
  have "cf_Entries ?c1 = []" by (simp add: new_conversation_def zero_conversation_def)
  moreover have "list_all plain_entry (resetEntrySequences es)"
    using assms(5) by (simp add: resetEntrySequences_def list_all_iff plain_entry_def encodable_def)
  ultimately have plain: "list_all plain_entry (cf_Entries ?c2)"
    using assign_plain by (simp add: appendEntriesInPlace_def Let_def split_beta resetEntrySequences_def)
  then have enc: "list_all encodable (cf_Entries ?n)" by (auto simp: list_all_iff plain_entry_def)
  obtain m where "meta_conversation dc cid now ?n = Inr m"
    using meta_plain [of ?n dc cid now] plain by auto
  then show ?thesis
    using assms(1-4) enc
    by (simp add: SaveConversationWithEntries_def writeConversationLocked_def writeContextLocked_def writeConversationMetaLocked_def Let_def)
qed

lemma demo_cid: "validateConversationID ''c'' = Inr ''c''"
  by code_simp


end
