(* ===== verification/Stream_Actors.thy ===== *)
theory Stream_Actors
  imports Run_Rewind
begin

text \<open>
  The actors of the streams and the lock of a conversation (\<open>actor.go\<close>, \<open>service.go\<close>). Each stream has an
  actor that takes commands from its mailbox one after the other. Client messages, timers and provider events
  are posted by other goroutines; a client waits for the answer. The runs of one conversation exclude each
  other by a lock, and a run cancels the other streams of its conversation by posting to their actors and
  waiting for the answers, while it holds the lock.

  The system is a step relation: a step is what happens between two operations on a channel or on the lock.
  What a handler does to its own stream is a parameter. A stream is named by its request; streams that have
  ended stay in the broker here.
\<close>

subsection \<open>Commands\<close>

datatype streamCommandKind =
    streamCommandRun | streamCommandCancel | streamCommandMetadata | streamCommandExecResult
  | streamCommandExecControl | streamCommandInteractionResult | streamCommandProviderEvent
  | streamCommandTimerFired | streamCommandCompactionEvent | streamCommandMaybeOrphaned

record streamCommand =
  cm_Kind :: streamCommandKind
  cm_Intent :: InboundIntent
  cm_Reason :: string

text \<open>Who gets the result of a command: nobody, a client or the actor of a stream.\<close>

datatype waiter = Nobody | Client | ActorOf string

record streamCommandEnvelope =
  ev_command :: streamCommand
  ev_result :: waiter

definition commandKindForIntent :: "InboundIntent \<Rightarrow> fwd_error + streamCommandKind" where
  "commandKindForIntent intent =
     (let k = TrimSpace (in_Kind intent)
      in if k = ''run'' then Inr streamCommandRun
         else if k = ''cancel'' then Inr streamCommandCancel
         else if k = ''metadata'' \<or> k = ''kv_result'' then Inr streamCommandMetadata
         else if k = ''exec_result'' then Inr streamCommandExecResult
         else if k = ''exec_control'' then Inr streamCommandExecControl
         else if k = ''interaction_result'' then Inr streamCommandInteractionResult
         else Inl (UnsupportedIntent (in_Kind intent)))"

definition shouldStopStreamActor :: "ActiveStream \<Rightarrow> bool" where
  "shouldStopStreamActor s \<longleftrightarrow>
     isTerminalStreamStatus (as_Status s) \<or> as_Phase s \<in> {TurnPhaseCompleted, TurnPhaseFailed, TurnPhaseCanceled}"

definition isTerminalIntentStream :: "ActiveStream \<Rightarrow> bool" where
  "isTerminalIntentStream s \<longleftrightarrow>
     isTerminalStreamStatus (as_Status s) \<or> as_Phase s \<in> {TurnPhaseCanceled, TurnPhaseCompleted, TurnPhaseFailed}"

text \<open>The stream a client message is for; none when the message has come too late.\<close>

definition streamForIntent :: "StreamBroker \<Rightarrow> InboundIntent \<Rightarrow> gtime \<Rightarrow> fwd_error + (ActiveStream option \<times> StreamBroker)" where
  "streamForIntent b intent now =
     (let k = TrimSpace (in_Kind intent)
      in if k = ''run'' then
           (case OpenStream b (in_RequestID intent) (in_ConversationID intent) 0 (in_ModelID intent) (in_ModelName intent)
                   (in_Mode intent) (userMessageText (in_UserMessage intent)) now of
              Inl e \<Rightarrow> Inl e
            | Inr (None, b1) \<Rightarrow> Inl OpenStreamFailed
            | Inr (Some s, b1) \<Rightarrow> Inr (Some s, b1))
         else
           (case Get b (in_RequestID intent) of
              None \<Rightarrow>
                if k = ''metadata'' \<or> k = ''kv_result''
                then if in_HasExplicitMode intent \<or> in_StartsRun intent then Inl (MetadataNeedsRequest (in_RequestID intent))
                     else Inr (None, b)
                else Inl (RequestNotActive (in_RequestID intent))
            | Some s \<Rightarrow> Inr (if isTerminalIntentStream s then None else Some s, b)))"

definition shouldAcknowledgeInterruptedInboundIntent :: "InboundIntent \<Rightarrow> bool \<Rightarrow> bool" where
  "shouldAcknowledgeInterruptedInboundIntent intent interrupted \<longleftrightarrow>
     interrupted \<and> TrimSpace (in_Kind intent) \<in>
       {''metadata'', ''kv_result'', ''exec_result'', ''exec_control'', ''interaction_result'', ''cancel''}"

subsection \<open>Actors\<close>

text \<open>
  Where an actor is: not started, waiting for a command, waiting for the lock of a conversation, in a run with
  the lock (before it looks for other streams, canceling a list of them, waiting for the answer of one, in the
  rest of the handler), or stopped for good.
\<close>

datatype actor_pc =
    NoActor | Ready | Stopped
  | Locking streamCommandEnvelope
  | Listing streamCommandEnvelope
  | Canceling streamCommandEnvelope "string list"
  | Awaiting streamCommandEnvelope string "string list"
  | Body streamCommandEnvelope

record actor_system =
  sy_broker :: StreamBroker
  sy_mail :: "string \<Rightarrow> streamCommandEnvelope list"
  sy_actor :: "string \<Rightarrow> actor_pc"
  sy_lock :: "string \<Rightarrow> string option"
  sy_posting :: "(string \<times> streamCommandEnvelope) list"

definition mailbox_size :: nat where "mailbox_size = 128"

record handlers =
  hd_handle :: "streamCommand \<Rightarrow> ActiveStream \<Rightarrow> bool \<times> ActiveStream"
  hd_fail :: "ActiveStream \<Rightarrow> ActiveStream"

definition run_conversation :: "streamCommandEnvelope \<Rightarrow> string" where
  "run_conversation ev = TrimSpace (in_ConversationID (cm_Intent (ev_command ev)))"

definition ensureStreamActor :: "string \<Rightarrow> actor_system \<Rightarrow> actor_system" where
  "ensureStreamActor r sy =
     (if sy_actor sy r \<noteq> NoActor then sy
      else sy\<lparr>sy_actor := (sy_actor sy)(r := Ready),
              sy_broker := (case Get (sy_broker sy) r of
                 None \<Rightarrow> sy_broker sy
               | Some s \<Rightarrow> put_stream (sy_broker sy) r (if as_Phase s = PhaseUnset then s\<lparr>as_Phase := TurnPhaseIdle\<rparr> else s))\<rparr>)"

text \<open>The answer to a command wakes the actor that waits for it.\<close>

definition answer :: "string \<Rightarrow> waiter \<Rightarrow> (string \<Rightarrow> actor_pc) \<Rightarrow> string \<Rightarrow> actor_pc" where
  "answer r who actors =
     (case who of
        ActorOf x \<Rightarrow>
          (case actors x of
             Awaiting ev r' rs \<Rightarrow> if r' = r then actors(x := Canceling ev rs) else actors
           | _ \<Rightarrow> actors)
      | _ \<Rightarrow> actors)"

text \<open>
  A command is handled to its end: its effect on the stream, the failure of the stream when the command failed
  and nobody hears of it, the answer, and the end of the actor when the stream has ended.
\<close>

definition finish_command :: "handlers \<Rightarrow> string \<Rightarrow> streamCommandEnvelope \<Rightarrow> actor_system \<Rightarrow> actor_system" where
  "finish_command h r ev sy =
     (case Get (sy_broker sy) r of
        None \<Rightarrow> sy
      | Some s \<Rightarrow>
          (let (failed, s1) = hd_handle h (ev_command ev) s;
               s2 = (if failed \<and> ev_result ev = Nobody then hd_fail h s1 else s1)
           in sy\<lparr>sy_broker := put_stream (sy_broker sy) r s2,
                 sy_actor := (answer r (ev_result ev) (sy_actor sy))(r := if shouldStopStreamActor s2 then Stopped else Ready)\<rparr>))"

definition unlock :: "streamCommandEnvelope \<Rightarrow> actor_system \<Rightarrow> actor_system" where
  "unlock ev sy = (if run_conversation ev = [] then sy else sy\<lparr>sy_lock := (sy_lock sy)(run_conversation ev := None)\<rparr>)"

definition set_actor :: "string \<Rightarrow> actor_pc \<Rightarrow> actor_system \<Rightarrow> actor_system" where
  "set_actor r pc sy = sy\<lparr>sy_actor := (sy_actor sy)(r := pc)\<rparr>"

definition post_mail :: "string \<Rightarrow> streamCommandEnvelope \<Rightarrow> actor_system \<Rightarrow> actor_system" where
  "post_mail r ev sy = sy\<lparr>sy_mail := (sy_mail sy)(r := sy_mail sy r @ [ev])\<rparr>"

text \<open>The command with which a run cancels another stream.\<close>

definition no_intent :: InboundIntent where
  "no_intent = \<lparr>in_Kind = [], in_RequestID = [], in_ConversationID = [], in_ModelID = [], in_ModelName = [],
     in_RequestedContextTokens = 0, in_Mode = 0, in_HasExplicitMode = False, in_ModeSource = ModeSourceUnknown,
     in_ManualCompaction = \<lparr>mc_Requested = False, mc_Instruction = []\<rparr>, in_SubagentTypeName = [], in_ClientTurns = None,
     in_PrependUserMessages = [], in_UserMessage = None, in_RequestContext = None, in_TranscriptsFolder = [],
     in_ActionCase = [], in_CancelReason = [], in_StartsRun = False, in_Prewarm = False\<rparr>"

definition cancel_envelope :: "string \<Rightarrow> string \<Rightarrow> streamCommandEnvelope" where
  "cancel_envelope x r =
     \<lparr>ev_command = \<lparr>cm_Kind = streamCommandCancel,
        cm_Intent = no_intent\<lparr>in_Kind := ''cancel'', in_RequestID := r,
                              in_CancelReason := ''[canceled] Superseded by newer request''\<rparr>, cm_Reason = []\<rparr>,
      ev_result = ActorOf x\<rparr>"

inductive actor_step :: "handlers \<Rightarrow> actor_system \<Rightarrow> actor_system \<Rightarrow> bool" for h where
  dispatch: "streamForIntent (sy_broker sy) intent now = Inr (Some s, b) \<Longrightarrow> commandKindForIntent intent = Inr k \<Longrightarrow>
    actor_step h sy (ensureStreamActor (TrimSpace (in_RequestID intent)) (sy\<lparr>sy_broker := b,
      sy_posting := sy_posting sy @ [(TrimSpace (in_RequestID intent),
        \<lparr>ev_command = \<lparr>cm_Kind = k, cm_Intent = intent, cm_Reason = []\<rparr>, ev_result = Client\<rparr>)]\<rparr>))"
| event: "Get (sy_broker sy) r = Some s \<Longrightarrow> cm_Kind c \<noteq> streamCommandRun \<Longrightarrow>
    actor_step h sy (ensureStreamActor (TrimSpace r)
      (sy\<lparr>sy_posting := sy_posting sy @ [(TrimSpace r, \<lparr>ev_command = c, ev_result = Nobody\<rparr>)]\<rparr>))"
| post: "sy_posting sy = ps @ (r, ev) # qs \<Longrightarrow> length (sy_mail sy r) < mailbox_size \<Longrightarrow>
    actor_step h sy (post_mail r ev (sy\<lparr>sy_posting := ps @ qs\<rparr>))"
| give_up: "sy_posting sy = ps @ (r, ev) # qs \<Longrightarrow> sy_actor sy r = Stopped \<Longrightarrow>
    actor_step h sy (sy\<lparr>sy_posting := ps @ qs\<rparr>)"
| receive: "sy_actor sy r = Ready \<Longrightarrow> sy_mail sy r = ev # evs \<Longrightarrow> cm_Kind (ev_command ev) \<noteq> streamCommandRun \<Longrightarrow>
    actor_step h sy (finish_command h r ev (sy\<lparr>sy_mail := (sy_mail sy)(r := evs)\<rparr>))"
| receive_run: "sy_actor sy r = Ready \<Longrightarrow> sy_mail sy r = ev # evs \<Longrightarrow> cm_Kind (ev_command ev) = streamCommandRun \<Longrightarrow>
    actor_step h sy (set_actor r (if run_conversation ev = [] then Listing ev else Locking ev)
      (sy\<lparr>sy_mail := (sy_mail sy)(r := evs)\<rparr>))"
| lock: "sy_actor sy r = Locking ev \<Longrightarrow> sy_lock sy (run_conversation ev) = None \<Longrightarrow>
    actor_step h sy (set_actor r (Listing ev) (sy\<lparr>sy_lock := (sy_lock sy)(run_conversation ev \<mapsto> r)\<rparr>))"
| others: "sy_actor sy r = Listing ev \<Longrightarrow>
    actor_step h sy (set_actor r
      (if in_Prewarm (cm_Intent (ev_command ev)) then Body ev
       else Canceling ev (OtherConversationRequestIDs (sy_broker sy)
         (in_ConversationID (cm_Intent (ev_command ev))) (in_RequestID (cm_Intent (ev_command ev))))) sy)"
| gone: "sy_actor sy r = Canceling ev (x # xs) \<Longrightarrow> Get (sy_broker sy) x = None \<Longrightarrow>
    actor_step h sy (set_actor r (Canceling ev xs) sy)"
| cancel: "sy_actor sy r = Canceling ev (x # xs) \<Longrightarrow> Get (sy_broker sy) x = Some s \<Longrightarrow> 
    length (sy_mail sy (TrimSpace x)) < mailbox_size \<Longrightarrow>
    actor_step h sy (set_actor r (Awaiting ev (TrimSpace x) xs)
      (post_mail (TrimSpace x) (cancel_envelope r x) (ensureStreamActor (TrimSpace x) sy)))"
| too_late: "sy_actor sy r = Canceling ev (x # xs) \<Longrightarrow> sy_actor sy (TrimSpace x) = Stopped \<Longrightarrow>
    actor_step h sy (set_actor r (Canceling ev xs) sy)"
| interrupted: "sy_actor sy r = Awaiting ev x xs \<Longrightarrow> sy_actor sy x = Stopped \<Longrightarrow>
    actor_step h sy (set_actor r (Canceling ev xs) sy)"
| proceed: "sy_actor sy r = Canceling ev [] \<Longrightarrow> actor_step h sy (set_actor r (Body ev) sy)"
| complete: "sy_actor sy r = Body ev \<Longrightarrow> Get (sy_broker sy) r = Some s \<Longrightarrow>
    actor_step h sy (unlock ev (finish_command h r ev sy))"

definition actor_start :: "actor_system \<Rightarrow> bool" where
  "actor_start sy \<longleftrightarrow> sy_broker sy = NewStreamBroker \<and> sy_mail sy = (\<lambda>_. []) \<and> sy_actor sy = (\<lambda>_. NoActor) \<and>
     sy_lock sy = (\<lambda>_. None) \<and> sy_posting sy = []"

subsection \<open>Runs of a conversation exclude each other\<close>

fun in_run :: "actor_pc \<Rightarrow> streamCommandEnvelope option" where
  "in_run (Listing ev) = Some ev"
| "in_run (Canceling ev xs) = Some ev"
| "in_run (Awaiting ev x xs) = Some ev"
| "in_run (Body ev) = Some ev"
| "in_run pc = None"

fun awaits :: "actor_pc \<Rightarrow> string option" where
  "awaits (Awaiting ev x xs) = Some x"
| "awaits pc = None"

fun wants_lock :: "actor_pc \<Rightarrow> streamCommandEnvelope option" where
  "wants_lock (Locking ev) = Some ev"
| "wants_lock pc = None"

definition lock_ok :: "actor_system \<Rightarrow> bool" where
  "lock_ok sy \<longleftrightarrow>
     (\<forall>r ev. in_run (sy_actor sy r) = Some ev \<and> run_conversation ev \<noteq> [] \<longrightarrow> sy_lock sy (run_conversation ev) = Some r) \<and>
     (\<forall>c r. sy_lock sy c = Some r \<longrightarrow> c \<noteq> [] \<and> (\<exists>ev. in_run (sy_actor sy r) = Some ev \<and> run_conversation ev = c)) \<and>
     (\<forall>r ev. wants_lock (sy_actor sy r) = Some ev \<longrightarrow> run_conversation ev \<noteq> [])"

lemma lock_okI:
  assumes "\<And>r ev. in_run (sy_actor sy r) = Some ev \<Longrightarrow> run_conversation ev \<noteq> [] \<Longrightarrow> sy_lock sy (run_conversation ev) = Some r"
    and "\<And>c r. sy_lock sy c = Some r \<Longrightarrow> c \<noteq> [] \<and> (\<exists>ev. in_run (sy_actor sy r) = Some ev \<and> run_conversation ev = c)"
    and "\<And>r ev. wants_lock (sy_actor sy r) = Some ev \<Longrightarrow> run_conversation ev \<noteq> []"
  shows "lock_ok sy"
  unfolding lock_ok_def using assms by blast

lemma lock_heldD:
  "lock_ok sy \<Longrightarrow> in_run (sy_actor sy r) = Some ev \<Longrightarrow> run_conversation ev \<noteq> [] \<Longrightarrow> sy_lock sy (run_conversation ev) = Some r"
  unfolding lock_ok_def by blast

lemma lock_ownerD:
  "lock_ok sy \<Longrightarrow> sy_lock sy c = Some r \<Longrightarrow> c \<noteq> [] \<and> (\<exists>ev. in_run (sy_actor sy r) = Some ev \<and> run_conversation ev = c)"
  unfolding lock_ok_def by blast

lemma lock_wantedD: "lock_ok sy \<Longrightarrow> wants_lock (sy_actor sy r) = Some ev \<Longrightarrow> run_conversation ev \<noteq> []"
  unfolding lock_ok_def by blast

lemma lock_ok_frame:
  assumes "lock_ok sy" "sy_lock sy' = sy_lock sy"
    "\<And>r. in_run (sy_actor sy' r) = in_run (sy_actor sy r) \<and> wants_lock (sy_actor sy' r) = wants_lock (sy_actor sy r)"
  shows "lock_ok sy'"
proof -
  have "in_run (sy_actor sy' r) = in_run (sy_actor sy r)" "wants_lock (sy_actor sy' r) = wants_lock (sy_actor sy r)" for r
    using assms(3) by auto
  then show ?thesis using assms(1) unfolding lock_ok_def assms(2) by metis
qed

lemma ensure_frame [simp]:
  "sy_lock (ensureStreamActor r sy) = sy_lock sy" "sy_mail (ensureStreamActor r sy) = sy_mail sy"
  "sy_posting (ensureStreamActor r sy) = sy_posting sy"
  "sy_actor (ensureStreamActor r sy) = (sy_actor sy)(r := if sy_actor sy r = NoActor then Ready else sy_actor sy r)"
  by (auto simp: ensureStreamActor_def)

lemma set_actor_frame [simp]:
  "sy_lock (set_actor r pc sy) = sy_lock sy" "sy_mail (set_actor r pc sy) = sy_mail sy"
  "sy_broker (set_actor r pc sy) = sy_broker sy" "sy_posting (set_actor r pc sy) = sy_posting sy"
  "sy_actor (set_actor r pc sy) = (sy_actor sy)(r := pc)"
  by (simp_all add: set_actor_def)

lemma post_mail_frame [simp]:
  "sy_lock (post_mail r ev sy) = sy_lock sy" "sy_actor (post_mail r ev sy) = sy_actor sy"
  "sy_broker (post_mail r ev sy) = sy_broker sy" "sy_posting (post_mail r ev sy) = sy_posting sy"
  "sy_mail (post_mail r ev sy) = (sy_mail sy)(r := sy_mail sy r @ [ev])"
  by (simp_all add: post_mail_def)

lemma answer_runs [simp]: "in_run (answer r who actors x) = in_run (actors x)" "wants_lock (answer r who actors x) = wants_lock (actors x)"
  by (auto simp: answer_def split: waiter.splits actor_pc.splits)

lemma finish_command_frame [simp]:
  "sy_lock (finish_command h r ev sy) = sy_lock sy" "sy_mail (finish_command h r ev sy) = sy_mail sy"
  by (auto simp: finish_command_def Let_def split: option.split prod.split)

lemma finish_runs:
  "x \<noteq> r \<Longrightarrow> in_run (sy_actor (finish_command h r ev sy) x) = in_run (sy_actor sy x)"
  "x \<noteq> r \<Longrightarrow> wants_lock (sy_actor (finish_command h r ev sy) x) = wants_lock (sy_actor sy x)"
  by (auto simp: finish_command_def Let_def split: option.split prod.split)

lemma finish_own:
  "Get (sy_broker sy) r = Some s \<Longrightarrow> sy_actor (finish_command h r ev sy) r \<in> {Ready, Stopped}"
  by (auto simp: finish_command_def Let_def split: prod.split)

lemma finish_ready:
  assumes "sy_actor sy r = Ready"
  shows "in_run (sy_actor (finish_command h r ev sy) x) = in_run (sy_actor sy x) \<and>
     wants_lock (sy_actor (finish_command h r ev sy) x) = wants_lock (sy_actor sy x)"
proof (cases "x = r")
  case True
  with assms show ?thesis by (auto simp: finish_command_def Let_def split: option.split prod.split)
qed (simp add: finish_runs)

lemma lock_ok_step:
  assumes "actor_step h sy sy'" "lock_ok sy"
  shows "lock_ok sy'"
  using assms
proof (induction rule: actor_step.induct)
  case (receive sy r ev evs)
  show ?case
  proof (rule lock_ok_frame [OF receive(4)])
    fix x show "in_run (sy_actor (finish_command h r ev (sy\<lparr>sy_mail := (sy_mail sy)(r := evs)\<rparr>)) x) = in_run (sy_actor sy x) \<and>
        wants_lock (sy_actor (finish_command h r ev (sy\<lparr>sy_mail := (sy_mail sy)(r := evs)\<rparr>)) x) = wants_lock (sy_actor sy x)"
      using finish_ready [of "sy\<lparr>sy_mail := (sy_mail sy)(r := evs)\<rparr>"] receive(1) by simp
  qed simp
next
  case (receive_run sy r ev evs)
  let ?pc = "if run_conversation ev = [] then Listing ev else Locking ev"
  let ?s = "set_actor r ?pc (sy\<lparr>sy_mail := (sy_mail sy)(r := evs)\<rparr>)"
  have 1: "sy_lock ?s (run_conversation e) = Some x" if "in_run (sy_actor ?s x) = Some e" "run_conversation e \<noteq> []" for x e
    using that lock_heldD [OF receive_run(4), of x e] by (cases "x = r") (simp_all split: if_splits)
  have 2: "d \<noteq> [] \<and> (\<exists>e. in_run (sy_actor ?s x) = Some e \<and> run_conversation e = d)" if "sy_lock ?s d = Some x" for d x
    using that lock_ownerD [OF receive_run(4), of d x] receive_run(1) by (cases "x = r") auto
  have 3: "run_conversation e \<noteq> []" if "wants_lock (sy_actor ?s x) = Some e" for x e
    using that lock_wantedD [OF receive_run(4), of x e] by (cases "x = r") (simp_all split: if_splits)
  show ?case using 1 2 3 by (rule lock_okI)
next
  case (lock sy r ev)
  then have "wants_lock (sy_actor sy r) = Some ev" by simp
  then have c: "run_conversation ev \<noteq> []" by (rule lock_wantedD [OF lock(3)])
  let ?s = "set_actor r (Listing ev) (sy\<lparr>sy_lock := (sy_lock sy)(run_conversation ev \<mapsto> r)\<rparr>)"
  have 1: "sy_lock ?s (run_conversation e) = Some x" if "in_run (sy_actor ?s x) = Some e" "run_conversation e \<noteq> []" for x e
  proof (cases "x = r")
    case False
    with that lock_heldD [OF lock(3), of x e] have "sy_lock sy (run_conversation e) = Some x" by simp
    with lock(2) show ?thesis by auto
  qed (use that in simp)
  have 2: "d \<noteq> [] \<and> (\<exists>e. in_run (sy_actor ?s x) = Some e \<and> run_conversation e = d)" if "sy_lock ?s d = Some x" for d x
  proof (cases "d = run_conversation ev")
    case True
    with that c show ?thesis by simp
  next
    case False
    with that have "sy_lock sy d = Some x" by simp
    with lock_ownerD [OF lock(3)] obtain e where "d \<noteq> []" "in_run (sy_actor sy x) = Some e" "run_conversation e = d" by blast
    then show ?thesis using lock(1) by (cases "x = r") auto
  qed
  have 3: "run_conversation e \<noteq> []" if "wants_lock (sy_actor ?s x) = Some e" for x e
    using that lock_wantedD [OF lock(3), of x e] by (cases "x = r") auto
  show ?case using 1 2 3 by (rule lock_okI)
next
  case (complete sy r ev s)
  let ?f = "finish_command h r ev sy"
  have own: "in_run (sy_actor ?f r) = None" "wants_lock (sy_actor ?f r) = None" using finish_own [OF complete(2), of h ev] by auto
  have pcs: "in_run (sy_actor ?f x) = (if x = r then None else in_run (sy_actor sy x))"
    "wants_lock (sy_actor ?f x) = (if x = r then None else wants_lock (sy_actor sy x))" for x
    using own by (auto simp: finish_runs)
  have other: "run_conversation ev \<noteq> run_conversation ev'" if "in_run (sy_actor sy x) = Some ev'" "x \<noteq> r" "run_conversation ev' \<noteq> []" for x ev'
    using complete(1) lock_heldD [OF complete(3), of x ev'] lock_heldD [OF complete(3), of r ev] that by auto
  let ?s = "unlock ev ?f"
  have acts: "sy_actor ?s = sy_actor ?f" and lk: "sy_lock ?s c = (if c = run_conversation ev \<and> c \<noteq> [] then None else sy_lock sy c)" for c
    by (auto simp: unlock_def)
  have 1: "sy_lock ?s (run_conversation e) = Some x" if "in_run (sy_actor ?s x) = Some e" "run_conversation e \<noteq> []" for x e
    using that other [of x e] lock_heldD [OF complete(3), of x e] by (auto simp: acts lk pcs split: if_splits)
  have 2: "d \<noteq> [] \<and> (\<exists>e. in_run (sy_actor ?s x) = Some e \<and> run_conversation e = d)" if "sy_lock ?s d = Some x" for d x
    using that lock_ownerD [OF complete(3), of d x] complete(1) by (auto simp: acts lk pcs split: if_splits)
  have 3: "run_conversation e \<noteq> []" if "wants_lock (sy_actor ?s x) = Some e" for x e
    using that lock_wantedD [OF complete(3), of x e] by (auto simp: acts pcs split: if_splits)
  show ?case using 1 2 3 by (rule lock_okI)
qed (rule lock_ok_frame, assumption, simp, clarsimp simp: set_actor_def)+

lemma lock_ok_start: "actor_start sy \<Longrightarrow> lock_ok sy"
  by (rule lock_okI) (simp_all add: actor_start_def)

interpretation actors: invariant_of actor_start "actor_step h" lock_ok for h
  by unfold_locales (auto intro: lock_ok_start lock_ok_step)

text \<open>
  C36. The runs of one conversation exclude each other: in every reachable state of the actors at most one of
  them is in a run of a conversation, whatever the handlers do to their streams, and the lock of a
  conversation is held exactly when one is.
\<close>
theorem runs_exclude_each_other:
  assumes "reach actor_start (actor_step h) sy"
  shows "(\<forall>r ev r' ev'. in_run (sy_actor sy r) = Some ev \<and> in_run (sy_actor sy r') = Some ev' \<and>
      run_conversation ev = run_conversation ev' \<and> run_conversation ev \<noteq> [] \<longrightarrow> r = r') \<and>
    (\<forall>c. sy_lock sy c \<noteq> None \<longleftrightarrow> c \<noteq> [] \<and> (\<exists>r ev. in_run (sy_actor sy r) = Some ev \<and> run_conversation ev = c))"
proof (intro conjI allI impI)
  note ok = actors.inv_reach [OF assms]
  show "r = r'" if "in_run (sy_actor sy r) = Some ev \<and> in_run (sy_actor sy r') = Some ev' \<and>
      run_conversation ev = run_conversation ev' \<and> run_conversation ev \<noteq> []" for r ev r' ev'
    using that lock_heldD [OF ok, of r ev] lock_heldD [OF ok, of r' ev'] by (metis option.inject)
  show "sy_lock sy c \<noteq> None \<longleftrightarrow> c \<noteq> [] \<and> (\<exists>r ev. in_run (sy_actor sy r) = Some ev \<and> run_conversation ev = c)" for c
    using lock_heldD [OF ok] lock_ownerD [OF ok, of c] by (cases "sy_lock sy c") force+
qed

subsection \<open>Two runs that wait for each other\<close>

text \<open>The run of \<open>a\<close> holds the lock of the conversation and waits for the actor of \<open>b\<close>, which waits for the lock.\<close>

definition deadlocked :: "string \<Rightarrow> string \<Rightarrow> string \<Rightarrow> actor_system \<Rightarrow> bool" where
  "deadlocked c a b sy \<longleftrightarrow> (\<exists>ev ev' xs. sy_actor sy a = Awaiting ev b xs \<and> sy_actor sy b = Locking ev' \<and>
     run_conversation ev = c \<and> run_conversation ev' = c \<and> sy_lock sy c = Some a)"

lemma finish_keeps:
  "sy_actor sy x = Locking e \<Longrightarrow> x \<noteq> r \<Longrightarrow> sy_actor (finish_command h r ev sy) x = Locking e"
  "sy_actor sy x = Awaiting e b xs \<Longrightarrow> x \<noteq> r \<Longrightarrow> b \<noteq> r \<Longrightarrow> sy_actor (finish_command h r ev sy) x = Awaiting e b xs"
  by (auto simp: finish_command_def answer_def Let_def split: option.split prod.split waiter.splits actor_pc.splits)

lemma deadlock_step:
  assumes "actor_step h sy sy'" "lock_ok sy" "deadlocked c a b sy"
  shows "deadlocked c a b sy'"
proof -
  obtain ev ev' xs where a: "sy_actor sy a = Awaiting ev b xs" and b: "sy_actor sy b = Locking ev'"
    and c: "run_conversation ev = c" "run_conversation ev' = c" and l: "sy_lock sy c = Some a"
    using assms(3) unfolding deadlocked_def by blast
  have "sy_actor sy' a = Awaiting ev b xs \<and> sy_actor sy' b = Locking ev' \<and> sy_lock sy' c = Some a"
    using assms(1)
  proof cases
    case (receive r e es)
    then have "a \<noteq> r" "b \<noteq> r" using a b by auto
    then show ?thesis using receive(1) a b l by (simp add: finish_keeps)
  next
    case (complete r e s)
    then have "a \<noteq> r" "b \<noteq> r" using a b by auto
    moreover have "run_conversation e \<noteq> c \<or> run_conversation e = []"
      using lock_heldD [OF assms(2), of r e] complete(2) l \<open>a \<noteq> r\<close> by force
    ultimately show ?thesis using complete(1) a b l by (auto simp: finish_keeps unlock_def)
  qed (use a b l c in auto)
  then show ?thesis using c unfolding deadlocked_def by blast
qed

lemma deadlock_stays:
  assumes "(actor_step h)\<^sup>*\<^sup>* sy sy'" "lock_ok sy" "deadlocked c a b sy"
  shows "deadlocked c a b sy'"
  using assms by (induction rule: rtranclp_induct) (auto intro: deadlock_step actors.inv_steps)

text \<open>A run intent that opens its stream.\<close>

definition opens_run :: "InboundIntent \<Rightarrow> bool" where
  "opens_run i \<longleftrightarrow> TrimSpace (in_Kind i) = ''run'' \<and> TrimSpace (in_RequestID i) \<noteq> [] \<and> TrimSpace (in_ConversationID i) \<noteq> [] \<and>
     \<not> isl (validateSupportedActiveMode (in_Mode i))"

definition run_envelope :: "InboundIntent \<Rightarrow> streamCommandEnvelope" where
  "run_envelope i = \<lparr>ev_command = \<lparr>cm_Kind = streamCommandRun, cm_Intent = i, cm_Reason = []\<rparr>, ev_result = Client\<rparr>"

lemma run_envelope_simps [simp]:
  "cm_Kind (ev_command (run_envelope i)) = streamCommandRun" "cm_Intent (ev_command (run_envelope i)) = i"
  "run_conversation (run_envelope i) = TrimSpace (in_ConversationID i)"
  by (simp_all add: run_envelope_def run_conversation_def)

text \<open>A client message that comes in and is delivered.\<close>

lemma deliver_run:
  assumes "opens_run i" "sy_actor sy (TrimSpace (in_RequestID i)) = NoActor" "sy_posting sy = []"
    "sy_mail sy (TrimSpace (in_RequestID i)) = []" "Get (sy_broker sy) (in_RequestID i) = None"
  shows "\<exists>s b. (actor_step h)\<^sup>*\<^sup>* sy (sy\<lparr>sy_broker := b,
      sy_actor := (sy_actor sy)(TrimSpace (in_RequestID i) := Locking (run_envelope i))\<rparr>) \<and>
    br_streams b = AList.update (TrimSpace (in_RequestID i)) s (br_streams (sy_broker sy)) \<and>
    as_ConversationID s = TrimSpace (in_ConversationID i) \<and> is_live s"
proof -
  let ?r = "TrimSpace (in_RequestID i)"
  obtain m where m: "validateSupportedActiveMode (in_Mode i) = Inr m"
    using assms(1) unfolding opens_run_def by (cases "validateSupportedActiveMode (in_Mode i)") auto
  define s where "s = fresh_stream ?r (in_ConversationID i) 0 (in_ModelID i) (in_ModelName i) m (userMessageText (in_UserMessage i)) 0"
  let ?b = "put_stream (sy_broker sy) ?r s"
  let ?s1 = "ensureStreamActor ?r (sy\<lparr>sy_broker := ?b, sy_posting := sy_posting sy @ [(?r, run_envelope i)]\<rparr>)"
  have 1: "actor_step h sy ?s1"
    unfolding run_envelope_def
    by (rule dispatch [of _ _ 0 s]) (use assms(1,5) m in \<open>simp_all add: streamForIntent_def commandKindForIntent_def opens_run_def OpenStream_def s_def Get_def Let_def\<close>)
  let ?s2 = "post_mail ?r (run_envelope i) (?s1\<lparr>sy_posting := [] @ []\<rparr>)"
  have 2: "actor_step h ?s1 ?s2"
    by (rule post) (use assms(3,4) in \<open>simp_all add: mailbox_size_def\<close>)
  let ?s3 = "set_actor ?r (if run_conversation (run_envelope i) = [] then Listing (run_envelope i) else Locking (run_envelope i))
    (?s2\<lparr>sy_mail := (sy_mail ?s2)(?r := [])\<rparr>)"
  have 3: "actor_step h ?s2 ?s3"
    by (rule receive_run) (use assms(2,4) in simp_all)
  have "as_Phase s = PhaseUnset" "Get ?b ?r = Some s" "put_stream ?b ?r x = put_stream (sy_broker sy) ?r x" for x
    by (simp_all add: s_def fresh_stream_def Get_def put_stream_def map_of_update_gomap)
  then have eq: "?s3 = sy\<lparr>sy_broker := put_stream (sy_broker sy) ?r (s\<lparr>as_Phase := TurnPhaseIdle\<rparr>), sy_actor := (sy_actor sy)(?r := Locking (run_envelope i))\<rparr>"
    using assms by (cases sy) (auto simp: ensureStreamActor_def set_actor_def post_mail_def opens_run_def fun_upd_idem)
  have "(actor_step h)\<^sup>*\<^sup>* sy ?s3" using 1 2 3 by (meson rtranclp.rtrancl_into_rtrancl rtranclp.rtrancl_refl)
  then show ?thesis unfolding eq
    by (intro exI [of _ "s\<lparr>as_Phase := TurnPhaseIdle\<rparr>"] exI [of _ "put_stream (sy_broker sy) ?r (s\<lparr>as_Phase := TurnPhaseIdle\<rparr>)"] conjI)
      (simp_all add: put_stream_def, simp_all add: s_def fresh_stream_def is_live_def)
qed


text \<open>The schedule that leads there.\<close>

lemma deadlock_reached:
  assumes "opens_run i" "opens_run j" "TrimSpace (in_ConversationID i) = TrimSpace (in_ConversationID j)"
    "TrimSpace (in_RequestID i) \<noteq> TrimSpace (in_RequestID j)" "\<not> in_Prewarm i"
  shows "\<exists>sy. reach actor_start (actor_step h) sy \<and>
    deadlocked (TrimSpace (in_ConversationID i)) (TrimSpace (in_RequestID i)) (TrimSpace (in_RequestID j)) sy"
proof -
  let ?a = "TrimSpace (in_RequestID i)" and ?b = "TrimSpace (in_RequestID j)" and ?c = "TrimSpace (in_ConversationID i)"
  let ?s0 = "\<lparr>sy_broker = NewStreamBroker, sy_mail = \<lambda>_. [], sy_actor = \<lambda>_. NoActor, sy_lock = \<lambda>_. None, sy_posting = []\<rparr>"
  have start: "actor_start ?s0" by (simp add: actor_start_def)
  obtain s b1 where 1: "(actor_step h)\<^sup>*\<^sup>* ?s0 (?s0\<lparr>sy_broker := b1, sy_actor := (sy_actor ?s0)(?a := Locking (run_envelope i))\<rparr>)"
    and b1: "br_streams b1 = [(?a, s)]"
    using deliver_run [of i ?s0 h] assms(1) by (auto simp: NewStreamBroker_def NewStreamBrokerWithBacklogLimit_def Get_def)
  let ?s1 = "?s0\<lparr>sy_broker := b1, sy_actor := (sy_actor ?s0)(?a := Locking (run_envelope i))\<rparr>"
  obtain t b2 where 2: "(actor_step h)\<^sup>*\<^sup>* ?s1 (?s1\<lparr>sy_broker := b2, sy_actor := (sy_actor ?s1)(?b := Locking (run_envelope j))\<rparr>)"
    and b2: "br_streams b2 = [(?a, s), (?b, t)]" and t: "as_ConversationID t = TrimSpace (in_ConversationID j)" "is_live t"
    using deliver_run [of j ?s1 h] assms(2,4) by (auto simp: Get_def b1)
  let ?s2 = "?s1\<lparr>sy_broker := b2, sy_actor := (sy_actor ?s1)(?b := Locking (run_envelope j))\<rparr>"
  let ?s3 = "set_actor ?a (Listing (run_envelope i)) (?s2\<lparr>sy_lock := (sy_lock ?s2)(run_conversation (run_envelope i) \<mapsto> ?a)\<rparr>)"
  have 3: "actor_step h ?s2 ?s3" by (rule lock) (use assms(4) in simp_all)
  let ?xs = "OtherConversationRequestIDs b2 (in_ConversationID i) (in_RequestID i)"
  have xs: "?xs = [?b]"
    using assms t by (simp add: OtherConversationRequestIDs_def b2 opens_run_def)
  let ?s4 = "set_actor ?a (Canceling (run_envelope i) ?xs) ?s3"
  have 4: "actor_step h ?s3 ?s4" using others [of ?s3 ?a "run_envelope i" h] assms(5) by simp
  let ?s5 = "set_actor ?a (Awaiting (run_envelope i) ?b [])
      (post_mail (TrimSpace ?b) (cancel_envelope ?a ?b) (ensureStreamActor (TrimSpace ?b) ?s4))"
  have 5: "actor_step h ?s4 ?s5"
    using cancel [of ?s4 ?a "run_envelope i" ?b "[]" t h] assms(4) xs by (simp add: Get_def b2 mailbox_size_def)
  have steps: "(actor_step h)\<^sup>*\<^sup>* ?s0 ?s5" using 1 2 3 4 5 by (meson rtranclp.rtrancl_into_rtrancl rtranclp_trans)
  have r: "reach actor_start (actor_step h) ?s5"
    using steps reach_start [of actor_start, OF start] by (induction rule: rtranclp_induct) (auto intro: reach_step)
  have "deadlocked ?c ?a ?b ?s5" using assms(3,4) by (simp add: deadlocked_def)
  with r show ?thesis by blast
qed

text \<open>
  C37. Two runs of a conversation that come in at the same time can block each other for good. Two clients (or
  one that sends a second request before the first run has begun) start runs of one conversation under
  different requests. The first run takes the lock of the conversation, posts a cancel to the actor of the
  second and waits for the answer, but that actor is waiting for the lock. From then on, whatever happens,
  neither run goes on, and the lock of the conversation is never free again, so no later run begins either.
\<close>
theorem concurrent_runs_deadlock:
  assumes "opens_run i" "opens_run j" "TrimSpace (in_ConversationID i) = TrimSpace (in_ConversationID j)"
    "TrimSpace (in_RequestID i) \<noteq> TrimSpace (in_RequestID j)" "\<not> in_Prewarm i"
  shows "\<exists>sy. reach actor_start (actor_step h) sy \<and>
    (\<forall>sy'. (actor_step h)\<^sup>*\<^sup>* sy sy' \<longrightarrow>
       deadlocked (TrimSpace (in_ConversationID i)) (TrimSpace (in_RequestID i)) (TrimSpace (in_RequestID j)) sy')"
proof -
  from deadlock_reached [OF assms, of h] obtain sy where r: "reach actor_start (actor_step h) sy"
    and d: "deadlocked (TrimSpace (in_ConversationID i)) (TrimSpace (in_RequestID i)) (TrimSpace (in_RequestID j)) sy" by blast
  show ?thesis using r deadlock_stays [OF _ actors.inv_reach [OF r] d] by blast
qed

definition demo_handlers :: handlers where
  "demo_handlers = \<lparr>hd_handle = \<lambda>_ s. (False, s), hd_fail = \<lambda>s. s\<rparr>"

lemma demo_opens:
  "opens_run (demo_intent None ''a'')" "opens_run ((demo_intent None ''b'')\<lparr>in_RequestID := ''q''\<rparr>)"
  "TrimSpace ''c'' = ''c''" "TrimSpace ''r'' = ''r''" "TrimSpace ''q'' = ''q''"
  by code_simp+

theorem concurrent_runs_deadlock_witness:
  "\<exists>sy. reach actor_start (actor_step demo_handlers) sy \<and> deadlocked ''c'' ''r'' ''q'' sy"
  using concurrent_runs_deadlock [OF demo_opens(1,2), of demo_handlers] demo_opens(3-)
  by (auto simp: demo_intent_def)

theorem runs_exclude_each_other_witness:
  "\<exists>sy. reach actor_start (actor_step demo_handlers) sy \<and> in_run (sy_actor sy ''r'') \<noteq> None \<and>
     (\<forall>r ev ev'. in_run (sy_actor sy ''r'') = Some ev \<and> in_run (sy_actor sy r) = Some ev' \<and>
       run_conversation ev = run_conversation ev' \<and> run_conversation ev \<noteq> [] \<longrightarrow> r = ''r'')"
proof -
  obtain sy where r: "reach actor_start (actor_step demo_handlers) sy" and d: "deadlocked ''c'' ''r'' ''q'' sy"
    using deadlock_reached [OF demo_opens(1,2), of demo_handlers] demo_opens(3-) by (auto simp: demo_intent_def)
  from d have "in_run (sy_actor sy ''r'') \<noteq> None" by (auto simp: deadlocked_def)
  with r runs_exclude_each_other [OF r] show ?thesis by (metis (no_types, opaque_lifting))
qed

end
