(* ===== verification/Turn_Cancel.thy ===== *)
theory Turn_Cancel
  imports Run_Intent Stream_Actors
begin

text \<open>
  How a turn is canceled (\<open>service.go\<close>) and what timers do (\<open>actor.go\<close>). A cancel records the output that
  was interrupted and the cancellation in the history, discards the provider call and its results, finishes
  the edits that are under way, tells the client to abort the rest, and ends the stream. The result of an edit
  (\<open>write_tool.go\<close>, \<open>patch_edit_tool.go\<close>) is a parameter, \<open>en_edit_outcome\<close>; how it is recorded, shown and
  followed up is modelled.
\<close>

subsection \<open>Pending executions\<close>

definition completedExecRetention :: gtime where
  "completedExecRetention = 15 * 1000000000"

definition markExecCompleted :: "PendingExec \<Rightarrow> gtime \<Rightarrow> ActiveStream \<Rightarrow> ActiveStream" where
  "markExecCompleted pending now s =
     s\<lparr>as_PendingExecs := AList.delete (pe_ExecID pending) (as_PendingExecs s),
       as_RecentCompletedExecs :=
         (if pe_MessageID pending = 0 then as_RecentCompletedExecs s
          else AList.update (pe_MessageID pending) now
                 (filter (\<lambda>(_, at). \<not> at < now - completedExecRetention) (as_RecentCompletedExecs s))),
       as_UpdatedAt := now\<rparr>"

definition snapshotPendingExec :: "ActiveStream \<Rightarrow> string \<Rightarrow> PendingExec option" where
  "snapshotPendingExec s execID =
     (if TrimSpace execID = [] then None else map_of (as_PendingExecs s) (TrimSpace execID))"

definition isHiddenWriteExecKind :: "string \<Rightarrow> bool" where
  "isHiddenWriteExecKind kind \<longleftrightarrow> TrimSpace kind \<in> {''write_read'', ''write_write'', ''write_post_read''}"

definition isHiddenPatchEditExecKind :: "string \<Rightarrow> bool" where
  "isHiddenPatchEditExecKind kind \<longleftrightarrow> TrimSpace kind \<in> {''patch_edit_read'', ''patch_edit_write'', ''patch_edit_post_read''}"

subsection \<open>Results of tools\<close>

text \<open>
  The reasoning that came with a tool call is not repeated in its result when the entry of the call has it.
\<close>

definition call_has_reasoning :: "string \<Rightarrow> HistoryEntry \<Rightarrow> bool" where
  "call_has_reasoning callID e \<longleftrightarrow> TrimSpace (he_Kind e) = ''tool_call'' \<and> TrimSpace (he_ToolCallID e) = callID \<and>
     (case struct_members (he_Payload e) of
        None \<Rightarrow> False
      | Some ms \<Rightarrow>
          (case string_fields ms [''reasoning_content'', ''reasoning_signature'', ''reasoning_signature_source'',
                  ''tool_call_id'', ''tool_name'', ''reasoning_item_id'', ''reasoning_status'',
                  ''provider_item_id'', ''provider_call_id'', ''provider_status''] of
             None \<Rightarrow> False
           | Some vs \<Rightarrow> list_ex (\<lambda>v. TrimSpace v \<noteq> []) (take 3 vs)))"

definition toolResultReasoningFallback :: "world \<Rightarrow> string \<Rightarrow> string \<Rightarrow> string" where
  "toolResultReasoningFallback w toolCallID reasoningContent =
     (if TrimSpace reasoningContent = [] \<or> TrimSpace toolCallID = [] then reasoningContent
      else case w_conversation w of
             None \<Rightarrow> reasoningContent
           | Some c \<Rightarrow> if list_ex (call_has_reasoning (TrimSpace toolCallID)) (cf_Entries c) then [] else reasoningContent)"

definition newToolResultEntry ::
  "int \<Rightarrow> string \<Rightarrow> string \<Rightarrow> string \<Rightarrow> string \<Rightarrow> string \<Rightarrow> string \<Rightarrow> raw_json \<Rightarrow> HistoryEntry" where
  "newToolResultEntry turnSeq requestID toolCallID toolName arguments resultText reasoningContent toolCall =
     \<lparr>he_Seq = 0, he_TurnSeq = turnSeq, he_RequestID = TrimSpace requestID, he_IdempotencyKey = [], he_Role = ''tool'',
      he_Kind = ''tool_result'', he_ToolCallID = TrimSpace toolCallID, he_ParentToolCallID = [],
      he_Payload = (case toolCall of
         RawInvalid \<Rightarrow> RawEmpty
       | _ \<Rightarrow> RawValue (JObj ([(''tool_call_id'', JStr (TrimSpace toolCallID)), (''tool_name'', JStr (TrimSpace toolName))] @
           omitempty ''arguments'' (TrimSpace arguments) @ omitempty ''result_text'' (TrimSpace resultText) @
           omitempty ''reasoning_content'' (TrimSpace reasoningContent) @
           (case toolCall of RawValue v \<Rightarrow> [(''tool_call'', v)] | _ \<Rightarrow> [])))),
      he_CreatedAt = 0\<rparr>"

definition appendToolResult ::
  "env \<Rightarrow> string \<Rightarrow> string \<Rightarrow> string \<Rightarrow> string \<Rightarrow> string \<Rightarrow> raw_json \<Rightarrow> gtime \<Rightarrow> world \<Rightarrow> turn_result" where
  "appendToolResult env toolCallID toolName argsJSON resultText reasoningContent payload now w =
     (case stream w of
        None \<Rightarrow> (w, None)
      | Some s \<Rightarrow>
          append_entries env (as_ConversationID s)
            [newToolResultEntry (as_TurnSeq s) (as_RequestID s) toolCallID toolName argsJSON resultText
               (toolResultReasoningFallback w toolCallID reasoningContent) payload] now w)"

definition publishToolCallCompleted :: "string \<Rightarrow> string \<Rightarrow> tool_call option \<Rightarrow> gtime \<Rightarrow> world \<Rightarrow> turn_result" where
  "publishToolCallCompleted toolCallID modelCallID toolCall now w =
     (if TrimSpace (request w) = [] \<or> TrimSpace toolCallID = [] then (w, None)
      else publish_message (buildToolCallCompletedMessage (TrimSpace toolCallID) modelCallID toolCall) now
             (on_stream (\<lambda>s. s\<lparr>as_CompletedToolCallIDs := AList.update (TrimSpace toolCallID) now (as_CompletedToolCallIDs s),
                as_UpdatedAt := now\<rparr>) w))"

text \<open>
  How an edit ends (\<open>finishWriteOperation\<close>; \<open>finishPatchEditOperation\<close> when no further edit is queued, as
  after a cancel, which empties the queues).
\<close>

definition finish_edit :: "env \<Rightarrow> PendingExec \<Rightarrow> edit_outcome \<Rightarrow> gtime \<Rightarrow> world \<Rightarrow> turn_result" where
  "finish_edit env pending r now w =
     and_then (appendToolResult env (TrimSpace (pe_ToolCallID pending)) (eo_ToolName r) (eo_Args r) (eo_Text r)
                 (pe_ReasoningContent pending) (eo_History r) now w)
       (\<lambda>w1. and_then (publishToolCallCompleted (TrimSpace (pe_ToolCallID pending)) (TrimSpace (pe_ModelCallID pending))
                         (Some (eo_ToolCall r)) now w1)
         (\<lambda>w2. and_then (syncSummaryCarryForward (en_dc env) w2 (request w2) (TrimSpace (pe_ModelCallID pending)) now)
           (\<lambda>w3. and_then (publishCheckpoint env now w3) (reconcileStream env now))))"

definition completePendingEditAfterCancel :: "env \<Rightarrow> PendingExec \<Rightarrow> gtime \<Rightarrow> world \<Rightarrow> turn_result" where
  "completePendingEditAfterCancel env pending now w =
     (if \<not> isHiddenWriteExecKind (pe_ExecKind pending) \<and> \<not> isHiddenPatchEditExecKind (pe_ExecKind pending) then (w, None)
      else case en_edit_outcome env pending of
             Inl e \<Rightarrow> (w, Some e)
           | Inr r \<Rightarrow> finish_edit env pending r now (on_stream (markExecCompleted pending now) w))"

subsection \<open>Cancellation\<close>

definition buildExecAbortMessage :: "PendingExec \<Rightarrow> server_message" where
  "buildExecAbortMessage pending = ExecServerAbort (pe_MessageID pending)"

definition checkpointTurnHasReplayActivity :: "world \<Rightarrow> bool" where
  "checkpointTurnHasReplayActivity w =
     (case (stream w, w_conversation w) of
        (Some s, Some c) \<Rightarrow> list_ex (\<lambda>e. he_TurnSeq e = as_TurnSeq s \<and> isCanceledTurnActivityEntry e) (cf_Entries c)
      | _ \<Rightarrow> False)"

definition interruptedProviderOutputIdempotencyKey :: "env \<Rightarrow> int \<Rightarrow> string \<Rightarrow> string \<Rightarrow> int \<Rightarrow> string" where
  "interruptedProviderOutputIdempotencyKey env turnSeq requestID modelCallID providerPass =
     ''provider-interrupted-output:'' @ en_sha env (''provider_interrupted_output'' @ [CHR 0x00] @ show_int turnSeq @ [CHR 0x00] @
        TrimSpace requestID @ [CHR 0x00] @ TrimSpace modelCallID @ [CHR 0x00] @ show_int providerPass)"

definition cancelMetadataIdempotencyKey :: "env \<Rightarrow> int \<Rightarrow> string \<Rightarrow> string" where
  "cancelMetadataIdempotencyKey env turnSeq requestID =
     ''cancel:'' @ en_sha env (''cancel'' @ [CHR 0x00] @ show_int turnSeq @ [CHR 0x00] @ TrimSpace requestID)"

definition interrupted_entry :: "env \<Rightarrow> ActiveStream \<Rightarrow> HistoryEntry" where
  "interrupted_entry env s =
     (newAssistantTextEntryWithProviderMetadata env (as_TurnSeq s) (as_RequestID s) (as_AccumulatedText s) (stream_reasoning s))
       \<lparr>he_IdempotencyKey := interruptedProviderOutputIdempotencyKey env (as_TurnSeq s) (TrimSpace (as_RequestID s))
          (TrimSpace (as_CurrentModelCallID s)) (as_ProviderPassCount s)\<rparr>"

definition has_output :: "ActiveStream \<Rightarrow> bool" where
  "has_output s \<longleftrightarrow> TrimSpace (as_AccumulatedText s) \<noteq> [] \<or>
     hasReplayableReasoningPayload (as_AccumulatedReasoning s) (as_ReasoningSignature s) (as_ReasoningSignatureSource s)"

definition persistInterruptedProviderOutput :: "env \<Rightarrow> gtime \<Rightarrow> world \<Rightarrow> turn_result \<times> bool" where
  "persistInterruptedProviderOutput env now w =
     (case stream w of
        None \<Rightarrow> ((w, None), False)
      | Some s \<Rightarrow>
          (if \<not> has_output s then ((w, None), False)
           else (append_entries env (as_ConversationID s) [interrupted_entry env s] now w, True)))"

definition cancel_entry :: "env \<Rightarrow> ActiveStream \<Rightarrow> string \<Rightarrow> string \<Rightarrow> string \<Rightarrow> HistoryEntry" where
  "cancel_entry env s requestID reason policy =
     (newMetadataEntry (as_TurnSeq s) requestID ''control''
        [(''status'', JStr ''canceled''), (''reason'', JStr reason), (''replay_policy'', JStr policy)])
       \<lparr>he_IdempotencyKey := cancelMetadataIdempotencyKey env (as_TurnSeq s) requestID\<rparr>"

definition record_cancel :: "env \<Rightarrow> InboundIntent \<Rightarrow> gtime \<Rightarrow> world \<Rightarrow> turn_result" where
  "record_cancel env intent now w =
     (if \<not> checkpointConversationInitialized w then (w, None)
      else case persistInterruptedProviderOutput env now w of
             (r, preserved) \<Rightarrow> and_then r (\<lambda>w1.
               case stream w1 of
                 None \<Rightarrow> (w1, None)
               | Some s \<Rightarrow>
                   let cancelReason = firstNonEmpty [in_CancelReason intent, ''user aborted''];
                       policy = (if preserved \<or> checkpointTurnHasReplayActivity w1 then cancelReplayPolicyKeepInterrupted
                                 else cancelReplayPolicyForReason cancelReason)
                   in append_entries env (as_ConversationID s) [cancel_entry env s (in_RequestID intent) cancelReason policy] now w1))"

definition discard_work :: "gtime \<Rightarrow> ActiveStream \<Rightarrow> ActiveStream" where
  "discard_work now s =
     s\<lparr>as_ProviderCancel := None, as_ProviderActive := False, as_CurrentProviderToken := as_CurrentProviderToken s + 1,
       as_CurrentCompactionToken := as_CurrentCompactionToken s + 1, as_PendingProviderAction := providerActionNone,
       as_PendingCompaction := False, as_UpdatedAt := now\<rparr>"

fun each :: "('a \<Rightarrow> world \<Rightarrow> turn_result) \<Rightarrow> 'a list \<Rightarrow> world \<Rightarrow> turn_result" where
  "each f [] w = (w, None)"
| "each f (x # xs) w = and_then (f x w) (each f xs)"

definition end_canceled :: "InboundIntent \<Rightarrow> bool \<Rightarrow> gtime \<Rightarrow> world \<Rightarrow> turn_result" where
  "end_canceled intent hasCheckpoint now w =
     (let w1 = (if hasCheckpoint then on_turn (\<lambda>t. discardPendingCheckpoint t now) w else w);
          w2 = clearPendingProviderCompletion now w1;
          w3 = on_stream (\<lambda>s. s\<lparr>as_PendingProviderAction := providerActionNone, as_UpdatedAt := now\<rparr>) w2;
          w4 = set_phase TurnPhaseCanceled now w3
      in lift_turn (\<lambda>t. case Cancel (tn_broker t) (in_RequestID intent)
                               (firstNonEmpty [in_CancelReason intent, ''[canceled] User aborted request'']) now of
           Inl e \<Rightarrow> (t, Some e) | Inr b \<Rightarrow> (t\<lparr>tn_broker := b\<rparr>, None)) w4)"

definition abort_all :: "PendingExec list \<Rightarrow> gtime \<Rightarrow> world \<Rightarrow> world" where
  "abort_all ps now = fold (\<lambda>p w. ignoring (publish_message (buildExecAbortMessage p) now w)) ps"

definition handleCancelIntent :: "env \<Rightarrow> InboundIntent \<Rightarrow> gtime \<Rightarrow> world \<Rightarrow> turn_result" where
  "handleCancelIntent env intent now w =
     (case Get (tn_broker (w_turn w)) (in_RequestID intent) of
        None \<Rightarrow> (w, Some (StreamError (RequestNotActive (in_RequestID intent))))
      | Some _ \<Rightarrow>
          and_then (record_cancel env intent now w) (\<lambda>w1.
            let pendings = (case stream w1 of None \<Rightarrow> [] | Some s \<Rightarrow> map snd (as_PendingExecs s));
                w2 = on_stream (discard_work now) (cancel_provider w1)
            in and_then (each (\<lambda>p. completePendingEditAfterCancel env p now) pendings w2) (\<lambda>w3.
                 end_canceled intent (checkpointConversationInitialized w) now (abort_all pendings now w3))))"

subsection \<open>A cancel ends the turn\<close>

abbreviation canceled_contexts :: "world \<Rightarrow> nat list" where
  "canceled_contexts w \<equiv> br_canceledContexts (tn_broker (w_turn w))"

definition same_stream :: "world \<Rightarrow> world \<Rightarrow> bool" where
  "same_stream w w' \<longleftrightarrow> request w' = request w \<and> (\<exists>n. stream w' = map_option (\<lambda>s. s\<lparr>as_UpdatedAt := n s\<rparr>) (stream w))"

lemma same_stream_refl [simp]: "same_stream w w"
  by (auto simp: same_stream_def option.map_id0 [unfolded id_def] intro: exI [of _ as_UpdatedAt])

lemma same_stream_trans: "same_stream w w1 \<Longrightarrow> same_stream w1 w2 \<Longrightarrow> same_stream w w2"
  unfolding same_stream_def by (cases "stream w") (auto simp: fun_eq_iff)

lemma append_same: "append_entries env cid es now w = (w', e) \<Longrightarrow> same_stream w w'"
  by (auto simp: append_entries_def appendConversationEntries_def same_stream_def option.map_id0 [unfolded id_def]
      intro: exI [of _ as_UpdatedAt] split: option.splits prod.splits sum.splits if_splits)

lemma record_cancel_same:
  assumes "record_cancel env intent now w = (w', e)"
  shows "same_stream w w'"
proof (cases "checkpointConversationInitialized w")
  case True
  obtain w1 e1 p where r: "persistInterruptedProviderOutput env now w = ((w1, e1), p)" by (metis prod.collapse)
  then have 1: "same_stream w w1"
    using append_same by (fastforce simp: persistInterruptedProviderOutput_def split: option.splits if_splits)
  show ?thesis using assms True r same_stream_trans [OF 1 append_same] 1
    by (auto simp: record_cancel_def and_then_def Let_def split: option.splits)
qed (use assms in \<open>auto simp: record_cancel_def\<close>)

lemma each_nothing: "(\<And>x w. x \<in> set xs \<Longrightarrow> f x w = (w, None)) \<Longrightarrow> each f xs w = (w, None)"
  by (induction xs arbitrary: w) (auto simp: and_then_def)

lemma publish_keeps:
  assumes "stream w = Some s" "publish_message m now w = (w', e)"
  shows "\<exists>s'. stream w' = Some s' \<and> core s' = core s \<and> as_Status s' = as_Status s" "request w' = request w"
    "canceled_contexts w' = canceled_contexts w"
  using assms by (auto simp: publish_message_def lift_turn_def publish_to_def Publish_def stream_of_def put_stream_def Get_def
      map_of_update_gomap split: option.splits sum.splits prod.splits)

lemma abort_keeps:
  assumes "stream w = Some s"
  shows "(\<exists>s'. stream (abort_all ps now w) = Some s' \<and> core s' = core s \<and> as_Status s' = as_Status s) \<and>
    request (abort_all ps now w) = request w \<and> canceled_contexts (abort_all ps now w) = canceled_contexts w"
  using assms
proof (induction ps arbitrary: w s)
  case (Cons p ps)
  obtain w1 e where w1: "publish_message (buildExecAbortMessage p) now w = (w1, e)" by fastforce
  from publish_keeps [OF Cons.prems w1] obtain s1 where s1: "stream w1 = Some s1" "core s1 = core s" "as_Status s1 = as_Status s" by blast
  from Cons.IH [OF s1(1)] s1 publish_keeps [OF Cons.prems w1] w1 show ?case by (simp add: abort_all_def)
qed (simp add: abort_all_def)

lemma cancel_provider_stream [simp]: "stream (cancel_provider w) = stream w" "request (cancel_provider w) = request w"
  by (auto simp: cancel_provider_def stream_of_def Get_def split: option.split)


lemma ended_stream_frame:
  "as_Phase (ended_stream l e now n s) = as_Phase s"
  by (simp add: ended_stream_def publish_stream_def schedule_stream_def stopTerminalCleanupTimerLocked_def Let_def)

lemma contexts_put [simp]: "br_canceledContexts (put_stream b r s) = br_canceledContexts b"
  by (simp add: put_stream_def)

lemma contexts_upd [simp]: "br_canceledContexts (tn_broker (upd f t)) = br_canceledContexts (tn_broker t)"
  by (simp add: upd_def split: option.split)

lemma contexts_end: "publish_end b r e n now = Inr b' \<Longrightarrow> br_canceledContexts b' = br_canceledContexts b"
  by (auto simp: publish_end_def Publish_def scheduleTerminalCleanup_def split_beta Let_def split: option.splits if_splits)

lemma Cancel_running:
  assumes "Get b r = Some s" "\<not> isTerminalStreamStatus (as_Status s)"
  shows "\<exists>b' s'. Cancel b r m now = Inr b' \<and> Get b' r = Some s' \<and> as_Status s' = StreamStatusCanceled \<and> as_Phase s' = as_Phase s \<and>
     core s' = core (s\<lparr>as_ProviderActive := False\<rparr>) \<and> set (br_canceledContexts b) \<subseteq> set (br_canceledContexts b')"
proof -
  define b1 where "b1 = (case as_ProviderCancel s of None \<Rightarrow> b
    | Some ctx \<Rightarrow> b\<lparr>br_canceledContexts := br_canceledContexts b @ [ctx]\<rparr>)"
  let ?s1 = "(stopTerminalCleanupTimerLocked s)\<lparr>as_ProviderCancel := None, as_ProviderActive := False,
    as_Status := StreamStatusCanceled, as_UpdatedAt := now\<rparr>"
  let ?e = "end_event ''canceled'' (firstNonEmpty [TrimSpace m, ''[canceled] User aborted request''])"
  obtain b' where b': "publish_end (put_stream b1 r ?s1) r ?e (length (as_Subscribers s)) now = Inr b'"
    using publish_end_total by metis
  then have c: "Cancel b r m now = Inr b'" using assms by (simp add: Cancel_def Let_def b1_def)
  have "Get b' r = Some (ended_stream (br_backlogLimit b1) ?e now (length (as_Subscribers s)) ?s1)"
    using publish_end_Get [OF b'] by blast
  moreover have "set (br_canceledContexts b) \<subseteq> set (br_canceledContexts b')"
    using contexts_end [OF b'] by (auto simp: b1_def split: option.split)
  moreover have "core ?s1 = core (s\<lparr>as_ProviderActive := False\<rparr>)" "as_Phase ?s1 = as_Phase s"
    by (simp_all add: core_def stopTerminalCleanupTimerLocked_def)
  ultimately show ?thesis using c by (auto simp: ended_stream_frame)
qed

lemma discard_keeps:
  assumes "stream_of t = Some s"
  shows "\<exists>s'. stream_of (discardPendingCheckpoint t now) = Some s' \<and> core s' = core s \<and> as_Status s' = as_Status s"
    "tn_RequestID (discardPendingCheckpoint t now) = tn_RequestID t"
    "br_canceledContexts (tn_broker (discardPendingCheckpoint t now)) = br_canceledContexts (tn_broker t)"
  using assms by (auto simp: discardPendingCheckpoint_def clearStreamTimer_def Let_def)

lemma end_canceled_ends:
  assumes "stream w = Some s" "\<not> isTerminalStreamStatus (as_Status s)" "in_RequestID intent = request w"
  shows "\<exists>w' s'. end_canceled intent hc now w = (w', None) \<and> stream w' = Some s' \<and> as_Status s' = StreamStatusCanceled \<and>
     as_Phase s' = TurnPhaseCanceled \<and> core s' = core (s\<lparr>as_ProviderActive := False, as_PendingProviderCompletion := None,
       as_PendingProviderAction := providerActionNone\<rparr>) \<and> set (canceled_contexts w) \<subseteq> set (canceled_contexts w')"
proof -
  define t where "t = (if hc then discardPendingCheckpoint (w_turn w) now else w_turn w)"
  obtain s0 where s0: "stream_of t = Some s0" "core s0 = core s" "as_Status s0 = as_Status s"
    and t: "tn_RequestID t = request w" "br_canceledContexts (tn_broker t) = canceled_contexts w"
    using discard_keeps [OF assms(1), of now] assms(1) by (cases hc) (auto simp: t_def)
  define f :: "ActiveStream \<Rightarrow> ActiveStream" where "f s = s\<lparr>as_PendingProviderCompletion := None, as_PendingProviderAction := providerActionNone, as_UpdatedAt := now,
    as_Phase := TurnPhaseCanceled\<rparr>" for s
  define t4 where "t4 = setTurnPhase (upd (\<lambda>s. s\<lparr>as_PendingProviderAction := providerActionNone, as_UpdatedAt := now\<rparr>)
    (upd (\<lambda>s. s\<lparr>as_PendingProviderCompletion := None, as_UpdatedAt := now\<rparr>) t)) TurnPhaseCanceled now"
  have t4: "stream_of t4 = Some (f s0)" "tn_RequestID t4 = request w" "br_canceledContexts (tn_broker t4) = canceled_contexts w"
    using s0 t by (simp_all add: t4_def setTurnPhase_def f_def)
  have "\<not> isTerminalStreamStatus (as_Status (f s0))" using s0(3) assms(2) by (simp add: f_def)
  moreover have "as_Phase (f s0) = TurnPhaseCanceled" by (simp add: f_def)
  ultimately obtain b' s' where b': "Cancel (tn_broker t4) (tn_RequestID t4) (firstNonEmpty [in_CancelReason intent, ''[canceled] User aborted request'']) now = Inr b'"
    "Get b' (tn_RequestID t4) = Some s'" "as_Status s' = StreamStatusCanceled" "as_Phase s' = TurnPhaseCanceled"
    "core s' = core ((f s0)\<lparr>as_ProviderActive := False\<rparr>)" "set (br_canceledContexts (tn_broker t4)) \<subseteq> set (br_canceledContexts b')"
    using Cancel_running [OF t4(1) [unfolded stream_of_def],
        of "firstNonEmpty [in_CancelReason intent, ''[canceled] User aborted request'']" now] by metis
  have w4: "set_phase TurnPhaseCanceled now (on_stream (\<lambda>s. s\<lparr>as_PendingProviderAction := providerActionNone, as_UpdatedAt := now\<rparr>)
      (clearPendingProviderCompletion now (if hc then on_turn (\<lambda>t. discardPendingCheckpoint t now) w else w))) = w\<lparr>w_turn := t4\<rparr>"
    by (simp add: set_phase_def clearPendingProviderCompletion_def on_turn_def t4_def t_def)
  have "end_canceled intent hc now w = (w\<lparr>w_turn := t4\<lparr>tn_broker := b'\<rparr>\<rparr>, None)"
    using b'(1) t4(2) assms(3) unfolding end_canceled_def Let_def w4 by (simp add: lift_turn_def)
  moreover have "core ((f s0)\<lparr>as_ProviderActive := False\<rparr>) = core (s\<lparr>as_ProviderActive := False, as_PendingProviderCompletion := None,
       as_PendingProviderAction := providerActionNone\<rparr>)"
    using s0(2) by (simp add: f_def core_def)
  ultimately show ?thesis using b' t4 by (auto simp: stream_of_def)
qed


lemma provider_event_ignored:
  "stream w = Some s \<Longrightarrow> as_CurrentProviderToken s \<noteq> token \<Longrightarrow> handleProviderEvent env token payload now w = (w, None)"
  by (auto simp: handleProviderEvent_def providerTokenMatches_def)




end
