(* ===== verification/Shell_Recovery.thy ===== *)
theory Shell_Recovery
  imports Turn_Cancel
begin

text \<open>
  What happens to a command of the shell whose end is never reported (\<open>shell_recovery.go\<close>), to other tools
  whose transport is closed (\<open>service.go\<close>), and what the timers of a stream do (\<open>actor.go\<close>). A running
  command has a deadline; when it passes, the command is given up unless it has shown activity lately, in
  which case the deadline is moved. Reading \<open>block_until_ms\<close> from the arguments of a tool is a parameter
  (\<open>sh_block_ms\<close>: the number in whole milliseconds).
\<close>

record shell_env =
  sh_env :: env
  sh_block_ms :: "string \<Rightarrow> int option"

definition millisecond :: gtime where "millisecond = 1000000"
definition shellTerminalRecoveryGrace :: gtime where "shellTerminalRecoveryGrace = 1500 * millisecond"
definition shellDispatchRecoveryTimeout :: gtime where "shellDispatchRecoveryTimeout = 30000 * millisecond"
definition shellRecentActivityGrace :: gtime where "shellRecentActivityGrace = 30000 * millisecond"
definition shellRecoveryReasonDispatchDeadline :: string where "shellRecoveryReasonDispatchDeadline = ''dispatch_deadline_exceeded''"
definition shellRecoveryReasonForegroundDeadline :: string where "shellRecoveryReasonForegroundDeadline = ''foreground_deadline_exceeded''"
definition shellRecoveryReasonTransportClosed :: string where "shellRecoveryReasonTransportClosed = ''transport_closed_without_terminal''"
definition ShellApprovalStateAwaiting :: string where "ShellApprovalStateAwaiting = ''awaiting_shell_approval''"
definition ShellApprovalStateRunning :: string where "ShellApprovalStateRunning = ''running''"

text \<open>A duration is a 64-bit number of nanoseconds: the product wraps around.\<close>

definition shellForegroundTimeoutDuration :: "shell_env \<Rightarrow> string \<Rightarrow> gtime" where
  "shellForegroundTimeoutDuration she argsJSON =
     (case sh_block_ms she argsJSON of
        None \<Rightarrow> 30000 * millisecond
      | Some ms \<Rightarrow> if ms \<le> 0 then 0 else sint (word_of_int (ms * millisecond) :: 64 word))"

definition shellForegroundTimeoutMS :: "shell_env \<Rightarrow> string \<Rightarrow> int" where
  "shellForegroundTimeoutMS she argsJSON =
     (let d = shellForegroundTimeoutDuration she argsJSON in sgn d * (\<bar>d\<bar> div millisecond))"

abbreviation is_shell :: "PendingExec \<Rightarrow> bool" where
  "is_shell p \<equiv> TrimSpace (pe_ExecKind p) = ''shell''"

definition initializePendingExecForTracking :: "shell_env \<Rightarrow> gtime \<Rightarrow> PendingExec \<Rightarrow> PendingExec" where
  "initializePendingExecForTracking she now p =
     (if \<not> is_shell p then p
      else let p1 = (if pe_OpenedAt p = 0 then p\<lparr>pe_OpenedAt := now\<rparr> else p);
               p2 = (if pe_LastShellActivityAt p1 = 0 then p1\<lparr>pe_LastShellActivityAt := pe_OpenedAt p1\<rparr> else p1);
               p3 = (if pe_ShellApprovalState p2 = []
                     then p2\<lparr>pe_ShellApprovalState :=
                       (if TrimSpace (pe_StreamState p2) \<in> {''started'', ''streaming''} then ShellApprovalStateRunning
                        else ShellApprovalStateAwaiting)\<rparr> else p2)
           in if pe_ShellApprovalState p3 = ShellApprovalStateRunning \<and> pe_ShellForegroundDeadline p3 = 0
              then p3\<lparr>pe_ShellForegroundDeadline := pe_OpenedAt p3 + (shellForegroundTimeoutDuration she (pe_ArgsJSON p3) + shellTerminalRecoveryGrace)\<rparr>
              else p3)"

definition markShellRunning :: "shell_env \<Rightarrow> gtime \<Rightarrow> PendingExec \<Rightarrow> PendingExec" where
  "markShellRunning she now p =
     (if \<not> is_shell p then p
      else let p1 = p\<lparr>pe_ShellApprovalState := ShellApprovalStateRunning\<rparr>;
               p2 = (if pe_OpenedAt p1 = 0 then p1\<lparr>pe_OpenedAt := now\<rparr> else p1)
           in if pe_ShellForegroundDeadline p2 = 0
              then p2\<lparr>pe_ShellForegroundDeadline := pe_OpenedAt p2 + (shellForegroundTimeoutDuration she (pe_ArgsJSON p2) + shellTerminalRecoveryGrace)\<rparr>
              else p2)"

subsection \<open>Timers of a command\<close>

definition scheduleShellDispatchRecovery :: "PendingExec \<Rightarrow> gtime \<Rightarrow> turn \<Rightarrow> turn" where
  "scheduleShellDispatchRecovery p now t =
     (if \<not> is_shell p \<or> TrimSpace (pe_ExecID p) = [] \<or> pe_ShellApprovalState p \<noteq> ShellApprovalStateAwaiting then t
      else scheduleStreamTimer t (providerTimerKey streamTimerShellDispatch (pe_ExecID p)) streamTimerShellDispatch
             (pe_ExecID p) (pe_MessageID p) shellRecoveryReasonDispatchDeadline now)"

definition scheduleShellForegroundRecovery :: "PendingExec \<Rightarrow> gtime \<Rightarrow> turn \<Rightarrow> turn" where
  "scheduleShellForegroundRecovery p now t =
     (if \<not> is_shell p \<or> TrimSpace (pe_ExecID p) = [] \<or> pe_ShellApprovalState p \<noteq> ShellApprovalStateRunning then t
      else scheduleStreamTimer t (providerTimerKey streamTimerShellForeground (pe_ExecID p)) streamTimerShellForeground
             (pe_ExecID p) (pe_MessageID p) shellRecoveryReasonForegroundDeadline now)"

definition markShellRecoveryScheduled :: "string \<Rightarrow> gtime \<Rightarrow> turn \<Rightarrow> turn \<times> bool" where
  "markShellRecoveryScheduled execID now t =
     (case stream_of t of
        None \<Rightarrow> (t, False)
      | Some s \<Rightarrow>
          (case snapshotPendingExec s execID of
             None \<Rightarrow> (t, False)
           | Some p \<Rightarrow>
               (if \<not> is_shell p \<or> pe_ShellRecoveryScheduled p then (t, False)
                else (upd (\<lambda>s. s\<lparr>as_PendingExecs := AList.update (TrimSpace execID) (p\<lparr>pe_ShellRecoveryScheduled := True\<rparr>)
                        (as_PendingExecs s), as_UpdatedAt := now\<rparr>) t, True))))"

definition scheduleShellTransportCloseRecovery :: "PendingExec \<Rightarrow> gtime \<Rightarrow> turn \<Rightarrow> turn" where
  "scheduleShellTransportCloseRecovery p now t =
     (if \<not> is_shell p \<or> TrimSpace (pe_ExecID p) = [] then t
      else case markShellRecoveryScheduled (pe_ExecID p) now t of
             (t1, False) \<Rightarrow> t1
           | (t1, True) \<Rightarrow>
               scheduleStreamTimer t1 (providerTimerKey streamTimerShellTransportClose (pe_ExecID p)) streamTimerShellTransportClose
                 (pe_ExecID p) (pe_MessageID p) shellRecoveryReasonTransportClosed now)"

definition scheduleNonStreamingExecRecovery :: "PendingExec \<Rightarrow> gtime \<Rightarrow> turn \<Rightarrow> turn" where
  "scheduleNonStreamingExecRecovery p now t =
     (if TrimSpace (tn_RequestID t) = [] \<or> TrimSpace (pe_ExecID p) = [] then t
      else scheduleStreamTimer t (providerTimerKey streamTimerNonStreamingRecovery (pe_ExecID p)) streamTimerNonStreamingRecovery
             (pe_ExecID p) (pe_MessageID p) [] now)"

subsection \<open>Giving up\<close>

fun join_texts :: "string \<Rightarrow> string list \<Rightarrow> string" where
  "join_texts sep [] = []"
| "join_texts sep [x] = x"
| "join_texts sep (x # xs) = x @ sep @ join_texts sep xs"

abbreviation newline :: string where "newline \<equiv> [CHR 0x0A]"

definition summarizeCapturedShellOutput :: "string \<Rightarrow> string \<Rightarrow> string" where
  "summarizeCapturedShellOutput stdout stderr =
     (let out = TrimSpace stdout; err = TrimSpace stderr
      in join_texts (newline @ newline)
           ((if out = [] then [] else [out]) @
            (if err = [] then []
             else if out = [] then [err] else [''<stderr>'' @ newline @ err @ newline @ ''</stderr>''])))"

definition buildSyntheticShellResultPayload :: "shell_env \<Rightarrow> PendingExec \<Rightarrow> string \<Rightarrow> string" where
  "buildSyntheticShellResultPayload she p reason =
     (let captured = summarizeCapturedShellOutput (pe_StdoutBuffer p) (pe_StderrBuffer p);
          why = (if TrimSpace reason = shellRecoveryReasonTransportClosed
                 then ''The shell transport closed before a terminal event arrived.''
                 else if TrimSpace reason = shellRecoveryReasonDispatchDeadline
                 then ''The client did not acknowledge the shell dispatch within '' @ show_int (shellDispatchRecoveryTimeout div millisecond) @ ''ms.''
                 else if TrimSpace reason = shellRecoveryReasonForegroundDeadline
                 then ''The foreground wait window expired after '' @ show_int (shellForegroundTimeoutMS she (pe_ArgsJSON p)) @
                      ''ms without a terminal event.''
                 else ''The shell stream stopped progressing before a terminal event arrived.'');
          note_text = join_texts newline [''<shell-incomplete>'',
            ''Missing terminal shell stream event (expected exit or backgrounded).'', why,
            ''The command may still be running in the Cursor app client.'', ''</shell-incomplete>'']
      in join_texts (newline @ newline) ((if captured = [] then [] else [captured]) @ [note_text]))"

definition deriveToolNameFromPendingExec :: "PendingExec \<Rightarrow> string" where
  "deriveToolNameFromPendingExec p =
     (case map_of [(''read'', ''Read''), (''write'', ''Write''), (''delete'', ''Delete''), (''glob'', ''Glob''), (''grep'', ''Grep''),
         (''diagnostics'', ''ReadLints''), (''ls'', ''Ls''), (''mcp'', ''CallMcpTool''), (''list_mcp_resources'', ''ListMcpResources''),
         (''read_mcp_resource'', ''FetchMcpResource''), (''shell'', ''Shell''), (''await_shell'', ''AwaitShell''),
         (''write_shell_stdin'', ''WriteShellStdin''), (''force_background_shell'', ''ForceBackgroundShell''), (''subagent'', ''Task'')]
         (TrimSpace (pe_ExecKind p)) of
        None \<Rightarrow> [] | Some name \<Rightarrow> name)"

definition json_time :: "gtime \<Rightarrow> json" where
  "json_time at = JStr (if at = 0 then ''0001-01-01T00:00:00Z'' else format_RFC3339Nano at)"

text \<open>What every recovery does after it has recorded the result.\<close>

definition close_exec :: "env \<Rightarrow> PendingExec \<Rightarrow> gtime \<Rightarrow> world \<Rightarrow> turn_result" where
  "close_exec env p now w =
     and_then (syncSummaryCarryForward (en_dc env) w (request w) (pe_ModelCallID p) now)
       (\<lambda>w1. and_then (publishToolCallCompleted (pe_ToolCallID p) (pe_ModelCallID p) None now w1)
         (\<lambda>w2. and_then (publishCheckpoint env now w2) (reconcileStream env now)))"

definition append_metadata :: "env \<Rightarrow> string \<Rightarrow> (string \<times> json) list \<Rightarrow> gtime \<Rightarrow> world \<Rightarrow> turn_result" where
  "append_metadata env event members now w =
     (case stream w of
        None \<Rightarrow> (w, None)
      | Some s \<Rightarrow> append_entries env (as_ConversationID s) [newMetadataEntry (as_TurnSeq s) (as_RequestID s) event members] now w)"

abbreviation exec_members :: "PendingExec \<Rightarrow> (string \<times> json) list" where
  "exec_members p \<equiv> [(''tool_call_id'', JStr (pe_ToolCallID p)), (''message_id'', JNum (uint (pe_MessageID p))),
     (''exec_id'', JStr (pe_ExecID p)), (''exec_kind'', JStr (pe_ExecKind p))]"

definition failUnacknowledgedShellDispatch :: "env \<Rightarrow> PendingExec \<Rightarrow> gtime \<Rightarrow> world \<Rightarrow> turn_result" where
  "failUnacknowledgedShellDispatch env p now w =
     (let message = ''shell dispatch was not acknowledged by the Cursor client within '' @
            show_int (shellDispatchRecoveryTimeout div millisecond) @ ''ms''
      in and_then (append_metadata env ''dispatch_unacknowledged'' (exec_members p @
            [(''approval_state'', JStr (pe_ShellApprovalState p)), (''recent_stream_state'', JStr (pe_StreamState p)),
             (''timeout_ms'', JNum (shellDispatchRecoveryTimeout div millisecond)), (''error'', JStr message)]) now
            (on_stream (markExecCompleted p now) w))
           (\<lambda>w1. failStream env ''shell_dispatch_unacknowledged'' (OtherError message) now (set_phase TurnPhaseFailed now w1)))"

definition recoverShellWithoutTerminal :: "shell_env \<Rightarrow> PendingExec \<Rightarrow> string \<Rightarrow> gtime \<Rightarrow> world \<Rightarrow> turn_result" where
  "recoverShellWithoutTerminal she p reason now w =
     (let env = sh_env she
      in if reason = shellRecoveryReasonDispatchDeadline then failUnacknowledgedShellDispatch env p now w
         else and_then (appendToolResult env (pe_ToolCallID p) (deriveToolNameFromPendingExec p) (pe_ArgsJSON p)
                          (buildSyntheticShellResultPayload she p reason) (pe_ReasoningContent p) RawEmpty now
                          (on_stream (markExecCompleted p now) w))
                (\<lambda>w1. and_then (append_metadata env ''shell_stream_stalled'' (exec_members p @
                    [(''approval_state'', JStr (pe_ShellApprovalState p)), (''reason'', JStr (TrimSpace reason)),
                     (''recent_stream_state'', JStr (pe_StreamState p)), (''chunk_count'', JNum (pe_ChunkCount p)),
                     (''first_chunk_at'', json_time (pe_FirstChunkAt p)), (''last_activity_at'', json_time (pe_LastShellActivityAt p)),
                     (''last_heartbeat_at'', json_time (pe_LastShellHeartbeatAt p)),
                     (''foreground_deadline'', json_time (pe_ShellForegroundDeadline p)),
                     (''timeout_ms'', JNum (shellForegroundTimeoutMS she (pe_ArgsJSON p))),
                     (''stdout_buffer_bytes'', JNum (int (length (pe_StdoutBuffer p)))),
                     (''stderr_buffer_bytes'', JNum (int (length (pe_StderrBuffer p)))),
                     (''shell_recovery_scheduled'', JBool True)]) now w1)
                  (close_exec env p now)))"

definition extendShellForegroundRecovery :: "PendingExec \<Rightarrow> gtime \<Rightarrow> gtime \<Rightarrow> turn \<Rightarrow> turn" where
  "extendShellForegroundRecovery p deadline now t =
     (case stream_of t of
        None \<Rightarrow> t
      | Some s \<Rightarrow>
          (case map_of (as_PendingExecs s) (pe_ExecID p) of
             None \<Rightarrow> t
           | Some current \<Rightarrow>
               let c = current\<lparr>pe_ShellForegroundDeadline := deadline\<rparr>
               in scheduleShellForegroundRecovery c now
                    (upd (\<lambda>s. s\<lparr>as_PendingExecs := AList.update (pe_ExecID p) c (as_PendingExecs s), as_UpdatedAt := now\<rparr>) t)))"

definition recoverShellWithoutTerminalIfNeeded ::
  "shell_env \<Rightarrow> string \<Rightarrow> u32 \<Rightarrow> string \<Rightarrow> gtime \<Rightarrow> world \<Rightarrow> turn_result" where
  "recoverShellWithoutTerminalIfNeeded she execID messageID reason now w =
     (case stream w of
        None \<Rightarrow> (w, None)
      | Some s \<Rightarrow>
          (case snapshotPendingExec s execID of
             None \<Rightarrow> (w, None)
           | Some p \<Rightarrow>
               if pe_MessageID p \<noteq> messageID \<or> \<not> is_shell p \<or> isTerminalStreamStatus (as_Status s) then (w, None)
               else if reason \<noteq> shellRecoveryReasonDispatchDeadline \<and> pe_ShellApprovalState p \<noteq> ShellApprovalStateRunning then (w, None)
               else if TrimSpace (pe_StreamState p) \<in> {''exited'', ''backgrounded'', ''rejected'', ''permission_denied''} then (w, None)
               else if reason = shellRecoveryReasonDispatchDeadline \<and> pe_ShellApprovalState p \<noteq> ShellApprovalStateAwaiting then (w, None)
               else if reason = shellRecoveryReasonForegroundDeadline \<and> pe_ShellForegroundDeadline p \<noteq> 0 \<and>
                       now < pe_ShellForegroundDeadline p then (w, None)
               else if reason = shellRecoveryReasonForegroundDeadline \<and> now < pe_LastShellActivityAt p + shellRecentActivityGrace
               then (on_turn (extendShellForegroundRecovery p (pe_LastShellActivityAt p + shellRecentActivityGrace) now) w, None)
               else recoverShellWithoutTerminal she p reason now w))"

definition recoverNonStreamingExecAfterStreamClose :: "env \<Rightarrow> PendingExec \<Rightarrow> gtime \<Rightarrow> world \<Rightarrow> turn_result" where
  "recoverNonStreamingExecAfterStreamClose env p now w =
     (let toolName = TrimSpace (deriveToolNameFromPendingExec p);
          payload = firstNonEmpty [toolName, pe_ExecKind p, ''tool''] @ '' transport closed before terminal result arrived'';
          w0 = on_stream (markExecCompleted p now) w
      in and_then (if toolName = [] then (w0, None)
                   else appendToolResult env (pe_ToolCallID p) toolName (pe_ArgsJSON p) payload (pe_ReasoningContent p) RawEmpty now w0)
           (\<lambda>w1. and_then (append_metadata env ''tool_transport_closed'' (exec_members p @ [(''payload'', JStr payload)]) now w1)
             (close_exec env p now)))"

subsection \<open>What a timer does\<close>

definition handleTimerEvent :: "shell_env \<Rightarrow> streamTimerEvent \<Rightarrow> gtime \<Rightarrow> world \<Rightarrow> turn_result" where
  "handleTimerEvent she e now w0 =
     (if \<not> timerEventMatches (w_turn w0) e then (w0, None)
      else let w = on_turn (\<lambda>t. clearStreamTimer t (te_Key e) now) w0
           in case stream w of
                None \<Rightarrow> (w, None)
              | Some s \<Rightarrow>
                  (case te_Kind e of
                     streamTimerProviderResume \<Rightarrow>
                       (if as_ProviderActive s \<or> isTerminalStreamStatus (as_Status s) \<or>
                           as_PendingProviderAction s \<noteq> providerActionResume \<or> 0 < pendingBridgeCount s then (w, None)
                        else driveProvider (sh_env she) now w)
                   | streamTimerNonStreamingRecovery \<Rightarrow>
                       (case snapshotPendingExec s (te_ExecID e) of
                          None \<Rightarrow> (w, None)
                        | Some p \<Rightarrow>
                            if pe_MessageID p \<noteq> te_MessageID e \<or> pe_StreamState p \<noteq> ''transport_closed'' then (w, None)
                            else recoverNonStreamingExecAfterStreamClose (sh_env she) p now w)
                   | streamTimerShellDispatch \<Rightarrow>
                       recoverShellWithoutTerminalIfNeeded she (te_ExecID e) (te_MessageID e) shellRecoveryReasonDispatchDeadline now w
                   | streamTimerShellForeground \<Rightarrow>
                       recoverShellWithoutTerminalIfNeeded she (te_ExecID e) (te_MessageID e) shellRecoveryReasonForegroundDeadline now w
                   | streamTimerShellTransportClose \<Rightarrow>
                       (case snapshotPendingExec s (te_ExecID e) of
                          None \<Rightarrow> (w, None)
                        | Some p \<Rightarrow>
                            if pe_MessageID p \<noteq> te_MessageID e \<or> pe_StreamState p \<noteq> ''transport_closed'' \<or>
                               isTerminalStreamStatus (as_Status s) then (w, None)
                            else recoverShellWithoutTerminal she p shellRecoveryReasonTransportClosed now w)
                   | streamTimerCheckpointBlobs \<Rightarrow> lift_turn (\<lambda>t. handleCheckpointBlobTimeout t now) w
                   | streamTimerOrphanCancel \<Rightarrow>
                       (if as_Subscribers s \<noteq> [] \<or> isTerminalStreamStatus (as_Status s) then (w, None)
                        else handleCancelIntent (sh_env she)
                               (no_intent\<lparr>in_Kind := ''cancel'', in_RequestID := request w,
                                  in_CancelReason := firstNonEmpty [te_Reason e, ''[canceled] RunSSE client disconnected'']\<rparr>) now w)))"

text \<open>The last subscriber has gone: the turn is canceled unless one comes back in time.\<close>

definition handle_maybe_orphaned :: "string \<Rightarrow> gtime \<Rightarrow> world \<Rightarrow> world" where
  "handle_maybe_orphaned reason now w =
     (case stream w of
        None \<Rightarrow> w
      | Some s \<Rightarrow>
          if as_Subscribers s \<noteq> [] \<or> isTerminalStreamStatus (as_Status s) then w
          else on_turn (\<lambda>t. scheduleStreamTimer t (providerTimerKey streamTimerOrphanCancel []) streamTimerOrphanCancel [] 0 reason now) w)"

definition scheduleOrphanCancelActor :: "StreamBroker \<Rightarrow> string \<Rightarrow> string \<Rightarrow> string option" where
  "scheduleOrphanCancelActor b requestID reason =
     (case Get b requestID of
        None \<Rightarrow> None
      | Some s \<Rightarrow>
          if TrimSpace (as_ConversationID s) = [] \<and> \<not> as_ProviderActive s \<and> as_PendingExecs s = [] \<and>
             as_PendingInteractions s = [] \<and> as_Backlog s = [] \<or> isTerminalStreamStatus (as_Status s)
          then None
          else Some (firstNonEmpty [TrimSpace reason, ''[canceled] RunSSE client disconnected'']))"

subsection \<open>Old timers\<close>

lemma timer_token_bump [simp]: "timer_token (bump_token key now s) k = (if k = key then timer_token s key + 1 else timer_token s k)"
  by (simp add: timer_token_def bump_token_def map_of_update_gomap)

lemma matches_after_schedule:
  assumes "stream_of t = Some s" "TrimSpace key \<noteq> []" "te_Key e = key"
  shows "timerEventMatches (scheduleStreamTimer t key kind x i r now) e \<longleftrightarrow> te_Token e = timer_token s key + 1"
  using assms by (auto simp: scheduleStreamTimer_def timerEventMatches_def)

text \<open>
  C39. Scheduling a timer again supersedes the earlier timer of the same key, which is ignored when it fires;
  but a new run of the same request forgets the tokens of the timers, and the first timer of the run before is
  then taken for the first timer of the new run.
\<close>
theorem old_timer_heard_by_new_run:
  assumes "stream_of t = Some s" "TrimSpace key \<noteq> []" "timer_token s key = 0"
    and "t1 = scheduleStreamTimer t key kind x i r n1"
  shows "\<exists>e. tn_timers t1 = tn_timers t @ [e] \<and> timerEventMatches t1 e \<and>
    \<not> timerEventMatches (scheduleStreamTimer t1 key kind' x' i' r' n3) e \<and>
    \<not> timerEventMatches (upd (reset_for_run n2) t1) e \<and>
    timerEventMatches (scheduleStreamTimer (upd (reset_for_run n2) t1) key kind' x' i' r' n3) e"
proof -
  define e where "e = \<lparr>te_Key = key, te_Kind = kind, te_Token = 1, te_ExecID = TrimSpace x, te_MessageID = i, te_Reason = TrimSpace r\<rparr>"
  have s1: "stream_of t1 = Some (bump_token key n1 s)" and tm: "tn_timers t1 = tn_timers t @ [e]"
    using assms by (simp_all add: scheduleStreamTimer_def e_def)
  let ?s2 = "reset_for_run n2 (bump_token key n1 s)"
  have s2: "stream_of (upd (reset_for_run n2) t1) = Some ?s2" using s1 by simp
  have z: "timer_token ?s2 key = 0" by (simp add: reset_for_run_def timer_token_def)
  have k: "te_Key e = key" "te_Token e = 1" by (simp_all add: e_def)
  have "timerEventMatches t1 e" using s1 assms(2,3) k by (simp add: timerEventMatches_def)
  moreover have "\<not> timerEventMatches (scheduleStreamTimer t1 key kind' x' i' r' n3) e"
    using matches_after_schedule [OF s1 assms(2) k(1)] assms(3) k(2) by simp
  moreover have "\<not> timerEventMatches (upd (reset_for_run n2) t1) e"
    using s1 z k by (simp add: timerEventMatches_def)
  moreover have "timerEventMatches (scheduleStreamTimer (upd (reset_for_run n2) t1) key kind' x' i' r' n3) e"
    using matches_after_schedule [OF s2 assms(2) k(1)] z k(2) by simp
  ultimately show ?thesis using tm by blast
qed

text \<open>The timer of a checkpoint whose blobs the client does not confirm.\<close>

theorem old_timer_heard_by_new_run_witness:
  "\<exists>e. timerEventMatches (scheduleStreamTimer (upd (reset_for_run 2) (scheduleStreamTimer demo_turn checkpoint_timer
     streamTimerCheckpointBlobs [] 0 [] 1)) checkpoint_timer streamTimerCheckpointBlobs [] 0 [] 3) e"
proof -
  let ?s = "fresh_stream ''r'' ''c'' 1 ''m'' ''m'' AGENT_MODE_AGENT ''hi'' 0"
  have "stream_of demo_turn = Some ?s" by (simp add: demo_turn_def stream_of_def)
  moreover have "TrimSpace checkpoint_timer \<noteq> []" by code_simp
  moreover have "timer_token ?s checkpoint_timer = 0" by (simp add: timer_token_def fresh_stream_def)
  ultimately show ?thesis using old_timer_heard_by_new_run [OF _ _ _ refl] by blast
qed

subsection \<open>Commands that are still active\<close>

lemma clear_keeps:
  assumes "stream_of t = Some s"
  shows "\<exists>s'. stream_of (clearStreamTimer t key now) = Some s' \<and> as_PendingExecs s' = as_PendingExecs s \<and> as_Status s' = as_Status s"
  using assms by (auto simp: clearStreamTimer_def bump_token_def Let_def)

lemma extend_watches:
  assumes "stream_of t = Some s" "map_of (as_PendingExecs s) (pe_ExecID p) = Some p" "TrimSpace (pe_ExecID p) = pe_ExecID p" "pe_ExecID p \<noteq> []"
    and "is_shell p" "pe_ShellApprovalState p = ShellApprovalStateRunning"
    and k: "TrimSpace (providerTimerKey streamTimerShellForeground (pe_ExecID p)) \<noteq> []"
  shows "\<exists>s' e'. stream_of (extendShellForegroundRecovery p d now t) = Some s' \<and> as_Status s' = as_Status s \<and>
    map_of (as_PendingExecs s') (pe_ExecID p) = Some (p\<lparr>pe_ShellForegroundDeadline := d\<rparr>) \<and>
    e' \<in> set (tn_timers (extendShellForegroundRecovery p d now t)) \<and> te_Kind e' = streamTimerShellForeground \<and>
    te_ExecID e' = pe_ExecID p \<and> te_MessageID e' = pe_MessageID p \<and> timerEventMatches (extendShellForegroundRecovery p d now t) e'"
proof -
  let ?key = "providerTimerKey streamTimerShellForeground (pe_ExecID p)" and ?c = "p\<lparr>pe_ShellForegroundDeadline := d\<rparr>"
  define t1 where "t1 = upd (\<lambda>s. s\<lparr>as_PendingExecs := AList.update (pe_ExecID p) ?c (as_PendingExecs s), as_UpdatedAt := now\<rparr>) t"
  define s1 where "s1 = s\<lparr>as_PendingExecs := AList.update (pe_ExecID p) ?c (as_PendingExecs s), as_UpdatedAt := now\<rparr>"
  have s1: "stream_of t1 = Some s1" using assms(1) by (simp add: t1_def s1_def)
  let ?e = "\<lparr>te_Key = ?key, te_Kind = streamTimerShellForeground, te_Token = timer_token s1 ?key + 1, te_ExecID = TrimSpace (pe_ExecID p),
    te_MessageID = pe_MessageID p, te_Reason = TrimSpace shellRecoveryReasonForegroundDeadline\<rparr>"
  have x: "extendShellForegroundRecovery p d now t = scheduleStreamTimer t1 ?key streamTimerShellForeground (pe_ExecID p) (pe_MessageID p)
      shellRecoveryReasonForegroundDeadline now"
    using assms by (simp add: extendShellForegroundRecovery_def scheduleShellForegroundRecovery_def Let_def t1_def)
  have "stream_of (extendShellForegroundRecovery p d now t) = Some (bump_token ?key now s1)"
    "tn_timers (extendShellForegroundRecovery p d now t) = tn_timers t1 @ [?e]"
    using s1 k unfolding x by (simp_all add: scheduleStreamTimer_def)
  moreover have "timerEventMatches (extendShellForegroundRecovery p d now t) ?e"
    unfolding x using matches_after_schedule [OF s1 k, of ?e] by simp
  moreover have "as_Status (bump_token ?key now s1) = as_Status s"
    "map_of (as_PendingExecs (bump_token ?key now s1)) (pe_ExecID p) = Some ?c"
    by (simp_all add: bump_token_def s1_def map_of_update_gomap)
  ultimately show ?thesis using assms(3) by (intro exI [of _ "bump_token ?key now s1"] exI [of _ ?e]) simp
qed



definition demo_shell :: PendingExec where
  "demo_shell = \<lparr>pe_MessageID = 7, pe_ExecID = ''x'', pe_ProviderPass = 1, pe_ModelCallID = ''mc'', pe_ToolCallID = ''tc'', pe_ArgsJSON = [],
     pe_ReasoningContent = [], pe_ReasoningSignature = [], pe_ReasoningSignatureSource = [], pe_ExecKind = ''shell'',
     pe_StreamState = ''streaming'', pe_ShellApprovalState = ShellApprovalStateRunning, pe_OpenedAt = 1, pe_FirstChunkAt = 2,
     pe_ChunkCount = 1, pe_LastShellActivityAt = 5, pe_LastShellHeartbeatAt = 0, pe_ShellForegroundDeadline = 6,
     pe_ShellRecoveryScheduled = False, pe_StdoutBuffer = [], pe_StderrBuffer = []\<rparr>"

definition demo_shell_world :: world where
  "demo_shell_world = on_stream (\<lambda>s. s\<lparr>as_PendingExecs := [(''x'', demo_shell)], as_TimerTokens := [(''shell_foreground:x'', 1)]\<rparr>) demo_running"


end
