(* ===== verification/Run_SSE.thy ===== *)
theory Run_SSE
  imports Stream_Broker
begin

text \<open>
  The server side of a client's event stream, \<open>RunSSE\<close> of \<open>service.go\<close>: it subscribes to a request,
  sends every event of the backlog, acknowledges it, waits for the subscriber's signal and sends a
  heartbeat when nothing happens. One run of the handler is a state machine whose steps interleave
  with everything else that happens to the stream.
\<close>

subsection \<open>The error a client sees\<close>

datatype connect_code =
    CodeCanceled | CodeInvalidArgument | CodeFailedPrecondition | CodeUnavailable | CodeUnknown | CodeInternal

datatype error_kind = ERROR_PROVIDER_ERROR | ERROR_CUSTOM_MESSAGE

text \<open>A Connect error: code and cause, and the attached details (kind, title, detail, expected).\<close>

record connect_error =
  ce_Code :: connect_code
  ce_Cause :: string
  ce_Details :: "(error_kind \<times> string \<times> string \<times> bool) option"

definition plain_error :: "connect_code \<Rightarrow> string \<Rightarrow> connect_error" where
  "plain_error code cause = \<lparr>ce_Code = code, ce_Cause = cause, ce_Details = None\<rparr>"

definition buildRunSSEStructuredErrorWithDetail ::
  "connect_code \<Rightarrow> string \<Rightarrow> string \<Rightarrow> string option \<Rightarrow> error_kind \<Rightarrow> bool \<Rightarrow> connect_error" where
  "buildRunSSEStructuredErrorWithDetail code title detailText cause kind expected =
     (let cause1 = (case cause of None \<Rightarrow> ''unknown RunSSE error'' | Some c \<Rightarrow> c);
          detail = (if TrimSpace detailText = [] then cause1 else TrimSpace detailText)
      in \<lparr>ce_Code = code, ce_Cause = cause1, ce_Details = Some (kind, TrimSpace title, detail, expected)\<rparr>)"

definition buildRunSSECustomError :: "connect_code \<Rightarrow> string \<Rightarrow> string option \<Rightarrow> connect_error" where
  "buildRunSSECustomError code title cause =
     buildRunSSEStructuredErrorWithDetail code title [] cause ERROR_CUSTOM_MESSAGE False"

definition buildRunSSEProviderError :: "string option \<Rightarrow> connect_error" where
  "buildRunSSEProviderError cause =
     buildRunSSEStructuredErrorWithDetail CodeUnavailable ''Server Error'' [] cause ERROR_PROVIDER_ERROR False"

definition compactionOverflowTerminalCode :: string where
  "compactionOverflowTerminalCode = ''context_overflow_after_compaction''"

definition buildTerminalStreamError :: "StreamEvent \<Rightarrow> connect_error option" where
  "buildTerminalStreamError event =
     (if \<not> ev_End event then None
      else let code = ToLower (TrimSpace (ev_TerminalErrorCode event));
               msg = TrimSpace (ev_TerminalErrorMessage event)
           in if code = [] then None
              else if code = ''canceled'' then Some (plain_error CodeCanceled msg)
              else if code = ''invalid_argument'' then Some (plain_error CodeInvalidArgument msg)
              else if code = ''failed_precondition'' then Some (plain_error CodeFailedPrecondition msg)
              else if code = compactionOverflowTerminalCode
              then Some (buildRunSSECustomError CodeInvalidArgument ''Context Too Large After Compaction'' (Some msg))
              else if code = ''provider_error'' then Some (buildRunSSEProviderError (Some msg))
              else Some (plain_error CodeUnknown msg))"

subsection \<open>The handler\<close>

text \<open>How a run ends: after an end event, with a failed send, because the client left (with the error
  of an end event it did not get any more, if there is one), or because the stream is gone.\<close>

datatype sse_end =
    EndTerminal "connect_error option"
  | EndSendFailed
  | EndClientGone "connect_error option"
  | EndReadError

text \<open>
  The points at which the handler can be interleaved with others: before it reads, between the events
  of a batch it has read, in the \<open>select\<close>, and after a tick of the heartbeat timer.
\<close>

datatype sse_pc = SseRead | SseBatch "StreamEvent list" | SseWait | SseTick | SseDone sse_end

text \<open>
  \<open>sx_log\<close> is a ghost: the events the stream has accepted since it was opened. \<open>sx_sent\<close> is what the
  client has received.
\<close>

record sse_sys =
  sx_log :: "StreamEvent list"
  sx_stream :: ActiveStream
  sx_sub :: string
  sx_cursor :: int
  sx_pc :: sse_pc
  sx_sent :: "server_message list"

definition sse_connect :: "string \<Rightarrow> gtime \<Rightarrow> StreamEvent list \<Rightarrow> ActiveStream \<Rightarrow> sse_sys" where
  "sse_connect k now L s =
     \<lparr>sx_log = L, sx_stream = attach_stream k now s, sx_sub = k, sx_cursor = 0, sx_pc = SseRead, sx_sent = []\<rparr>"

definition sse_read :: "sse_sys \<Rightarrow> sse_sys" where
  "sse_read y =
     (let backlog = read_stream (sx_stream y) (sx_cursor y)
      in y\<lparr>sx_pc := (if backlog \<noteq> [] then SseBatch backlog else SseWait)\<rparr>)"

definition event_messages :: "StreamEvent \<Rightarrow> server_message list" where
  "event_messages e = (case ev_Message e of None \<Rightarrow> [] | Some m \<Rightarrow> [m])"

text \<open>One event of the batch: send it, count it, acknowledge it (ignoring a refusal), stop at an end.\<close>

definition sse_deliver :: "StreamEvent \<Rightarrow> StreamEvent list \<Rightarrow> gtime \<Rightarrow> sse_sys \<Rightarrow> sse_sys" where
  "sse_deliver e es now y =
     (let cursor = sx_cursor y + 1
      in y\<lparr>sx_sent := sx_sent y @ event_messages e, sx_cursor := cursor,
           sx_stream := (case acknowledge_stream (sx_stream y) (sx_sub y) cursor now of Inl _ \<Rightarrow> sx_stream y | Inr t \<Rightarrow> t),
           sx_pc := (if ev_End e then SseDone (EndTerminal (buildTerminalStreamError e))
                     else if es = [] then SseRead else SseBatch es)\<rparr>)"

definition sub_of :: "ActiveStream \<Rightarrow> string \<Rightarrow> StreamSubscriber option" where
  "sub_of s k = map_of (as_Subscribers s) (TrimSpace k)"

text \<open>Receiving from the signal channel empties it.\<close>

definition take_signal :: "ActiveStream \<Rightarrow> string \<Rightarrow> ActiveStream" where
  "take_signal s k =
     (case sub_of s k of
        None \<Rightarrow> s
      | Some sub \<Rightarrow> s\<lparr>as_Subscribers := AList.update (TrimSpace k) (sub\<lparr>sub_Signal := False\<rparr>) (as_Subscribers s)\<rparr>)"

text \<open>The client's context is done: look for an end event that was not delivered.\<close>

definition sse_context_done :: "sse_sys \<Rightarrow> sse_end" where
  "sse_context_done y =
     (case List.find ev_End (read_stream (sx_stream y) (sx_cursor y)) of
        None \<Rightarrow> EndClientGone None
      | Some e \<Rightarrow> EndClientGone (buildTerminalStreamError e))"

definition sse_tick :: "sse_sys \<Rightarrow> sse_sys" where
  "sse_tick y =
     (if read_stream (sx_stream y) (sx_cursor y) \<noteq> [] then y\<lparr>sx_pc := SseRead\<rparr>
      else y\<lparr>sx_sent := sx_sent y @ [buildHeartbeatMessage], sx_pc := SseRead\<rparr>)"

text \<open>What others do to the stream: anything but acting for this subscriber.\<close>

fun foreign_op :: "string \<Rightarrow> stream_op \<Rightarrow> bool" where
  "foreign_op k (DoAck j c now) = (TrimSpace j \<noteq> TrimSpace k)"
| "foreign_op k (DoAttach j now) = (j \<noteq> TrimSpace k)"
| "foreign_op k (DoDetach j) = (TrimSpace j \<noteq> TrimSpace k)"
| "foreign_op k p = True"

definition log_after :: "stream_op \<Rightarrow> StreamEvent list \<Rightarrow> ActiveStream \<Rightarrow> StreamEvent list" where
  "log_after p L s = (case p of DoPublish e now \<Rightarrow> if accepts_event e s then L @ [e] else L | _ \<Rightarrow> L)"

inductive sse_step :: "int \<Rightarrow> sse_sys \<Rightarrow> sse_sys \<Rightarrow> bool" for limit :: int where
  others: "foreign_op (sx_sub y) p \<Longrightarrow>
    sse_step limit y (y\<lparr>sx_log := log_after p (sx_log y) (sx_stream y), sx_stream := apply_stream_op limit p (sx_stream y)\<rparr>)"
| reads: "sx_pc y = SseRead \<Longrightarrow> sse_step limit y (sse_read y)"
| read_fails: "sx_pc y = SseRead \<or> sx_pc y = SseTick \<Longrightarrow> sse_step limit y (y\<lparr>sx_pc := SseDone EndReadError\<rparr>)"
| delivers: "sx_pc y = SseBatch (e # es) \<Longrightarrow> sse_step limit y (sse_deliver e es now y)"
| send_fails: "sx_pc y = SseBatch (e # es) \<and> ev_Message e \<noteq> None \<or> sx_pc y = SseTick \<Longrightarrow>
    sse_step limit y (y\<lparr>sx_pc := SseDone EndSendFailed\<rparr>)"
| wakes: "sx_pc y = SseWait \<Longrightarrow> sub_of (sx_stream y) (sx_sub y) = Some sub \<Longrightarrow> sub_Signal sub \<Longrightarrow>
    sse_step limit y (y\<lparr>sx_stream := take_signal (sx_stream y) (sx_sub y), sx_pc := SseRead\<rparr>)"
| context_done: "sx_pc y = SseWait \<Longrightarrow> sse_step limit y (y\<lparr>sx_pc := SseDone (sse_context_done y)\<rparr>)"
| timer: "sx_pc y = SseWait \<Longrightarrow> sse_step limit y (y\<lparr>sx_pc := SseTick\<rparr>)"
| ticks: "sx_pc y = SseTick \<Longrightarrow> sse_step limit y (sse_tick y)"

text \<open>A first connection: the stream still holds its whole log.\<close>

inductive sse_start :: "sse_sys \<Rightarrow> bool" where
  connect: "log_repr L s \<Longrightarrow> as_BacklogBaseCursor s = 0 \<Longrightarrow> TrimSpace k = k \<Longrightarrow>
    sse_start (sse_connect k now L s)"

subsection \<open>What the client gets\<close>

lemma cursor_of_sub: "cursor_of s k = map_option sub_Cursor (sub_of s k)"
  by (simp add: cursor_of_def sub_of_def)

lemma sub_of_trim [simp]: "sub_of (trimAcknowledgedBacklogLocked s now) k = sub_of s k"
  by (simp add: sub_of_def)

lemma sub_of_acknowledge_other:
  "acknowledge_stream s j c now = Inr t \<Longrightarrow> TrimSpace j \<noteq> TrimSpace k \<Longrightarrow> sub_of t k = sub_of s k"
  by (auto simp: acknowledge_stream_def sub_of_def map_of_update_gomap split: option.splits if_splits)

lemma sub_of_publish:
  "sub_of (publish_stream limit e now s) k =
     (if accepts_event e s then map_option (\<lambda>sub. sub\<lparr>sub_Signal := True\<rparr>) (sub_of s k) else sub_of s k)"
  by (simp add: publish_stream_def accepts_event_def sub_of_def Let_def map_of_map_snd)

lemma sub_of_foreign:
  assumes "foreign_op k p"
  shows "sub_of (apply_stream_op limit p s) k =
    (case p of DoPublish e now \<Rightarrow> if accepts_event e s then map_option (\<lambda>sub. sub\<lparr>sub_Signal := True\<rparr>) (sub_of s k) else sub_of s k
     | _ \<Rightarrow> sub_of s k)"
proof (cases p)
  case (DoAck j c now)
  with assms sub_of_acknowledge_other show ?thesis by (auto split: sum.splits)
next
  case (DoAttach j now)
  with assms show ?thesis
    by (simp add: attach_stream_def sub_of_def stopTerminalCleanupTimerLocked_def Let_def map_of_update_gomap)
next
  case (DoDetach j)
  with assms show ?thesis by (simp add: detach_stream_def sub_of_def map_of_delete_gomap)
qed (simp_all add: sub_of_publish, simp_all add: sub_of_def stopTerminalCleanupTimerLocked_def)

definition log_messages :: "StreamEvent list \<Rightarrow> server_message list" where
  "log_messages es = concat (map event_messages es)"

text \<open>Messages that are not the heartbeats the handler adds.\<close>

definition content :: "server_message list \<Rightarrow> server_message list" where
  "content ms = filter (\<lambda>m. m \<noteq> buildHeartbeatMessage) ms"

lemma content_simps [simp]:
  "content [] = []" "content (ms @ ns) = content ms @ content ns" "content [buildHeartbeatMessage] = []"
  by (simp_all add: content_def)

text \<open>
  The handler's invariant: the subscriber's acknowledged cursor is the handler's cursor, what was sent
  is the log up to it, a batch is what follows, and a waiting handler with something to read has been
  signalled.
\<close>

definition sse_inv :: "sse_sys \<Rightarrow> bool" where
  "sse_inv y \<longleftrightarrow>
     log_repr (sx_log y) (sx_stream y) \<and>
     (\<exists>sub. sub_of (sx_stream y) (sx_sub y) = Some sub \<and> sub_Cursor sub = sx_cursor y \<and>
        (sx_pc y = SseWait \<and> nat (sx_cursor y) < length (sx_log y) \<longrightarrow> sub_Signal sub)) \<and>
     content (sx_sent y) = content (log_messages (take (nat (sx_cursor y)) (sx_log y))) \<and>
     (\<forall>q. sx_pc y = SseBatch q \<longrightarrow> q \<noteq> [] \<and> (\<exists>rest. drop (nat (sx_cursor y)) (sx_log y) = q @ rest)) \<and>
     (if \<exists>r. sx_pc y = SseDone (EndTerminal r)
      then 0 < sx_cursor y \<and> (\<forall>i < nat (sx_cursor y) - 1. \<not> ev_End (sx_log y ! i)) \<and> ev_End (sx_log y ! (nat (sx_cursor y) - 1)) \<and>
           sx_pc y = SseDone (EndTerminal (buildTerminalStreamError (sx_log y ! (nat (sx_cursor y) - 1))))
      else (\<forall>i < nat (sx_cursor y). \<not> ev_End (sx_log y ! i)))"

lemma sse_inv_bounds:
  assumes "sse_inv y"
  shows "0 \<le> sx_cursor y" "nat (sx_cursor y) \<le> length (sx_log y)"
    "read_stream (sx_stream y) (sx_cursor y) = drop (nat (sx_cursor y)) (sx_log y)"
proof -
  obtain sub where "log_repr (sx_log y) (sx_stream y)" "cursor_of (sx_stream y) (sx_sub y) = Some (sx_cursor y)"
    using assms by (auto simp: sse_inv_def cursor_of_sub)
  from feed.read_log [OF this] show "0 \<le> sx_cursor y" "nat (sx_cursor y) \<le> length (sx_log y)"
    "read_stream (sx_stream y) (sx_cursor y) = drop (nat (sx_cursor y)) (sx_log y)" by auto
qed

lemma sse_inv_start:
  assumes "sse_start y"
  shows "sse_inv y"
  using assms
proof cases
  case (connect L s k now)
  have "log_repr L (attach_stream k now s)" using log_repr_op [OF connect(2), of 1 "DoAttach k now"] by simp
  then show ?thesis unfolding connect(1) using connect(3,4)
    by (simp add: sse_inv_def sse_connect_def sub_of_def attach_stream_def stopTerminalCleanupTimerLocked_def
        Let_def map_of_update_gomap log_messages_def)
qed

lemma log_after_prefix: "\<exists>more. log_after p L s = L @ more"
  by (auto simp: log_after_def split: stream_op.split)

lemma sse_inv_others:
  assumes "sse_inv y" "1 \<le> limit" "foreign_op (sx_sub y) p"
  shows "sse_inv (y\<lparr>sx_log := log_after p (sx_log y) (sx_stream y), sx_stream := apply_stream_op limit p (sx_stream y)\<rparr>)"
proof -
  let ?L = "sx_log y" and ?s = "sx_stream y" and ?c = "nat (sx_cursor y)"
  have r: "log_repr ?L ?s" using assms(1) by (simp add: sse_inv_def)
  have r': "log_repr (log_after p ?L ?s) (apply_stream_op limit p ?s)"
    using log_repr_op [OF r assms(2), of p] by (simp add: log_after_def)
  obtain sub where sub: "sub_of ?s (sx_sub y) = Some sub" "sub_Cursor sub = sx_cursor y"
    "sx_pc y = SseWait \<and> ?c < length ?L \<longrightarrow> sub_Signal sub" using assms(1) by (auto simp: sse_inv_def)
  have sub': "\<exists>sub'. sub_of (apply_stream_op limit p ?s) (sx_sub y) = Some sub' \<and> sub_Cursor sub' = sx_cursor y \<and>
      (sx_pc y = SseWait \<and> ?c < length (log_after p ?L ?s) \<longrightarrow> sub_Signal sub')"
    unfolding sub_of_foreign [OF assms(3)] log_after_def using sub by (cases p) auto
  obtain more where more: "log_after p ?L ?s = ?L @ more" using log_after_prefix by blast
  note b = sse_inv_bounds [OF assms(1)]
  have nth: "(?L @ more) ! i = ?L ! i" if "i < ?c" for i using that b(2) by (simp add: nth_append)
  show ?thesis
    using assms(1) r' sub' b unfolding sse_inv_def more
    by (auto simp: nth split: if_splits)
qed


lemma sse_inv_deliver:
  assumes "sse_inv y" "sx_pc y = SseBatch (e # es)"
  shows "sse_inv (sse_deliver e es now y)"
proof -
  let ?L = "sx_log y" and ?s = "sx_stream y" and ?c = "nat (sx_cursor y)" and ?d = "sx_cursor y + 1"
  note b = sse_inv_bounds [OF assms(1)]
  obtain rest where rest: "drop ?c ?L = e # es @ rest" using assms by (auto simp: sse_inv_def)
  then have e: "?L ! ?c = e" "?c < length ?L" "drop (Suc ?c) ?L = es @ rest"
    by (metis nth_via_drop, metis drop_all list.distinct(1) not_le, metis drop_Suc tl_drop list.sel(3))
  have r: "log_repr ?L ?s" and cur: "cursor_of ?s (sx_sub y) = Some (sx_cursor y)"
    using assms(1) by (auto simp: sse_inv_def cursor_of_sub)
  obtain t where t: "acknowledge_stream ?s (sx_sub y) ?d now = Inr t" "log_repr ?L t" "cursor_of t (sx_sub y) = Some ?d"
  proof -
    have "nat ?d \<le> length ?L" using e(2) b(1) by simp
    from feed.ack_log [OF r cur _ this, of now] obtain t where "try_acknowledge now ?s (sx_sub y) ?d = Some t"
      "log_repr ?L t" "cursor_of t (sx_sub y) = Some ?d" by auto
    then show ?thesis using that by (auto simp: try_acknowledge_def split: sum.splits)
  qed
  have d: "nat ?d = Suc ?c" using b(1) by simp
  obtain sub where sub: "sub_of t (sx_sub y) = Some sub" "sub_Cursor sub = ?d" using t(3) by (auto simp: cursor_of_sub)
  have "content (sx_sent y @ event_messages e) = content (log_messages (take (Suc ?c) ?L))"
    using assms(1) e(1,2) by (simp add: sse_inv_def take_Suc_conv_app_nth log_messages_def)
  moreover have "\<forall>i < ?c. \<not> ev_End (?L ! i)" using assms by (simp add: sse_inv_def)
  ultimately show ?thesis using t(1,2) sub e b(1) unfolding sse_inv_def sse_deliver_def Let_def
    by (auto simp: d less_Suc_eq)
qed

lemma sse_inv_quiet:
  assumes "sse_inv y" "pc \<noteq> SseWait" "\<forall>q. pc \<noteq> SseBatch q" "\<forall>r. pc \<noteq> SseDone (EndTerminal r)"
    "\<forall>r. sx_pc y \<noteq> SseDone (EndTerminal r)" "content ms = []"
  shows "sse_inv (y\<lparr>sx_sent := sx_sent y @ ms, sx_pc := pc\<rparr>)"
  using assms by (auto simp: sse_inv_def)

lemma sse_inv_pc:
  assumes "sse_inv y" "pc \<noteq> SseWait" "\<forall>q. pc \<noteq> SseBatch q" "\<forall>r. pc \<noteq> SseDone (EndTerminal r)"
    "\<forall>r. sx_pc y \<noteq> SseDone (EndTerminal r)"
  shows "sse_inv (y\<lparr>sx_pc := pc\<rparr>)"
  using sse_inv_quiet [OF assms, of "[]"] by simp

lemma sse_inv_read:
  assumes "sse_inv y" "sx_pc y = SseRead"
  shows "sse_inv (sse_read y)"
proof (cases "drop (nat (sx_cursor y)) (sx_log y) = []")
  case True
  then have "\<not> nat (sx_cursor y) < length (sx_log y)" by simp
  with True assms show ?thesis
    by (auto simp: sse_read_def Let_def sse_inv_bounds(3) [OF assms(1)] sse_inv_def)
next
  case False
  with assms show ?thesis
    by (auto simp: sse_read_def Let_def sse_inv_bounds(3) [OF assms(1)]) (auto simp: sse_inv_def)
qed

lemma take_signal_props:
  assumes "log_repr L s" "sub_of s k = Some sub"
  shows "log_repr L (take_signal s k)" "sub_of (take_signal s k) k = Some (sub\<lparr>sub_Signal := False\<rparr>)"
proof -
  have m: "map_of (as_Subscribers s) (TrimSpace k) = Some sub" using assms(2) by (simp add: sub_of_def)
  have ok: "stream_ok s" using assms(1) by (simp add: log_repr_def)
  note c = stream_ok_cursor [OF ok m]
  have "stream_ok (take_signal s k)"
    using ok c assms(2) by (auto simp: take_signal_def stream_ok_def upper_bound_def set_update_iff)
  then show "log_repr L (take_signal s k)" using assms by (simp add: log_repr_def take_signal_def)
  show "sub_of (take_signal s k) k = Some (sub\<lparr>sub_Signal := False\<rparr>)"
    using assms(2) by (simp add: take_signal_def) (simp add: sub_of_def map_of_update_gomap)
qed

lemma sse_inv_wake:
  assumes "sse_inv y" "sx_pc y = SseWait"
  shows "sse_inv (y\<lparr>sx_stream := take_signal (sx_stream y) (sx_sub y), sx_pc := SseRead\<rparr>)"
proof -
  obtain sub where sub: "sub_of (sx_stream y) (sx_sub y) = Some sub" "sub_Cursor sub = sx_cursor y"
    using assms(1) by (auto simp: sse_inv_def)
  have r: "log_repr (sx_log y) (sx_stream y)" using assms(1) by (simp add: sse_inv_def)
  from take_signal_props [OF r sub(1)] sub(2) assms show ?thesis by (auto simp: sse_inv_def)
qed

lemma sse_context_done_other [simp]: "sse_context_done y \<noteq> EndTerminal r"
  by (simp add: sse_context_done_def split: option.split)

lemma sse_inv_step:
  assumes "1 \<le> limit" "sse_inv y" "sse_step limit y z"
  shows "sse_inv z"
  using assms(3)
proof cases
  case (others p)
  then show ?thesis using sse_inv_others [OF assms(2,1)] by simp
next
  case reads
  then show ?thesis using sse_inv_read [OF assms(2)] by simp
next
  case (delivers e es now)
  then show ?thesis using sse_inv_deliver [OF assms(2)] by simp
next
  case (wakes sub)
  then show ?thesis using sse_inv_wake [OF assms(2)] by simp
next
  case ticks
  then show ?thesis
    using sse_inv_quiet [OF assms(2), of SseRead "[buildHeartbeatMessage]"] sse_inv_pc [OF assms(2), of SseRead]
    by (auto simp: sse_tick_def)
qed (auto intro: sse_inv_pc [OF assms(2)])

interpretation sse: invariant_of sse_start "sse_step 1024" sse_inv
  using sse_inv_start sse_inv_step [of 1024] by unfold_locales auto



definition demo_message :: "string \<Rightarrow> StreamEvent" where
  "demo_message t = \<lparr>ev_Message = Some (buildTextDeltaMessage t), ev_End = False, ev_TerminalErrorCode = [], ev_TerminalErrorMessage = []\<rparr>"

abbreviation demo_open :: ActiveStream where
  "demo_open \<equiv> fresh_stream ''r'' ''c'' 1 ''m'' ''n'' 1 ''u'' 7"


subsection \<open>Reconnecting\<close>

text \<open>
  A handler whose cursor is behind the backlog's base reads the same events again. Its
  acknowledgements are refused and the stream stays as it is.
\<close>

lemma acknowledge_behind:
  assumes "sub_of s k = Some sub" "c < sub_Cursor sub"
  shows "acknowledge_stream s k c now = Inl (InvalidCursor c)"
  using assms by (simp add: acknowledge_stream_def sub_of_def)

lemma deliver_behind:
  assumes "sub_of (sx_stream y) (sx_sub y) = Some sub" "sx_cursor y + int (length q) < sub_Cursor sub"
    and "\<forall>e \<in> set q. \<not> ev_End e" "sx_pc y = (if q = [] then SseRead else SseBatch q)"
  shows "(sse_step limit)\<^sup>*\<^sup>* y (y\<lparr>sx_cursor := sx_cursor y + int (length q), sx_sent := sx_sent y @ log_messages q,
    sx_pc := SseRead\<rparr>)"
  using assms
proof (induction q arbitrary: y)
  case Nil
  then have "y\<lparr>sx_cursor := sx_cursor y, sx_sent := sx_sent y, sx_pc := SseRead\<rparr> = y" by simp
  then show ?case by (simp add: log_messages_def)
next
  case (Cons e q)
  let ?z = "y\<lparr>sx_cursor := sx_cursor y + 1, sx_sent := sx_sent y @ event_messages e,
    sx_pc := (if q = [] then SseRead else SseBatch q)\<rparr>"
  have "acknowledge_stream (sx_stream y) (sx_sub y) (sx_cursor y + 1) 0 = Inl (InvalidCursor (sx_cursor y + 1))"
    using Cons.prems(1,2) by (intro acknowledge_behind) auto
  then have "sse_deliver e q 0 y = ?z" using Cons.prems(3) by (simp add: sse_deliver_def Let_def)
  moreover have "sse_step limit y (sse_deliver e q 0 y)" using Cons.prems(4) by (intro delivers) simp
  moreover have "(sse_step limit)\<^sup>*\<^sup>* ?z (?z\<lparr>sx_cursor := sx_cursor ?z + int (length q), sx_sent := sx_sent ?z @ log_messages q,
      sx_pc := SseRead\<rparr>)"
    using Cons.prems by (intro Cons.IH) auto
  ultimately show ?case by (simp add: log_messages_def add.assoc converse_rtranclp_into_rtranclp)
qed

lemma replay_behind:
  assumes "log_repr L (sx_stream y)" "sub_of (sx_stream y) (sx_sub y) = Some sub" "sub_Cursor sub = as_BacklogBaseCursor (sx_stream y)"
    and "sx_cursor y + int (length q) < as_BacklogBaseCursor (sx_stream y)" "q = as_Backlog (sx_stream y)"
    and "q \<noteq> []" "\<forall>e \<in> set q. \<not> ev_End e" "sx_pc y = SseRead"
  shows "(sse_step limit)\<^sup>*\<^sup>* y (y\<lparr>sx_cursor := sx_cursor y + int (length q), sx_sent := sx_sent y @ log_messages q,
    sx_pc := SseRead\<rparr>)"
proof -
  let ?z = "y\<lparr>sx_pc := SseBatch q\<rparr>"
  have "read_stream (sx_stream y) (sx_cursor y) = q"
    using assms(4-6) by (auto simp: read_stream_def Let_def)
  then have "sse_read y = ?z" using assms(6) by (simp add: sse_read_def Let_def)
  then have "sse_step limit y ?z" using reads [OF assms(8), of limit] by simp
  moreover have "(sse_step limit)\<^sup>*\<^sup>* ?z (?z\<lparr>sx_cursor := sx_cursor ?z + int (length q), sx_sent := sx_sent ?z @ log_messages q,
      sx_pc := SseRead\<rparr>)"
    using assms by (intro deliver_behind [where sub = sub]) auto
  ultimately show ?thesis by (simp add: converse_rtranclp_into_rtranclp)
qed

text \<open>
  C21. A client that reconnects gets events twice: the handler starts its cursor at zero, not at the
  base of the backlog. When the stream has already dropped more than twice as many events as it holds
  (because an earlier connection acknowledged them), a new connection is sent everything that is left and then
  the same again, without anything new having been published.
\<close>

theorem sse_reconnect_duplicates:
  assumes "log_repr L s" "2 * int (length (as_Backlog s)) < as_BacklogBaseCursor s" "as_Backlog s \<noteq> []"
    and "\<forall>e \<in> set (as_Backlog s). \<not> ev_End e" "TrimSpace k = k"
  shows "\<exists>y. (sse_step limit)\<^sup>*\<^sup>* (sse_connect k now L s) y \<and> sx_log y = L \<and>
    sx_sent y = log_messages (as_Backlog s) @ log_messages (as_Backlog s)"
proof -
  let ?q = "as_Backlog s" and ?y = "sse_connect k now L s"
  define z where "z = ?y\<lparr>sx_cursor := sx_cursor ?y + int (length ?q), sx_sent := sx_sent ?y @ log_messages ?q, sx_pc := SseRead\<rparr>"
  have st: "as_Backlog (sx_stream ?y) = ?q" "as_BacklogBaseCursor (sx_stream ?y) = as_BacklogBaseCursor s"
    "sub_of (sx_stream ?y) k = Some \<lparr>sub_Signal = False, sub_Cursor = as_BacklogBaseCursor s\<rparr>"
    using assms(5) by (simp_all add: sse_connect_def attach_stream_def stopTerminalCleanupTimerLocked_def Let_def sub_of_def map_of_update_gomap)
  have y: "sx_sub ?y = k" "sx_cursor ?y = 0" "sx_pc ?y = SseRead" "sx_log ?y = L" "sx_sent ?y = []"
    by (simp_all add: sse_connect_def)
  have r: "log_repr L (sx_stream ?y)" using log_repr_op [OF assms(1), of 1 "DoAttach k now"] by (simp add: sse_connect_def)
  have z: "sx_stream z = sx_stream ?y" "sx_sub z = k" "sx_cursor z = int (length ?q)" "sx_pc z = SseRead" "sx_log z = L"
    "sx_sent z = log_messages ?q" using y by (simp_all add: z_def)
  have 1: "(sse_step limit)\<^sup>*\<^sup>* ?y z"
    unfolding z_def using r st y assms(2-4) by (intro replay_behind) auto
  have 2: "(sse_step limit)\<^sup>*\<^sup>* z (z\<lparr>sx_cursor := sx_cursor z + int (length ?q), sx_sent := sx_sent z @ log_messages ?q, sx_pc := SseRead\<rparr>)"
    using r st z assms(2-4) by (intro replay_behind) auto
  show ?thesis by (rule exI, rule conjI, rule rtranclp_trans [OF 1 2]) (simp add: z)
qed

definition demo_trimmed :: "ActiveStream" where
  "demo_trimmed = (fresh_stream ''r'' ''c'' 1 ''m'' ''n'' 1 ''u'' 7)\<lparr>as_Backlog := [demo_message ''d''], as_BacklogBaseCursor := 3\<rparr>"

theorem sse_reconnect_duplicates_witness:
  "\<exists>y. (sse_step 1024)\<^sup>*\<^sup>* (sse_connect ''sub-2'' 9 (map demo_message [''a'', ''b'', ''c'', ''d'']) demo_trimmed) y \<and>
     sx_sent y = [buildTextDeltaMessage ''d'', buildTextDeltaMessage ''d'']"
proof -
  have l: "log_repr (map demo_message [''a'', ''b'', ''c'', ''d'']) demo_trimmed"
    by (simp add: log_repr_def stream_ok_def demo_trimmed_def fresh_stream_def)
  have t: "TrimSpace ''sub-2'' = ''sub-2''" by code_simp
  have q: "as_Backlog demo_trimmed = [demo_message ''d'']" "as_BacklogBaseCursor demo_trimmed = 3"
    by (simp_all add: demo_trimmed_def)
  obtain y where "(sse_step 1024)\<^sup>*\<^sup>* (sse_connect ''sub-2'' 9 (map demo_message [''a'', ''b'', ''c'', ''d'']) demo_trimmed) y"
    "sx_sent y = log_messages (as_Backlog demo_trimmed) @ log_messages (as_Backlog demo_trimmed)"
    using sse_reconnect_duplicates [OF l _ _ _ t, of 1024 9] q by (auto simp: demo_message_def)
  then show ?thesis by (auto simp: q log_messages_def event_messages_def demo_message_def)
qed

end
