(* ===== verification/Token_Estimate.thy ===== *)
theory Token_Estimate
  imports Turn_Memory Text_Limits
begin

text \<open>
  The estimate of the tokens of a prompt and its breakdown by category (\<open>token_estimator.go\<close>). Token
  counts are far below the range of \<open>int64\<close>, so they are integers. \<open>sort.Slice\<close> is not stable: the order
  it gives to equal elements is a parameter, of which only the documented order is relied on.
\<close>

subsection \<open>Messages\<close>

record MessageImage =
  mi_MIMEType :: string
  mi_Path :: string

record ContentPart =
  cp_Type :: string
  cp_Text :: string
  cp_Image :: "MessageImage option"

record ToolCallDescriptor =
  td_ID :: string
  td_Index :: int
  td_Type :: string
  td_Name :: string
  td_Arguments :: string
  td_OpenAIResponsesID :: string
  td_OpenAIResponsesCallID :: string
  td_OpenAIResponsesStatus :: string

record Message =
  mg_Role :: string
  mg_Content :: string
  mg_ContentParts :: "ContentPart list"
  mg_ReasoningContent :: string
  mg_ReasoningSignature :: string
  mg_ReasoningSignatureSource :: string
  mg_OpenAIResponsesReasoningID :: string
  mg_OpenAIResponsesReasoningStatus :: string
  mg_OpenAIResponsesReasoningSummary :: string
  mg_ToolCalls :: "ToolCallDescriptor list"
  mg_ToolCallID :: string
  mg_Name :: string

record CompiledConversation =
  cv_Messages :: "Message list"
  cv_Tools :: "string list"

subsection \<open>The guard of a compiled prompt\<close>

definition guard_message :: "Message \<Rightarrow> Message" where
  "guard_message m =
     (if TrimSpace (mg_Role m) = ''system'' then m
      else m\<lparr>
        mg_Content := (if TrimSpace (mg_Content m) \<noteq> []
                       then truncatePromptGuardText (''compiled.'' @ firstNonEmpty [TrimSpace (mg_Role m), ''message''])
                              (mg_Content m) promptGuardCompiledMessageChars
                       else mg_Content m),
        mg_ContentParts := map (\<lambda>part. if TrimSpace (cp_Text part) = [] then part
                                  else part\<lparr>cp_Text := truncatePromptGuardText ''compiled.content_part''
                                                         (cp_Text part) promptGuardCompiledMessageChars\<rparr>)
                             (mg_ContentParts m)\<rparr>)"

definition guardCompiledConversationForProvider :: "CompiledConversation \<Rightarrow> CompiledConversation" where
  "guardCompiledConversationForProvider compiled = compiled\<lparr>cv_Messages := map guard_message (cv_Messages compiled)\<rparr>"

subsection \<open>Estimates\<close>

definition estimatedTokensPerMessageOverhead :: int where "estimatedTokensPerMessageOverhead = 8"
definition estimatedTokensPerToolCallOverhead :: int where "estimatedTokensPerToolCallOverhead = 6"
definition estimatedTokensPerImagePart :: int where "estimatedTokensPerImagePart = 1024"

definition estimateTextTokens :: "string \<Rightarrow> int" where
  "estimateTextTokens t =
     (let trimmed = TrimSpace t
      in if trimmed = [] then 0
         else let runeCount = int (RuneCount trimmed)
              in if runeCount \<le> 0 then 0
                 else let estimated = (runeCount + 3) div 4 + count_newlines trimmed
                      in if estimated < 1 then 1 else estimated)"

definition image_tokens :: "MessageImage option \<Rightarrow> int" where
  "image_tokens img =
     (case img of None \<Rightarrow> 0 | Some i \<Rightarrow> estimateTextTokens (mi_MIMEType i) + estimateTextTokens (mi_Path i))"

definition estimateModelContentPartsTokens :: "string \<Rightarrow> ContentPart list \<Rightarrow> int" where
  "estimateModelContentPartsTokens content parts =
     sum_list (map (\<lambda>p.
       let kind = TrimSpace (ToLower (cp_Type p))
       in if kind = [] \<or> kind = ''text'' then (if TrimSpace content = [] then estimateTextTokens (cp_Text p) else 0)
          else if kind = ''image'' then estimatedTokensPerImagePart + image_tokens (cp_Image p)
          else 0) parts)"

definition estimateModelMessageTokens :: "Message \<Rightarrow> int" where
  "estimateModelMessageTokens m =
     estimatedTokensPerMessageOverhead + estimateTextTokens (mg_Role m) + estimateTextTokens (mg_Content m) +
     estimateModelContentPartsTokens (mg_Content m) (mg_ContentParts m) + estimateTextTokens (mg_ReasoningContent m) +
     estimateTextTokens (mg_ReasoningSignature m) + estimateTextTokens (mg_ToolCallID m) + estimateTextTokens (mg_Name m) +
     sum_list (map (\<lambda>c. estimatedTokensPerToolCallOverhead + estimateTextTokens (td_ID c) + estimateTextTokens (td_Type c) +
       estimateTextTokens (td_Name c) + estimateTextTokens (td_Arguments c)) (mg_ToolCalls m))"

definition estimateModelMessagesTokens :: "Message list \<Rightarrow> int" where
  "estimateModelMessagesTokens messages = sum_list (map estimateModelMessageTokens messages)"

definition estimateToolDescriptorsTokens :: "string list \<Rightarrow> int" where
  "estimateToolDescriptorsTokens tools = sum_list (map estimateTextTokens tools)"

definition estimateCompiledPromptTokens :: "CompiledConversation \<Rightarrow> int" where
  "estimateCompiledPromptTokens compiled =
     estimateModelMessagesTokens (cv_Messages compiled) + estimateToolDescriptorsTokens (cv_Tools compiled)"

subsection \<open>The breakdown\<close>

definition breakdownCatSystemPrompt :: nat where "breakdownCatSystemPrompt = 0"
definition breakdownCatTools :: nat where "breakdownCatTools = 1"
definition breakdownCatRules :: nat where "breakdownCatRules = 2"
definition breakdownCatSkills :: nat where "breakdownCatSkills = 3"
definition breakdownCatMCP :: nat where "breakdownCatMCP = 4"
definition breakdownCatSubagents :: nat where "breakdownCatSubagents = 5"
definition breakdownCatSummary :: nat where "breakdownCatSummary = 6"
definition breakdownCatConversation :: nat where "breakdownCatConversation = 7"
definition breakdownCatCount :: nat where "breakdownCatCount = 8"

lemmas breakdown_cats = breakdownCatSystemPrompt_def breakdownCatTools_def breakdownCatRules_def breakdownCatSkills_def
  breakdownCatMCP_def breakdownCatSubagents_def breakdownCatSummary_def breakdownCatConversation_def breakdownCatCount_def

definition breakdownCategoryDefinitions :: "(string \<times> string) list" where
  "breakdownCategoryDefinitions =
     [(''system_prompt'', ''System prompt''), (''tools'', ''Tool definitions''), (''rules'', ''Rules''),
      (''skills'', ''Skills''), (''mcp'', ''MCP & dynamic tools''), (''subagents'', ''Subagent definitions''),
      (''summarized_conversation'', ''Summarized conversation''), (''conversation'', ''Conversation'')]"

record breakdownMeasure =
  bm_characters :: int
  bm_newlines :: int
  bm_overheadTokens :: int

definition no_measure :: breakdownMeasure where
  "no_measure = \<lparr>bm_characters = 0, bm_newlines = 0, bm_overheadTokens = 0\<rparr>"

definition measure_add :: "string \<Rightarrow> breakdownMeasure \<Rightarrow> breakdownMeasure" where
  "measure_add t m =
     (if TrimSpace t = [] then m
      else m\<lparr>bm_characters := bm_characters m + int (RuneCount (TrimSpace t)),
             bm_newlines := bm_newlines m + count_newlines (TrimSpace t)\<rparr>)"

definition addOverhead :: "int \<Rightarrow> breakdownMeasure \<Rightarrow> breakdownMeasure" where
  "addOverhead tokens m = m\<lparr>bm_overheadTokens := bm_overheadTokens m + tokens\<rparr>"

definition estimatedTokens :: "breakdownMeasure \<Rightarrow> int" where
  "estimatedTokens m =
     (if bm_characters m = 0 \<and> bm_overheadTokens m = 0 then 0
      else (if 0 < bm_characters m
            then (let total = (bm_characters m + 3) div 4 + bm_newlines m in if total < 1 then 1 else total)
            else 0) + bm_overheadTokens m)"

text \<open>One measure for each category; and the ranges of tagged sections of a text.\<close>

type_synonym measures = "breakdownMeasure list"

definition on_cat :: "nat \<Rightarrow> (breakdownMeasure \<Rightarrow> breakdownMeasure) \<Rightarrow> measures \<Rightarrow> measures" where
  "on_cat c f ms = ms[c := f (ms ! c)]"

record breakdownTagRange =
  br_start :: nat
  br_end :: nat
  br_category :: nat

definition text_slice :: "string \<Rightarrow> nat \<Rightarrow> nat \<Rightarrow> string" where
  "text_slice t a b = take (b - a) (drop a t)"

lemma strings_Index_less: "strings_Index s p = Some i \<Longrightarrow> p \<noteq> [] \<Longrightarrow> i < length s"
  by (induction s p arbitrary: i rule: strings_Index.induct) (auto split: if_splits simp: has_prefix_iff)

function collectTagRanges :: "string \<Rightarrow> string \<Rightarrow> nat \<Rightarrow> nat \<Rightarrow> breakdownTagRange list" where
  "collectTagRanges t tag category cursor =
     (case strings_Index (drop cursor t) (''<'' @ tag) of
        None \<Rightarrow> []
      | Some relativeStart \<Rightarrow>
          (case strings_Index (drop (cursor + relativeStart) t) ''>'' of
             None \<Rightarrow> []
           | Some openEndRel \<Rightarrow>
               (case strings_Index (drop (cursor + relativeStart + openEndRel + 1) t) (''</'' @ tag @ ''>'') of
                  None \<Rightarrow> []
                | Some relativeEnd \<Rightarrow>
                    (let stop = cursor + relativeStart + openEndRel + 1 + relativeEnd + length (''</'' @ tag @ ''>'')
                     in \<lparr>br_start = cursor + relativeStart, br_end = stop, br_category = category\<rparr>
                        # collectTagRanges t tag category stop))))"
  by pat_completeness auto
termination
  by (relation "measure (\<lambda>(t, _, _, cursor). length t - cursor)") (auto dest!: strings_Index_less)

declare collectTagRanges.simps [simp del]

type_synonym range_sort = "breakdownTagRange list \<Rightarrow> breakdownTagRange list"

fun measure_system_ranges :: "string \<Rightarrow> nat \<Rightarrow> breakdownTagRange list \<Rightarrow> measures \<Rightarrow> measures" where
  "measure_system_ranges t cursor [] ms = on_cat breakdownCatSystemPrompt (measure_add (drop cursor t)) ms"
| "measure_system_ranges t cursor (r # rs) ms =
     (if br_start r < cursor then measure_system_ranges t cursor rs ms
      else measure_system_ranges t (br_end r) rs
             (on_cat (br_category r) (measure_add (text_slice t (br_start r) (br_end r)))
               (on_cat breakdownCatSystemPrompt (measure_add (text_slice t cursor (br_start r))) ms)))"

definition measureSystemPrompt :: "range_sort \<Rightarrow> string \<Rightarrow> measures \<Rightarrow> measures" where
  "measureSystemPrompt order t ms =
     measure_system_ranges t 0 (order (concat (map (\<lambda>tag. collectTagRanges t tag breakdownCatRules 0)
       [''shared_user_rules'', ''rules'', ''rule'', ''user_rules'', ''always_applied_workspace_rules'',
        ''agent_requestable_workspace_rules'', ''cursor_rules_context'']))) ms"

definition is_static_category :: "nat \<Rightarrow> bool" where
  "is_static_category c \<longleftrightarrow>
     c = breakdownCatRules \<or> c = breakdownCatSkills \<or> c = breakdownCatSubagents \<or> c = breakdownCatMCP"

fun measure_runtime_ranges ::
  "string \<Rightarrow> nat \<Rightarrow> breakdownTagRange list \<Rightarrow> measures \<times> bool list \<Rightarrow> measures \<times> bool list" where
  "measure_runtime_ranges t cursor [] (ms, measured) =
     (on_cat breakdownCatConversation (measure_add (drop cursor t)) ms, measured)"
| "measure_runtime_ranges t cursor (r # rs) (ms, measured) =
     (if br_start r < cursor then measure_runtime_ranges t cursor rs (ms, measured)
      else let ms1 = on_cat breakdownCatConversation (measure_add (text_slice t cursor (br_start r))) ms;
               chunk = text_slice t (br_start r) (br_end r)
           in measure_runtime_ranges t (br_end r) rs
                (if is_static_category (br_category r)
                 then (if \<not> measured ! br_category r
                       then (on_cat (br_category r) (measure_add chunk) ms1, measured[br_category r := True])
                       else (ms1, measured))
                 else (on_cat (br_category r) (measure_add chunk) ms1, measured)))"

definition runtime_ranges :: "string \<Rightarrow> breakdownTagRange list" where
  "runtime_ranges t =
     concat (map (\<lambda>tag. collectTagRanges t tag breakdownCatRules 0)
       [''shared_user_rules'', ''rules'', ''rule'', ''user_rule'', ''user_rules'', ''always_applied_workspace_rules'',
        ''agent_requestable_workspace_rules'', ''cursor_rules_context'']) @
     concat (map (\<lambda>tag. collectTagRanges t tag breakdownCatSkills 0) [''agent_skills'', ''available_skills'', ''skill'']) @
     collectTagRanges t ''subagents'' breakdownCatSubagents 0 @
     concat (map (\<lambda>tag. collectTagRanges t tag breakdownCatMCP 0)
       [''mcp_meta_tools'', ''mcp_instructions'', ''mcp_file_system'', ''mcp_file_system_servers'', ''mcp_descriptors'']) @
     concat (map (\<lambda>tag. collectTagRanges t tag breakdownCatSummary 0)
       [''conversation_summary'', ''summary_of_previous_conversation''])"

definition measureRuntimeText :: "range_sort \<Rightarrow> string \<Rightarrow> measures \<times> bool list \<Rightarrow> measures \<times> bool list" where
  "measureRuntimeText order t = measure_runtime_ranges t 0 (order (runtime_ranges t))"

definition conversation_add :: "string \<Rightarrow> measures \<Rightarrow> measures" where
  "conversation_add t = on_cat breakdownCatConversation (measure_add t)"

definition measure_part :: "range_sort \<Rightarrow> ContentPart \<Rightarrow> measures \<times> bool list \<Rightarrow> measures \<times> bool list" where
  "measure_part order p s =
     (let kind = TrimSpace (ToLower (cp_Type p))
      in if kind = [] \<or> kind = ''text'' then measureRuntimeText order (cp_Text p) s
         else if kind = ''image'' then
           (let ms = on_cat breakdownCatConversation (addOverhead estimatedTokensPerImagePart) (fst s)
            in (case cp_Image p of
                  None \<Rightarrow> ms | Some i \<Rightarrow> conversation_add (mi_Path i) (conversation_add (mi_MIMEType i) ms), snd s))
         else s)"

definition measureBreakdownMessage :: "range_sort \<Rightarrow> Message \<Rightarrow> measures \<times> bool list \<Rightarrow> measures \<times> bool list" where
  "measureBreakdownMessage order m s0 =
     (let s = (on_cat breakdownCatConversation (addOverhead estimatedTokensPerMessageOverhead) (fst s0), snd s0)
      in if TrimSpace (mg_Role m) = ''system'' then (measureSystemPrompt order (mg_Content m) (fst s), snd s)
         else let (ms1, measured) =
                    (if mg_ContentParts m \<noteq> [] then fold (measure_part order) (mg_ContentParts m) s
                     else if mg_Content m \<noteq> [] then measureRuntimeText order (mg_Content m) s else s);
                  ms2 = (if mg_ReasoningContent m \<noteq> [] then conversation_add (mg_ReasoningContent m) ms1 else ms1);
                  ms3 = (if mg_ToolCalls m = [] then ms2
                         else fold (\<lambda>c ms. conversation_add (td_Arguments c) (conversation_add (td_Name c)
                                (conversation_add (td_Type c) (conversation_add (td_ID c) ms)))) (mg_ToolCalls m)
                              (on_cat breakdownCatConversation
                                (addOverhead (int (length (mg_ToolCalls m)) * estimatedTokensPerToolCallOverhead)) ms2))
              in (ms3, measured))"

definition isMcpToolJSON :: "string \<Rightarrow> bool" where
  "isMcpToolJSON raw =
     (let lower = ToLower raw; q = [CHR 0x22]
      in strings_Contains lower (q @ ''mcp_'') \<or> strings_Contains lower (q @ ''call_mcp_tool'' @ q) \<or>
         strings_Contains lower ''mcp-server'' \<or> strings_Contains lower ''mcp_registry'' \<or>
         strings_Contains lower (q @ ''read_mcp_resource'' @ q) \<or> strings_Contains lower (q @ ''list_mcp_resources'' @ q))"

subsection \<open>Fitting the estimates to the total\<close>

text \<open>
  The estimates of all categories but the conversation are scaled down if they exceed the total. What
  rounding leaves over is given out one by one, the largest fractions first; \<open>order\<close> is the sort by fraction.
\<close>

type_synonym fraction_sort = "(nat \<times> int) list \<Rightarrow> (nat \<times> int) list"

definition specials :: "nat list" where
  "specials = [0..<breakdownCatConversation]"

fun give_out :: "int \<Rightarrow> (nat \<times> int) list \<Rightarrow> int list \<Rightarrow> int list" where
  "give_out remainder [] es = es"
| "give_out remainder ((i, _) # os) es =
     (if remainder \<le> 0 then es else give_out (remainder - 1) os (es[i := es ! i + 1]))"

definition fitSpecialEstimates :: "fraction_sort \<Rightarrow> int list \<Rightarrow> int \<Rightarrow> int list" where
  "fitSpecialEstimates order es used =
     (let specialTotal = sum_list (map ((!) es) specials)
      in if specialTotal \<le> used \<or> specialTotal = 0 then es
         else let scaled = fold (\<lambda>i es'. es'[i := (es ! i * used) div specialTotal]) specials es;
                  assigned = sum_list (map ((!) scaled) specials)
              in give_out (used - assigned) (order (map (\<lambda>i. (i, (es ! i * used) mod specialTotal)) specials)) scaled)"

record PromptTokenBreakdownCategory =
  pb_Id :: string
  pb_Label :: string
  pb_EstimatedTokens :: u32
  pb_CharacterCount :: "u32 option"

record PromptTokenBreakdownSnapshot =
  ps_TotalUsedTokens :: u32
  ps_MaxTokens :: u32
  ps_Categories :: "PromptTokenBreakdownCategory list"

definition measure_tools :: "string list \<Rightarrow> measures \<Rightarrow> measures" where
  "measure_tools tools = fold (\<lambda>s. on_cat (if isMcpToolJSON s then breakdownCatMCP else breakdownCatTools) (measure_add s)) tools"

definition measure_compiled :: "range_sort \<Rightarrow> CompiledConversation option \<Rightarrow> measures" where
  "measure_compiled rorder compiled =
     (let ms = replicate breakdownCatCount no_measure
      in case compiled of
           None \<Rightarrow> ms
         | Some c \<Rightarrow> fst (fold (measureBreakdownMessage rorder) (rev (cv_Messages c))
                            (measure_tools (cv_Tools c) ms, replicate breakdownCatCount False)))"

definition final_estimates :: "fraction_sort \<Rightarrow> int list \<Rightarrow> int \<Rightarrow> int list" where
  "final_estimates forder es effective =
     (if 0 < effective
      then let fitted = fitSpecialEstimates forder es effective; specialSum = sum_list (map ((!) fitted) specials)
           in fitted[breakdownCatConversation := (if effective \<ge> specialSum then effective - specialSum else 0)]
      else es)"

definition breakdown_category :: "measures \<Rightarrow> int list \<Rightarrow> nat \<Rightarrow> PromptTokenBreakdownCategory option" where
  "breakdown_category ms es i =
     (let (cid, label) = breakdownCategoryDefinitions ! i; tokens = es ! i
      in if tokens \<le> 0 \<and> cid \<notin> {''conversation'', ''system_prompt'', ''tools''} \<and>
            bm_characters (ms ! i) = 0 \<and> bm_overheadTokens (ms ! i) = 0
         then None
         else Some \<lparr>pb_Id = cid, pb_Label = label, pb_EstimatedTokens = clampInt64ToUint32 tokens,
                pb_CharacterCount = (if 0 < bm_characters (ms ! i) then Some (clampInt64ToUint32 (bm_characters (ms ! i))) else None)\<rparr>)"

definition estimateCheckpointPromptTokenBreakdown ::
  "range_sort \<Rightarrow> fraction_sort \<Rightarrow> CompiledConversation option \<Rightarrow> u32 \<Rightarrow> u32 \<Rightarrow> PromptTokenBreakdownSnapshot option" where
  "estimateCheckpointPromptTokenBreakdown rorder forder compiled usedTokens maxTokens =
     (if maxTokens = 0 then None
      else let ms = measure_compiled rorder compiled;
               es0 = map estimatedTokens ms; localTotal = sum_list es0;
               effective = (if uint usedTokens \<le> 0 then localTotal else uint usedTokens);
               es = final_estimates forder es0 effective;
               categories = List.map_filter (breakdown_category ms es) [0..<breakdownCatCount];
               categorySum = sum_list (map (uint \<circ> pb_EstimatedTokens) categories);
               final0 = (if categorySum > effective then categorySum else effective);
               final = (if final0 \<le> 0 then 1 else final0)
           in Some \<lparr>ps_TotalUsedTokens = clampInt64ToUint32 final, ps_MaxTokens = maxTokens, ps_Categories = categories\<rparr>)"

subsection \<open>The tagged sections\<close>

lemma strings_Index_prefix: "strings_Index s p = Some i \<Longrightarrow> has_prefix (drop i s) p"
  by (induction s p arbitrary: i rule: strings_Index.induct) (auto split: if_splits)

lemma has_prefix_length: "has_prefix s p \<Longrightarrow> length p \<le> length s"
  by (auto simp: has_prefix_iff)

lemma strings_Index_le: "strings_Index s p = Some i \<Longrightarrow> i + length p \<le> length s"
  by (induction s p arbitrary: i rule: strings_Index.induct) (auto split: if_splits dest: has_prefix_length)

definition range_ok :: "string \<Rightarrow> string \<Rightarrow> breakdownTagRange \<Rightarrow> bool" where
  "range_ok t tag r \<longleftrightarrow> br_start r < br_end r \<and> br_end r \<le> length t \<and>
     has_prefix (drop (br_start r) t) (''<'' @ tag) \<and>
     (\<exists>body. text_slice t (br_start r) (br_end r) = body @ ''</'' @ tag @ ''>'')"

fun ranges_apart :: "nat \<Rightarrow> breakdownTagRange list \<Rightarrow> bool" where
  "ranges_apart cursor [] = True"
| "ranges_apart cursor (r # rs) = (cursor \<le> br_start r \<and> ranges_apart (br_end r) rs)"

lemma collectTagRanges_ok:
  "ranges_apart cursor (collectTagRanges t tag c cursor) \<and> (\<forall>r \<in> set (collectTagRanges t tag c cursor). range_ok t tag r \<and> br_category r = c)"
proof (induction t tag c cursor rule: collectTagRanges.induct)
  case (1 t tag c cursor)
  show ?case
  proof (cases "strings_Index (drop cursor t) (''<'' @ tag)")
    case None
    then show ?thesis by (subst (1 2) collectTagRanges.simps) simp
  next
    case s: (Some s)
    show ?thesis
    proof (cases "strings_Index (drop (cursor + s) t) ''>''")
      case None
      with s show ?thesis by (subst (1 2) collectTagRanges.simps) simp
    next
      case o: (Some o')
      let ?oe = "cursor + s + o' + 1"
      show ?thesis
      proof (cases "strings_Index (drop ?oe t) (''</'' @ tag @ ''>'')")
        case None
        with s o show ?thesis by (subst (1 2) collectTagRanges.simps) simp
      next
        case e: (Some e)
        let ?close = "''</'' @ tag @ ''>''"
        let ?stop = "?oe + e + length ?close"
        let ?r = "\<lparr>br_start = cursor + s, br_end = ?stop, br_category = c\<rparr>"
        have eq: "collectTagRanges t tag c cursor = ?r # collectTagRanges t tag c ?stop"
          using s o e by (subst collectTagRanges.simps) (simp add: Let_def)
        have IH: "ranges_apart ?stop (collectTagRanges t tag c ?stop)"
            "\<forall>r \<in> set (collectTagRanges t tag c ?stop). range_ok t tag r \<and> br_category r = c"
          using "1.IH" [OF s o e refl] by blast+
        have fit: "e + length ?close \<le> length t - ?oe" using strings_Index_le [OF e] by simp
        obtain u where u: "drop (?oe + e) t = ?close @ u" using strings_Index_prefix [OF e]
          unfolding has_prefix_iff drop_drop by (metis add.commute)
        have "text_slice t (cursor + s) ?stop = take (o' + 1 + e) (drop (cursor + s) t) @ ?close"
        proof -
          have "take (o' + 1 + e + length ?close) (drop (cursor + s) t) =
              take (o' + 1 + e) (drop (cursor + s) t) @ take (length ?close) (drop (o' + 1 + e) (drop (cursor + s) t))"
            by (rule take_add)
          moreover have "drop (o' + 1 + e) (drop (cursor + s) t) = ?close @ u" using u by (simp add: add_ac)
          moreover have "?stop - (cursor + s) = o' + 1 + e + length ?close" by simp
          ultimately show ?thesis unfolding text_slice_def by (metis append_eq_conv_conj)
        qed
        moreover have "has_prefix (drop (cursor + s) t) (''<'' @ tag)"
          using strings_Index_prefix [OF s] unfolding drop_drop by (simp only: add.commute)
        ultimately have "range_ok t tag ?r" using fit e by (auto simp: range_ok_def dest!: strings_Index_le)
        with IH show ?thesis unfolding eq by simp
      qed
    qed
  qed
qed

subsection \<open>The fitted estimates sum up to the total\<close>

lemma fold_update_nth:
  "j < length xs \<Longrightarrow> fold (\<lambda>i xs. xs[i := f i]) is xs ! j = (if j \<in> set is then f j else xs ! j)"
  by (induction "is" arbitrary: xs) (auto simp: nth_list_update)

lemma fold_update_length [simp]: "length (fold (\<lambda>i xs. xs[i := f i]) is xs) = length xs"
  by (induction "is" arbitrary: xs) auto

lemma give_out_length [simp]: "length (give_out r os es) = length es"
  by (induction r os es rule: give_out.induct) auto

lemma give_out_nth:
  "distinct (map fst os) \<Longrightarrow> j < length es \<Longrightarrow>
   give_out r os es ! j = es ! j + (if j \<in> fst ` set (take (nat r) os) then 1 else 0)"
proof (induction r os es rule: give_out.induct)
  case (2 r i f os es)
  show ?case
  proof (cases "r \<le> 0")
    case False
    then have n: "nat r = Suc (nat (r - 1))" by simp
    have "i \<notin> fst ` set (take (nat (r - 1)) os)" using "2.prems"(1) in_set_takeD by force
    with False "2.IH" "2.prems" show ?thesis by (cases "i = j") (auto simp: n)
  qed simp
qed simp

lemma sum_specials: "sum_list (map f specials) = (\<Sum>i<7. f i)"
  by (simp add: specials_def breakdown_cats sum_list_sum_nth atLeast0LessThan)

definition fraction_sort_ok :: "fraction_sort \<Rightarrow> bool" where
  "fraction_sort_ok order \<longleftrightarrow> (\<forall>xs. mset (order xs) = mset xs \<and> sorted_wrt (\<lambda>a b. snd b \<le> snd a) (order xs))"

lemma sum_list_le: "(\<And>x. x \<in> set xs \<Longrightarrow> f x \<le> b) \<Longrightarrow> sum_list (map f xs) \<le> int (length xs) * b"
proof (induction xs)
  case (Cons x xs)
  then have "f x \<le> b" "sum_list (map f xs) \<le> int (length xs) * b" by auto
  then show ?case by (simp add: algebra_simps)
qed simp

lemma sum_list_zero: "(\<And>x. x \<in> set xs \<Longrightarrow> f x = 0) \<Longrightarrow> sum_list (map f xs) = (0 :: int)"
  by (induction xs) auto

lemma sum_sorted_zero:
  assumes "sorted_wrt (\<lambda>a b. snd b \<le> snd a) os" "\<forall>x \<in> set os. 0 \<le> snd x \<and> snd x < S" "k < length os" "snd (os ! k) = (0::int)"
  shows "sum_list (map snd os) \<le> int k * (S - 1)"
proof -
  have "snd (os ! i) = 0" if "k \<le> i" "i < length os" for i
  proof (cases "i = k")
    case False
    with that have "snd (os ! i) \<le> snd (os ! k)" using assms(1) by (simp add: sorted_wrt_iff_nth_less)
    with assms that show ?thesis by (metis nle_le nth_mem)
  qed (use assms in simp)
  then have "\<forall>x \<in> set (drop k os). snd x = 0" by (auto simp: in_set_conv_nth simp del: split_paired_All split_paired_Ball_Sigma) (metis le_add1 less_diff_conv add.commute snd_conv)
  then have "sum_list (map snd (drop k os)) = 0" by (intro sum_list_zero) auto
  moreover have "sum_list (map snd (take k os)) \<le> int (length (take k os)) * (S - 1)"
    using assms(2) by (intro sum_list_le) (auto dest: in_set_takeD)
  moreover have "sum_list (map snd os) = sum_list (map snd (take k os)) + sum_list (map snd (drop k os))"
    by (metis append_take_drop_id map_append sum_list_append)
  ultimately show ?thesis using assms(3) by simp
qed

lemma sum_card_indicator: "A \<subseteq> {..<n :: nat} \<Longrightarrow> (\<Sum>i<n. if i \<in> A then 1 else 0 :: int) = int (card A)"
proof -
  assume "A \<subseteq> {..<n}"
  then have "(\<Sum>i<n. if i \<in> A then 1 else 0 :: int) = (\<Sum>i\<in>A. 1)" by (intro sum.mono_neutral_cong_right) auto
  then show ?thesis by simp
qed

lemma fit_estimates:
  assumes ok: "fraction_sort_ok order" and len: "length es = 8" and nonneg: "\<forall>e \<in> set es. 0 \<le> e" and used: "0 < used"
  defines "S \<equiv> \<Sum>i<7. es ! i" and "out \<equiv> fitSpecialEstimates order es used"
  shows "length out = 8 \<and> (\<forall>i<7. 0 \<le> out ! i \<and> out ! i \<le> es ! i) \<and> (\<Sum>i<7. out ! i) = min S used"
proof (cases "S \<le> used \<or> S = 0")
  case True
  then have "out = es" by (auto simp: out_def fitSpecialEstimates_def Let_def sum_specials S_def)
  moreover have "min S used = S" using True used by auto
  ultimately show ?thesis using len nonneg by (auto simp: S_def)
next
  case False
  have nn: "0 \<le> es ! i" if "i < 8" for i using nonneg len that by auto
  have S: "0 < S" "used < S" using False used by auto
  define scaled where "scaled = fold (\<lambda>i es'. es'[i := (es ! i * used) div S]) specials es"
  define fracs where "fracs = map (\<lambda>i. (i, (es ! i * used) mod S)) specials"
  define R where "R = used - (\<Sum>i<7. scaled ! i)"
  have len_s: "length scaled = 8" using len by (simp add: scaled_def)
  have sp: "set specials = {..<7}" "distinct specials" "length specials = 7" by (auto simp: specials_def breakdown_cats)
  have scaled: "scaled ! i = (es ! i * used) div S" if "i < 7" for i
    using that len by (simp add: scaled_def fold_update_nth sp)
  have out: "out = give_out R (order fracs) scaled"
    using False unfolding out_def fitSpecialEstimates_def Let_def sum_specials S_def [symmetric]
    by (simp add: scaled_def fracs_def R_def)
  have m: "mset (order fracs) = mset fracs" and sorted: "sorted_wrt (\<lambda>a b. snd b \<le> snd a) (order fracs)"
    using ok by (auto simp: fraction_sort_ok_def)
  have set_o: "set (order fracs) = set fracs" using m by (metis set_mset_mset)
  have len_o: "length (order fracs) = 7" using m by (metis fracs_def length_map size_mset sp(3))
  have dist: "distinct (map fst (order fracs))"
  proof -
    have "mset (map fst (order fracs)) = mset (map fst fracs)" by (simp add: m)
    moreover have "distinct (map fst fracs)" using sp by (simp add: fracs_def comp_def)
    ultimately show ?thesis using mset_eq_imp_distinct_iff by blast
  qed
  have "sum_list (map snd (order fracs)) = sum_list (map snd fracs)"
    using m by (metis mset_map sum_mset_sum_list)
  also have "\<dots> = (\<Sum>i<7. (es ! i * used) mod S)" by (simp add: fracs_def comp_def sum_specials)
  also have "\<dots> = (\<Sum>i<7. es ! i * used - S * scaled ! i)"
    by (intro sum.cong) (auto simp: scaled minus_mult_div_eq_mod)
  also have "\<dots> = S * used - S * (\<Sum>i<7. scaled ! i)"
    by (simp add: sum_subtractf sum_distrib_left sum_distrib_right S_def)
  finally have fracs_sum: "sum_list (map snd (order fracs)) = S * R" by (simp add: R_def algebra_simps)
  have frac_range: "\<forall>x \<in> set (order fracs). 0 \<le> snd x \<and> snd x < S" using S set_o by (auto simp: fracs_def)
  have R0: "0 \<le> R"
  proof -
    have "0 \<le> S * R" using frac_range fracs_sum by (metis (no_types, lifting) in_set_conv_nth length_map nth_map nth_mem sum_list_nonneg)
    with S show ?thesis by (simp add: zero_le_mult_iff)
  qed
  have R7: "R < 7"
  proof -
    have "sum_list (map snd (order fracs)) \<le> int (length (order fracs)) * (S - 1)"
      using frac_range by (intro sum_list_le) auto
    then have "S * R \<le> 7 * (S - 1)" using fracs_sum len_o by simp
    also have "\<dots> < S * 7" by simp
    finally show ?thesis using S by simp
  qed
  define G where "G = fst ` set (take (nat R) (order fracs))"
  have G: "G \<subseteq> {..<7}" using set_o sp by (auto simp: G_def fracs_def dest!: in_set_takeD)
  have out_nth: "out ! i = scaled ! i + (if i \<in> G then 1 else 0)" if "i < 7" for i
    unfolding out G_def using that len_s by (intro give_out_nth [OF dist]) simp
  have card: "card G = nat R"
  proof -
    have "distinct (map fst (take (nat R) (order fracs)))" using dist by (metis distinct_take take_map)
    then have "card G = length (take (nat R) (order fracs))" unfolding G_def by (metis distinct_card length_map set_map)
    then show ?thesis using len_o R7 by simp
  qed
  have positive: "0 < (es ! i * used) mod S" if "i \<in> G" for i
  proof -
    obtain k where k: "k < nat R" "k < length (order fracs)" "fst (order fracs ! k) = i"
      using \<open>i \<in> G\<close> by (auto simp: G_def in_set_conv_nth)
    have "order fracs ! k \<in> set fracs" using k(2) set_o nth_mem by blast
    then have eq: "snd (order fracs ! k) = (es ! i * used) mod S" using k(3) by (auto simp: fracs_def)
    show ?thesis
    proof (rule ccontr)
      assume "\<not> ?thesis"
      then have "snd (order fracs ! k) = 0" using eq S pos_mod_sign [of S "es ! i * used"] by linarith
      from sum_sorted_zero [OF sorted frac_range k(2) this] fracs_sum have "S * R \<le> int k * (S - 1)" by simp
      also have "\<dots> \<le> int k * S" by (simp add: right_diff_distrib)
      finally have "R \<le> int k" using S by (simp add: mult.commute)
      with k(1) show False by linarith
    qed
  qed
  have bound: "0 \<le> out ! i \<and> out ! i \<le> es ! i" if i: "i < 7" for i
  proof -
    have e: "0 \<le> es ! i" using nn i by simp
    have le: "scaled ! i * S \<le> es ! i * used" using scaled [OF i] S(1) by (metis div_mult_mod_eq le_add_same_cancel1 pos_mod_sign)
    have s0: "0 \<le> scaled ! i" using scaled [OF i] S e used by (simp add: pos_imp_zdiv_nonneg_iff)
    show ?thesis
    proof (cases "i \<in> G")
      case True
      have "es ! i \<noteq> 0" using positive [OF True] by auto
      with e S have "es ! i * used < es ! i * S" by simp
      with le have "scaled ! i * S < es ! i * S" by linarith
      with S have "scaled ! i < es ! i" by simp
      with True s0 show ?thesis using out_nth [OF i] by simp
    next
      case False
      have "es ! i * used \<le> es ! i * S" using e S by (intro mult_left_mono) auto
      with le have "scaled ! i * S \<le> es ! i * S" by linarith
      with S False s0 show ?thesis using out_nth [OF i] by simp
    qed
  qed
  have "(\<Sum>i<7. out ! i) = (\<Sum>i<7. scaled ! i) + (\<Sum>i<7. if i \<in> G then 1 else 0)"
    unfolding sum.distrib [symmetric] by (intro sum.cong) (auto simp: out_nth)
  also have "\<dots> = used" using sum_card_indicator [OF G] card R0 by (simp add: R_def)
  finally show ?thesis using bound S len_s by (simp add: out)
qed

definition measures_ok :: "measures \<Rightarrow> bool" where
  "measures_ok ms \<longleftrightarrow> length ms = 8 \<and>
     (\<forall>m \<in> set ms. 0 \<le> bm_characters m \<and> 0 \<le> bm_newlines m \<and> 0 \<le> bm_overheadTokens m)"

lemma on_cat_ok:
  assumes "measures_ok ms"
    and "\<And>m. 0 \<le> bm_characters m \<and> 0 \<le> bm_newlines m \<and> 0 \<le> bm_overheadTokens m \<Longrightarrow>
      0 \<le> bm_characters (f m) \<and> 0 \<le> bm_newlines (f m) \<and> 0 \<le> bm_overheadTokens (f m)"
  shows "measures_ok (on_cat c f ms)"
proof (cases "c < length ms")
  case True
  then have "\<forall>m \<in> set (ms[c := f (ms ! c)]). 0 \<le> bm_characters m \<and> 0 \<le> bm_newlines m \<and> 0 \<le> bm_overheadTokens m"
    using assms set_update_subset_insert [of ms c "f (ms ! c)"] nth_mem [OF True] by (fastforce simp: measures_ok_def)
  with assms(1) show ?thesis by (simp add: on_cat_def measures_ok_def)
next
  case False
  with assms(1) show ?thesis by (simp add: on_cat_def list_update_beyond not_less)
qed

lemma measure_add_ok: "measures_ok ms \<Longrightarrow> measures_ok (on_cat c (measure_add t) ms)"
  by (rule on_cat_ok) (auto simp: measure_add_def count_newlines_def)

lemma overhead_ok: "measures_ok ms \<Longrightarrow> 0 \<le> n \<Longrightarrow> measures_ok (on_cat c (addOverhead n) ms)"
  by (rule on_cat_ok) (auto simp: addOverhead_def)

lemma conversation_add_ok: "measures_ok ms \<Longrightarrow> measures_ok (conversation_add t ms)"
  by (simp add: conversation_add_def measure_add_ok)

lemma system_ok: "measures_ok ms \<Longrightarrow> measures_ok (measure_system_ranges t cursor rs ms)"
  by (induction t cursor rs ms rule: measure_system_ranges.induct) (auto simp: measure_add_ok)

lemma runtime_ok: "measures_ok (fst s) \<Longrightarrow> measures_ok (fst (measure_runtime_ranges t cursor rs s))"
  by (induction t cursor rs s rule: measure_runtime_ranges.induct) (auto simp: measure_add_ok Let_def)

lemma runtime_text_ok: "measures_ok (fst s) \<Longrightarrow> measures_ok (fst (measureRuntimeText order t s))"
  by (simp add: measureRuntimeText_def runtime_ok)

lemma part_ok: "measures_ok (fst s) \<Longrightarrow> measures_ok (fst (measure_part order p s))"
  by (auto simp: measure_part_def Let_def runtime_text_ok conversation_add_ok overhead_ok estimatedTokensPerImagePart_def split: option.split)

lemma fold_ok: "P s \<Longrightarrow> (\<And>x s. P s \<Longrightarrow> P (f x s)) \<Longrightarrow> P (fold f xs s)"
  by (induction xs arbitrary: s) auto

lemma message_ok: "measures_ok (fst s) \<Longrightarrow> measures_ok (fst (measureBreakdownMessage order m s))"
proof -
  assume "measures_ok (fst s)"
  then have 0: "measures_ok (on_cat breakdownCatConversation (addOverhead estimatedTokensPerMessageOverhead) (fst s))"
    by (rule overhead_ok) (simp add: estimatedTokensPerMessageOverhead_def)
  let ?s = "(on_cat breakdownCatConversation (addOverhead estimatedTokensPerMessageOverhead) (fst s), snd s)"
  obtain ms1 measured where 1: "(if mg_ContentParts m \<noteq> [] then fold (measure_part order) (mg_ContentParts m) ?s
      else if mg_Content m \<noteq> [] then measureRuntimeText order (mg_Content m) ?s else ?s) = (ms1, measured)" (is "?e = _")
    by (metis surj_pair)
  have "measures_ok (fst ?e)"
    using 0 by (auto intro: fold_ok [where P = "\<lambda>s. measures_ok (fst s)"] part_ok runtime_text_ok)
  then have ms1: "measures_ok ms1" using 1 by simp
  define ms2 where "ms2 = (if mg_ReasoningContent m \<noteq> [] then conversation_add (mg_ReasoningContent m) ms1 else ms1)"
  have ms2: "measures_ok ms2" using ms1 by (simp add: ms2_def conversation_add_ok)
  define ms3 where "ms3 = (if mg_ToolCalls m = [] then ms2
      else fold (\<lambda>c ms. conversation_add (td_Arguments c) (conversation_add (td_Name c)
             (conversation_add (td_Type c) (conversation_add (td_ID c) ms)))) (mg_ToolCalls m)
           (on_cat breakdownCatConversation (addOverhead (int (length (mg_ToolCalls m)) * estimatedTokensPerToolCallOverhead)) ms2))"
  have "measures_ok (fold (\<lambda>c ms. conversation_add (td_Arguments c) (conversation_add (td_Name c)
      (conversation_add (td_Type c) (conversation_add (td_ID c) ms)))) cs x)" if "measures_ok x" for cs x
    using that by (rule fold_ok) (simp add: conversation_add_ok)
  moreover have "measures_ok (on_cat breakdownCatConversation (addOverhead (int (length (mg_ToolCalls m)) * estimatedTokensPerToolCallOverhead)) ms2)"
    using ms2 by (rule overhead_ok) (simp add: estimatedTokensPerToolCallOverhead_def)
  ultimately have "measures_ok ms3" using ms2 by (simp only: ms3_def split: if_split) blast
  moreover have "measureBreakdownMessage order m s =
      (if TrimSpace (mg_Role m) = ''system'' then (measureSystemPrompt order (mg_Content m) (fst ?s), snd ?s) else (ms3, measured))"
    unfolding measureBreakdownMessage_def Let_def 1 prod.case ms2_def [symmetric] ms3_def [symmetric] by (rule refl)
  moreover have "measures_ok (measureSystemPrompt order (mg_Content m) (fst ?s))"
    using 0 by (simp add: measureSystemPrompt_def system_ok)
  ultimately show ?thesis by (simp only: fst_conv split: if_split) blast
qed

lemma tools_ok: "measures_ok ms \<Longrightarrow> measures_ok (measure_tools tools ms)"
  unfolding measure_tools_def by (rule fold_ok) (auto simp: measure_add_ok)

lemma compiled_ok: "measures_ok (measure_compiled order compiled)"
proof -
  have 0: "measures_ok (replicate breakdownCatCount no_measure)"
    by (simp add: measures_ok_def breakdown_cats no_measure_def)
  have "measures_ok (fst (fold (measureBreakdownMessage order) msgs s))" if "measures_ok (fst s)" for msgs s
    using that by (intro fold_ok [where P = "\<lambda>s. measures_ok (fst s)"] message_ok)
  then show ?thesis using 0 by (auto simp: measure_compiled_def Let_def tools_ok split: option.split)
qed

lemma estimatedTokens_nonneg: "0 \<le> bm_characters m \<Longrightarrow> 0 \<le> bm_newlines m \<Longrightarrow> 0 \<le> bm_overheadTokens m \<Longrightarrow> 0 \<le> estimatedTokens m"
  by (auto simp: estimatedTokens_def Let_def)

lemma uint_clamp: "0 \<le> v \<Longrightarrow> v < 2 ^ 32 \<Longrightarrow> uint (clampInt64ToUint32 v) = v"
  by (auto simp: clampInt64ToUint32_def take_bit_int_eq_self unsigned_of_int)

text \<open>One text is estimated alike in both ways.\<close>

lemma measure_single: "estimatedTokens (measure_add t no_measure) = estimateTextTokens t"
proof (cases "TrimSpace t = []")
  case False
  then have "0 < RuneCount (TrimSpace t)" by (rule RuneCount_pos)
  with False show ?thesis by (simp add: estimatedTokens_def measure_add_def no_measure_def estimateTextTokens_def Let_def)
qed (simp add: estimatedTokens_def measure_add_def no_measure_def estimateTextTokens_def)

lemma sum_category_tokens:
  assumes "\<forall>i<n. 0 \<le> es ! i \<and> es ! i < 2 ^ 32"
  shows "sum_list (map (uint \<circ> pb_EstimatedTokens) (List.map_filter (breakdown_category ms es) [0..<n])) = (\<Sum>i<n. es ! i)"
  using assms
proof (induction n)
  case (Suc n)
  have "es ! n = (case breakdown_category ms es n of None \<Rightarrow> 0 | Some c \<Rightarrow> uint (pb_EstimatedTokens c))"
    using Suc.prems by (auto simp: breakdown_category_def Let_def uint_clamp split: prod.split)
  then show ?case using Suc by (auto simp: List.map_filter_simps map_filter_append split: option.splits)
qed (simp add: List.map_filter_simps)

text \<open>
  C33. The breakdown of a prompt that is shown adds up: whatever was measured, and for every order that
  sorting may give, the tokens of the shown categories sum up to the tokens in use, which are shown as the
  total, and no category but the conversation is shown with more tokens than were estimated for it.
\<close>
theorem breakdown_adds_up:
  assumes "fraction_sort_ok forder" "usedTokens \<noteq> 0" "maxTokens \<noteq> 0"
  shows "\<exists>snapshot. estimateCheckpointPromptTokenBreakdown rorder forder compiled usedTokens maxTokens = Some snapshot \<and>
    ps_TotalUsedTokens snapshot = usedTokens \<and>
    sum_list (map (uint \<circ> pb_EstimatedTokens) (ps_Categories snapshot)) = uint usedTokens \<and>
    (\<forall>c \<in> set (ps_Categories snapshot). pb_Id c = ''conversation'' \<or>
       (\<exists>i < 7. pb_Id c = fst (breakdownCategoryDefinitions ! i) \<and>
          uint (pb_EstimatedTokens c) \<le> estimatedTokens (measure_compiled rorder compiled ! i)))"
proof -
  let ?ms = "measure_compiled rorder compiled" and ?used = "uint usedTokens"
  define es0 where "es0 = map estimatedTokens ?ms"
  define fitted where "fitted = fitSpecialEstimates forder es0 ?used"
  define es where "es = final_estimates forder es0 ?used"
  have used: "0 < ?used" "?used < 2 ^ 32" using assms(2) uint_lt2p [of usedTokens] by (auto simp: word_neq_0_conv word_less_def)
  have len: "length es0 = 8" and nn: "\<forall>e \<in> set es0. 0 \<le> e"
    using compiled_ok [of rorder compiled] by (auto simp: es0_def measures_ok_def intro!: estimatedTokens_nonneg)
  note fit = fit_estimates [OF assms(1) len nn used(1), folded fitted_def]
  then have fit_len: "length fitted = 8" and fit_range: "\<And>i. i < 7 \<Longrightarrow> 0 \<le> fitted ! i \<and> fitted ! i \<le> es0 ! i"
    and fit_sum: "(\<Sum>i<7. fitted ! i) \<le> ?used" by auto
  have es: "es = fitted[7 := ?used - (\<Sum>i<7. fitted ! i)]"
    using used(1) fit_sum unfolding es_def final_estimates_def Let_def fitted_def [symmetric] sum_specials
    by (simp add: breakdownCatConversation_def)
  have es_nth: "es ! i = fitted ! i" if "i < 7" for i using that by (simp add: es)
  have es7: "es ! 7 = ?used - (\<Sum>i<7. fitted ! i)" using fit_len by (simp add: es)
  have eight: "(\<Sum>i<8. es ! i) = ?used"
  proof -
    have "(\<Sum>i<8. es ! i) = (\<Sum>i<7. es ! i) + es ! 7"
      using sum.lessThan_Suc [of "(!) es" 7] by simp
    also have "(\<Sum>i<7. es ! i) = (\<Sum>i<7. fitted ! i)" by (intro sum.cong) (auto simp: es_nth)
    finally show ?thesis by (simp add: es7)
  qed
  have range: "0 \<le> es ! i \<and> es ! i < 2 ^ 32" if "i < 8" for i
  proof -
    have nonneg: "0 \<le> es ! j" if "j < 8" for j
    proof (cases "j < 7")
      case True
      with fit_range [of j] show ?thesis by (simp add: es_nth)
    next
      case False
      with that have "j = 7" by simp
      with es7 fit_sum show ?thesis by simp
    qed
    have "es ! i \<le> (\<Sum>i<8. es ! i)" using \<open>i < 8\<close> nonneg by (intro member_le_sum) auto
    with eight used(2) nonneg [OF that] show ?thesis by simp
  qed
  let ?cats = "List.map_filter (breakdown_category ?ms es) [0..<8]"
  have cats: "sum_list (map (uint \<circ> pb_EstimatedTokens) ?cats) = ?used"
    using sum_category_tokens [of 8 es ?ms] range eight by simp
  have snap: "estimateCheckpointPromptTokenBreakdown rorder forder compiled usedTokens maxTokens =
      Some \<lparr>ps_TotalUsedTokens = clampInt64ToUint32 ?used, ps_MaxTokens = maxTokens, ps_Categories = ?cats\<rparr>"
    using used(1) assms(3) cats
    unfolding estimateCheckpointPromptTokenBreakdown_def Let_def es0_def [symmetric] breakdownCatCount_def
    by (simp add: es_def)
  have "clampInt64ToUint32 ?used = usedTokens"
    using uint_clamp [of ?used] used by (simp add: word_uint_eq_iff)
  moreover have "pb_Id c = ''conversation'' \<or> (\<exists>i < 7. pb_Id c = fst (breakdownCategoryDefinitions ! i) \<and>
      uint (pb_EstimatedTokens c) \<le> estimatedTokens (?ms ! i))" if "c \<in> set ?cats" for c
  proof -
    from that obtain i where i: "i < 8" "breakdown_category ?ms es i = Some c" by (auto simp: List.map_filter_def)
    then have c: "pb_Id c = fst (breakdownCategoryDefinitions ! i)" "pb_EstimatedTokens c = clampInt64ToUint32 (es ! i)"
      by (auto simp: breakdown_category_def Let_def split: prod.splits if_splits)
    show ?thesis
    proof (cases "i < 7")
      case True
      have "uint (pb_EstimatedTokens c) = fitted ! i" using c(2) range [OF i(1)] uint_clamp es_nth [OF True] by simp
      moreover have "es0 ! i = estimatedTokens (?ms ! i)" using len i by (simp add: es0_def)
      ultimately show ?thesis using c(1) True fit_range [OF True] by auto
    next
      case False
      with i have "i = 7" by simp
      with c show ?thesis by (simp add: breakdownCategoryDefinitions_def)
    qed
  qed
  ultimately show ?thesis using snap cats by simp
qed

text \<open>The order of \<open>sort.Slice\<close> on a short slice, an insertion sort.\<close>

definition demo_fraction_sort :: fraction_sort where
  "demo_fraction_sort xs = rev (sort_key snd xs)"

lemma demo_fraction_sort_ok: "fraction_sort_ok demo_fraction_sort"
proof -
  have "sorted_wrt (\<lambda>a b. snd b \<le> snd a) (demo_fraction_sort xs)" for xs :: "(nat \<times> int) list"
    using sorted_sort_key [of snd xs] by (simp add: demo_fraction_sort_def sorted_wrt_rev sorted_map)
  then show ?thesis by (simp add: fraction_sort_ok_def demo_fraction_sort_def)
qed

theorem breakdown_adds_up_witness:
  "\<exists>snapshot. estimateCheckpointPromptTokenBreakdown id demo_fraction_sort None 100 1000 = Some snapshot \<and>
    ps_TotalUsedTokens snapshot = 100 \<and>
    sum_list (map (uint \<circ> pb_EstimatedTokens) (ps_Categories snapshot)) = uint (100 :: u32) \<and>
    (\<forall>c \<in> set (ps_Categories snapshot). pb_Id c = ''conversation'' \<or>
       (\<exists>i < 7. pb_Id c = fst (breakdownCategoryDefinitions ! i) \<and>
          uint (pb_EstimatedTokens c) \<le> estimatedTokens (measure_compiled id None ! i)))"
  by (rule breakdown_adds_up [OF demo_fraction_sort_ok]) simp_all

text \<open>
  The sections of a tag are cut out right: from each position the scan ends, and the sections it finds
  lie apart, in order and within the text, each from an opening of the tag to the end of a closing one. And
  a text that is measured alone is estimated as the estimate of a text says.
\<close>
theorem tagged_sections_apart:
  "ranges_apart cursor (collectTagRanges t tag c cursor) \<and>
   (\<forall>r \<in> set (collectTagRanges t tag c cursor). range_ok t tag r \<and> br_category r = c) \<and>
   estimatedTokens (measure_add t no_measure) = estimateTextTokens t"
  using collectTagRanges_ok measure_single by blast

end
