(* ===== verification/Think_Tags.thy ===== *)
theory Think_Tags
  imports Token_Estimate
begin

text \<open>
  The parser of \<open>openai.go\<close> that splits the text of a provider which marks its reasoning with
  \<open><think>\<close> tags. Text arrives in chunks, and a tag can be cut at any place: the parser holds back the end of
  a chunk that may be the beginning of a tag. The result does not depend on how the text was cut.
\<close>

subsection \<open>The parser\<close>

definition openAIThinkOpenTag :: string where "openAIThinkOpenTag = ''<think>''"
definition openAIThinkCloseTag :: string where "openAIThinkCloseTag = ''</think>''"

datatype openAIContentPartKind = openAIContentPartText | openAIContentPartReasoning | openAIContentPartThinkingCompleted

record openAIContentPart =
  op_Kind :: openAIContentPartKind
  op_Text :: string

record openAIThinkTagParser =
  tp_carry :: string
  tp_inThink :: bool

definition strings_HasSuffix :: "string \<Rightarrow> string \<Rightarrow> bool" where
  "strings_HasSuffix s p \<longleftrightarrow> length p \<le> length s \<and> drop (length s - length p) s = p"

fun longest_suffix :: "nat \<Rightarrow> string \<Rightarrow> string \<Rightarrow> nat" where
  "longest_suffix 0 t tag = 0"
| "longest_suffix (Suc n) t tag = (if strings_HasSuffix t (take (Suc n) tag) then Suc n else longest_suffix n t tag)"

definition trailingTagPrefixLength :: "string \<Rightarrow> string \<Rightarrow> nat" where
  "trailingTagPrefixLength t tag = longest_suffix (if length tag - 1 < length t then length tag - 1 else length t) t tag"

definition awaited_tag :: "bool \<Rightarrow> string" where
  "awaited_tag inThink = (if inThink then openAIThinkCloseTag else openAIThinkOpenTag)"

definition part_kind :: "bool \<Rightarrow> openAIContentPartKind" where
  "part_kind inThink = (if inThink then openAIContentPartReasoning else openAIContentPartText)"

definition text_part :: "bool \<Rightarrow> string \<Rightarrow> openAIContentPart list" where
  "text_part inThink t = (if t = [] then [] else [\<lparr>op_Kind = part_kind inThink, op_Text = t\<rparr>])"

lemma awaited_tag_nonempty [simp]: "awaited_tag b \<noteq> []" "0 < length (awaited_tag b)"
  by (simp_all add: awaited_tag_def openAIThinkOpenTag_def openAIThinkCloseTag_def)

function consume_loop :: "bool \<Rightarrow> string \<Rightarrow> openAIContentPart list \<times> openAIThinkTagParser" where
  "consume_loop inThink input =
     (if input = [] then ([], \<lparr>tp_carry = [], tp_inThink = inThink\<rparr>)
      else case strings_Index input (awaited_tag inThink) of
             Some i \<Rightarrow>
               (case consume_loop (\<not> inThink) (drop (i + length (awaited_tag inThink)) input) of
                  (ps, p) \<Rightarrow>
                    (text_part inThink (take i input) @
                     (if inThink then [\<lparr>op_Kind = openAIContentPartThinkingCompleted, op_Text = []\<rparr>] else []) @ ps, p))
           | None \<Rightarrow>
               (let carryLen = trailingTagPrefixLength input (awaited_tag inThink)
                in (text_part inThink (take (length input - carryLen) input),
                    \<lparr>tp_carry = drop (length input - carryLen) input, tp_inThink = inThink\<rparr>)))"
  by pat_completeness auto
termination
  by (relation "measure (\<lambda>(_, input). length input)") auto

declare consume_loop.simps [simp del]

definition Consume :: "openAIThinkTagParser \<Rightarrow> string \<Rightarrow> openAIContentPart list \<times> openAIThinkTagParser" where
  "Consume p t = (if t = [] then ([], p) else consume_loop (tp_inThink p) (tp_carry p @ t))"

definition Flush :: "openAIThinkTagParser \<Rightarrow> openAIContentPart list \<times> openAIThinkTagParser" where
  "Flush p = (text_part (tp_inThink p) (tp_carry p), p\<lparr>tp_carry := []\<rparr>)"

text \<open>A response: its chunks are consumed one after the other and the rest is flushed.\<close>

fun consume_all :: "openAIThinkTagParser \<Rightarrow> string list \<Rightarrow> openAIContentPart list \<times> openAIThinkTagParser" where
  "consume_all p [] = ([], p)"
| "consume_all p (t # ts) = (case Consume p t of (ps, p1) \<Rightarrow> case consume_all p1 ts of (qs, p2) \<Rightarrow> (ps @ qs, p2))"

definition response_parts :: "string list \<Rightarrow> openAIContentPart list" where
  "response_parts ts =
     (case consume_all \<lparr>tp_carry = [], tp_inThink = False\<rparr> ts of (ps, p) \<Rightarrow> ps @ fst (Flush p))"

subsection \<open>Searching\<close>

lemma Index_Some: "p \<noteq> [] \<Longrightarrow> strings_Index s p = Some i \<longleftrightarrow> has_prefix (drop i s) p \<and> (\<forall>j < i. \<not> has_prefix (drop j s) p)"
proof (induction s p arbitrary: i rule: strings_Index.induct)
  case (1 p)
  then show ?case by (cases p) auto
next
  case (2 x xs p)
  show ?case
  proof (cases i)
    case 0
    then show ?thesis by auto
  next
    case (Suc k)
    then show ?thesis using 2 by (auto simp: less_Suc_eq_0_disj)
  qed
qed

lemma Index_None: "p \<noteq> [] \<Longrightarrow> strings_Index s p = None \<longleftrightarrow> (\<forall>j. \<not> has_prefix (drop j s) p)"
proof (induction s p rule: strings_Index.induct)
  case (1 p)
  then show ?case by (cases p) auto
next
  case (2 x xs p)
  have "(\<forall>j. \<not> has_prefix (drop j (x # xs)) p) \<longleftrightarrow> \<not> has_prefix (x # xs) p \<and> (\<forall>j. \<not> has_prefix (drop j xs) p)"
    by (metis drop0 drop_Suc_Cons not0_implies_Suc)
  with 2 show ?case by auto
qed

lemma longest_suffix_props:
  "longest_suffix n t tag \<le> n"
  "n \<le> length tag \<Longrightarrow> n \<le> length t \<Longrightarrow> drop (length t - longest_suffix n t tag) t = take (longest_suffix n t tag) tag"
  "k \<le> n \<Longrightarrow> n \<le> length tag \<Longrightarrow> k \<le> length t \<Longrightarrow> drop (length t - k) t = take k tag \<Longrightarrow> k \<le> longest_suffix n t tag"
proof -
  show "longest_suffix n t tag \<le> n" by (induction n) auto
  show "n \<le> length tag \<Longrightarrow> n \<le> length t \<Longrightarrow> drop (length t - longest_suffix n t tag) t = take (longest_suffix n t tag) tag"
    by (induction n) (auto simp: strings_HasSuffix_def)
  show "k \<le> n \<Longrightarrow> n \<le> length tag \<Longrightarrow> k \<le> length t \<Longrightarrow> drop (length t - k) t = take k tag \<Longrightarrow> k \<le> longest_suffix n t tag"
    by (induction n) (auto simp: strings_HasSuffix_def le_Suc_eq)
qed


lemma trailing_le: "trailingTagPrefixLength t tag \<le> length t"
  unfolding trailingTagPrefixLength_def by (rule order_trans [OF longest_suffix_props(1)]) simp

lemma trailing_max:
  assumes "drop (length t - k) t = take k tag" "k < length tag" "k \<le> length t"
  shows "k \<le> trailingTagPrefixLength t tag"
  unfolding trailingTagPrefixLength_def by (rule longest_suffix_props(3)) (use assms in auto)

lemma trailing_suffix: "tag \<noteq> [] \<Longrightarrow> drop (length t - trailingTagPrefixLength t tag) t = take (trailingTagPrefixLength t tag) tag"
  unfolding trailingTagPrefixLength_def by (rule longest_suffix_props(2)) auto

lemma trailing_unique:
  assumes "n \<le> length t" "n < length tag" "drop (length t - n) t = take n tag"
    and "\<And>k. k \<le> length t \<Longrightarrow> k < length tag \<Longrightarrow> drop (length t - k) t = take k tag \<Longrightarrow> k \<le> n"
  shows "trailingTagPrefixLength t tag = n"
proof (rule antisym)
  have "trailingTagPrefixLength t tag < length tag"
    unfolding trailingTagPrefixLength_def using assms(2) longest_suffix_props(1) [of "length tag - 1" t tag]
      longest_suffix_props(1) [of "length t" t tag] by auto
  then show "trailingTagPrefixLength t tag \<le> n"
    using assms(4) [OF trailing_le _ trailing_suffix] assms(2) by force
  show "n \<le> trailingTagPrefixLength t tag" by (rule trailing_max [OF assms(3,2,1)])
qed

text \<open>What is held back is all that can be part of a tag which the next chunk completes.\<close>

lemma no_early_tag:
  assumes "tag \<noteq> []" "strings_Index s tag = None" "p + trailingTagPrefixLength s tag < length s"
  shows "\<not> has_prefix (drop p (s @ y)) tag"
proof
  assume "has_prefix (drop p (s @ y)) tag"
  then obtain z where z: "drop p s @ y = tag @ z" using assms(3) by (auto simp: has_prefix_iff)
  show False
  proof (cases "length tag \<le> length (drop p s)")
    case True
    then have "has_prefix (drop p s) tag" using z by (auto simp: append_eq_append_conv2 has_prefix_iff)
    with assms(1,2) show False by (simp add: Index_None)
  next
    case False
    then have "drop p s = take (length s - p) tag" using z by (auto simp: append_eq_conv_conj append_eq_append_conv2)
    moreover have "length s - (length s - p) = p" using assms(3) by simp
    ultimately have "length s - p \<le> trailingTagPrefixLength s tag"
      using trailing_max [of s "length s - p" tag] False by simp
    with assms(3) show False by simp
  qed
qed


abbreviation held :: "string \<Rightarrow> string \<Rightarrow> string" where
  "held s tag \<equiv> drop (length s - trailingTagPrefixLength s tag) s"

lemma Index_held:
  assumes "tag \<noteq> []" "strings_Index s tag = None"
  shows "strings_Index (s @ y) tag = map_option ((+) (length s - trailingTagPrefixLength s tag)) (strings_Index (held s tag @ y) tag)"
proof -
  define l where "l = length s - trailingTagPrefixLength s tag"
  have d: "drop (l + j) (s @ y) = drop j (held s tag @ y)" for j
    using trailing_le [of s tag] by (simp add: l_def) (metis add.commute drop_drop)
  have e: "\<not> has_prefix (drop p (s @ y)) tag" if "p < l" for p
    using no_early_tag [OF assms] that by (simp add: l_def)
  show ?thesis
  proof (cases "strings_Index (held s tag @ y) tag")
    case None
    then have n: "\<not> has_prefix (drop j (held s tag @ y)) tag" for j using assms(1) Index_None by blast
    have "\<not> has_prefix (drop p (s @ y)) tag" for p
    proof (cases "p < l")
      case False
      then have "p = l + (p - l)" by simp
      then show ?thesis using n [of "p - l"] d [of "p - l"] by metis
    qed (rule e)
    then have "strings_Index (s @ y) tag = None" using assms(1) Index_None by blast
    with None show ?thesis by simp
  next
    case (Some i)
    then have i: "has_prefix (drop (l + i) (s @ y)) tag" "\<forall>j < i. \<not> has_prefix (drop (l + j) (s @ y)) tag"
      using assms(1) d by (simp_all add: Index_Some)
    have "\<not> has_prefix (drop j (s @ y)) tag" if "j < l + i" for j
      using e [of j] i(2) that by (cases "j < l") (auto, metis add_diff_inverse_nat nat_add_left_cancel_less)
    with i(1) have "strings_Index (s @ y) tag = Some (l + i)" using assms(1) Index_Some by blast
    with Some show ?thesis by (simp add: l_def)
  qed
qed

lemma trailing_less: "tag \<noteq> [] \<Longrightarrow> trailingTagPrefixLength t tag < length tag"
  using longest_suffix_props(1) [of "length tag - 1" t tag] longest_suffix_props(1) [of "length t" t tag]
  by (cases tag) (auto simp: trailingTagPrefixLength_def)

lemma trailing_held:
  assumes "tag \<noteq> []"
  shows "trailingTagPrefixLength (s @ y) tag = trailingTagPrefixLength (held s tag @ y) tag"
proof (rule trailing_unique)
  let ?c = "held s tag" and ?n = "trailingTagPrefixLength (held s tag @ y) tag"
  have lc: "length ?c = trailingTagPrefixLength s tag" using trailing_le [of s tag] by simp
  have sfx: "drop (length (s @ y) - k) (s @ y) = drop (length (?c @ y) - k) (?c @ y)" if "k \<le> length (?c @ y)" for k
  proof -
    have "s @ y = take (length s - length ?c) s @ ?c @ y" using trailing_le [of s tag] by simp
    moreover have "drop (length (u @ v) - k) (u @ v) = drop (length v - k) v" if "k \<le> length v" for u v :: string
      using that by simp
    ultimately show ?thesis using that by metis
  qed
  show n: "?n \<le> length (s @ y)" using trailing_le [of "?c @ y" tag] lc trailing_le [of s tag] by simp
  show "?n < length tag"
    by (rule trailing_less [OF assms])
  show "drop (length (s @ y) - ?n) (s @ y) = take ?n tag"
    using sfx [OF trailing_le] trailing_suffix [OF assms, of "?c @ y"] by simp
  fix k assume k: "k \<le> length (s @ y)" "k < length tag" "drop (length (s @ y) - k) (s @ y) = take k tag"
  show "k \<le> ?n"
  proof (cases "k \<le> length (?c @ y)")
    case True
    then show ?thesis using trailing_max [of "?c @ y" k tag] sfx [OF True] k by simp
  next
    case False
    then have ky: "length y < k" "length ?c < k - length y" by auto
    have "drop (length s - (k - length y)) s @ y = take k tag" using k(1,3) ky by simp
    then have "drop (length s - (k - length y)) s = take (length (drop (length s - (k - length y)) s)) (take k tag)"
      by (metis append_eq_conv_conj)
    then have "drop (length s - (k - length y)) s = take (k - length y) tag" using k(1,2) ky by simp
    then have "k - length y \<le> trailingTagPrefixLength s tag"
      using trailing_max [of s "k - length y" tag] k ky by simp
    with ky lc show ?thesis by simp
  qed
qed

subsection \<open>Chunks do not matter\<close>

text \<open>The contents of parts, character by character.\<close>

definition contents :: "openAIContentPart list \<Rightarrow> (openAIContentPartKind \<times> char option) list" where
  "contents ps = concat (map (\<lambda>p. if op_Kind p = openAIContentPartThinkingCompleted then [(op_Kind p, None)]
     else map (\<lambda>c. (op_Kind p, Some c)) (op_Text p)) ps)"

lemma contents_append [simp]: "contents (ps @ qs) = contents ps @ contents qs"
  by (simp add: contents_def)

lemma contents_text [simp]: "contents (text_part b t) = map (\<lambda>c. (part_kind b, Some c)) t"
  by (simp add: contents_def text_part_def part_kind_def)

lemma contents_Nil [simp]: "contents [] = []"
  by (simp add: contents_def)

lemma Index_append: "p \<noteq> [] \<Longrightarrow> strings_Index s p = Some i \<Longrightarrow> strings_Index (s @ y) p = Some i"
proof -
  assume p: "p \<noteq> []" and i: "strings_Index s p = Some i"
  from strings_Index_le [OF i] have le: "i + length p \<le> length s" .
  have "has_prefix (drop i s @ y) p" using i p by (auto simp: Index_Some has_prefix_iff)
  moreover have "\<not> has_prefix (drop j s @ y) p" if "j < i" for j
  proof
    assume "has_prefix (drop j s @ y) p"
    then have "has_prefix (drop j s) p" using le that by (auto simp: has_prefix_iff append_eq_append_conv2)
    with i p that show False by (simp add: Index_Some)
  qed
  ultimately show ?thesis using le p by (simp add: Index_Some)
qed

lemma loop_None:
  assumes "strings_Index s (awaited_tag b) = None"
  shows "consume_loop b s = (text_part b (take (length s - trailingTagPrefixLength s (awaited_tag b)) s),
    \<lparr>tp_carry = held s (awaited_tag b), tp_inThink = b\<rparr>)"
  using assms by (subst consume_loop.simps) (simp add: text_part_def Let_def)

lemma loop_Some:
  assumes "strings_Index s (awaited_tag b) = Some i" "consume_loop (\<not> b) (drop (i + length (awaited_tag b)) s) = (ps, p)"
  shows "\<exists>qs. consume_loop b s = (qs, p) \<and> contents qs = map (\<lambda>c. (part_kind b, Some c)) (take i s) @
    (if b then [(openAIContentPartThinkingCompleted, None)] else []) @ contents ps"
proof -
  have "s \<noteq> []" using strings_Index_le [OF assms(1)] awaited_tag_nonempty(2) [of b] by auto
  with assms show ?thesis by (subst consume_loop.simps) (simp add: contents_def [of "[_]"])
qed

lemma loop_append:
  assumes "consume_loop b s = (ps, p)" "consume_loop (tp_inThink p) (tp_carry p @ y) = (rs, p2)"
  shows "\<exists>qs. consume_loop b (s @ y) = (qs, p2) \<and> contents qs = contents ps @ contents rs"
  using assms
proof (induction "length s" arbitrary: b s ps p rule: less_induct)
  case less
  let ?tag = "awaited_tag b"
  show ?case
  proof (cases "strings_Index s ?tag")
    case None
    define l where "l = length s - trailingTagPrefixLength s ?tag"
    define c where "c = held s ?tag"
    have sc: "s = take l s @ c" "length (take l s) = l" by (simp_all add: l_def c_def)
    have p: "ps = text_part b (take l s)" "p = \<lparr>tp_carry = c, tp_inThink = b\<rparr>"
      using less(2) loop_None [OF None] by (auto simp: l_def c_def)
    have r: "consume_loop b (c @ y) = (rs, p2)" using less(3) p by simp
    have i: "strings_Index (s @ y) ?tag = map_option ((+) l) (strings_Index (c @ y) ?tag)"
      using Index_held [OF _ None] by (simp add: l_def c_def)
    have d: "drop (l + k) (s @ y) = drop k (c @ y)" "take (l + k) (s @ y) = take l s @ take k (c @ y)" for k
    proof -
      have "s @ y = take l s @ c @ y" using sc(1) by (metis append.assoc)
      then show "drop (l + k) (s @ y) = drop k (c @ y)" "take (l + k) (s @ y) = take l s @ take k (c @ y)"
        by (simp_all only: drop_append take_append sc(2)) (use sc(2) in simp_all)
    qed
    show ?thesis
    proof (cases "strings_Index (c @ y) ?tag")
      case N: None
      let ?t = "trailingTagPrefixLength (c @ y) ?tag"
      have t: "trailingTagPrefixLength (s @ y) ?tag = ?t" using trailing_held [of ?tag s y] by (simp add: c_def)
      have le: "length (s @ y) - ?t = l + (length (c @ y) - ?t)"
      proof -
        have "length s = l + length c" using sc by (metis length_append)
        then show ?thesis using trailing_le [of "c @ y" ?tag] by simp
      qed
      have "strings_Index (s @ y) ?tag = None" using i N by simp
      from loop_None [OF this] loop_None [OF N] r show ?thesis unfolding t le d p by simp
    next
      case S: (Some j)
      obtain qs' p' where q: "consume_loop (\<not> b) (drop (j + length ?tag) (c @ y)) = (qs', p')" by fastforce
      then have q': "consume_loop (\<not> b) (drop (l + j + length ?tag) (s @ y)) = (qs', p')" using d(1) [of "j + length ?tag"] by (simp add: add.assoc)
      have "strings_Index (s @ y) ?tag = Some (l + j)" using i S by simp
      from loop_Some [OF this q'] loop_Some [OF S q] r show ?thesis unfolding p d contents_text by auto
    qed
  next
    case (Some i)
    have le: "i + length ?tag \<le> length s" by (rule strings_Index_le [OF Some])
    obtain ps' p' where q: "consume_loop (\<not> b) (drop (i + length ?tag) s) = (ps', p')" by fastforce
    from loop_Some [OF Some q] less(2) have c: "p' = p" "contents ps = map (\<lambda>c. (part_kind b, Some c)) (take i s) @
        (if b then [(openAIContentPartThinkingCompleted, None)] else []) @ contents ps'" by auto
    have "length (drop (i + length ?tag) s) < length s" using le awaited_tag_nonempty(2) [of b] by (simp only: length_drop)
    from less(1) [OF this q] c(1) less(3) obtain qs where qs: "consume_loop (\<not> b) (drop (i + length ?tag) s @ y) = (qs, p2)"
      "contents qs = contents ps' @ contents rs" by blast
    have "consume_loop (\<not> b) (drop (i + length ?tag) (s @ y)) = (qs, p2)" using qs(1) le by simp
    from loop_Some [OF Index_append [OF _ Some] this] show ?thesis using c(2) qs(2) le by auto
  qed
qed


lemma loop_Nil [simp]: "consume_loop b [] = ([], \<lparr>tp_carry = [], tp_inThink = b\<rparr>)"
  by (subst consume_loop.simps) simp

text \<open>A parser holds back less than the tag it waits for, so that looking again at what it holds finds nothing.\<close>

definition settled :: "openAIThinkTagParser \<Rightarrow> bool" where
  "settled p \<longleftrightarrow> consume_loop (tp_inThink p) (tp_carry p) = ([], p)"

lemma held_settled:
  assumes "strings_Index s (awaited_tag b) = None"
  shows "settled \<lparr>tp_carry = held s (awaited_tag b), tp_inThink = b\<rparr>"
proof -
  let ?tag = "awaited_tag b" and ?c = "held s (awaited_tag b)"
  have "strings_Index ?c ?tag = None" using Index_held [OF _ assms, of "[]"] assms by simp
  moreover have "trailingTagPrefixLength ?c ?tag = length ?c"
    using trailing_held [of ?tag s "[]"] trailing_le [of s ?tag] by simp
  ultimately show ?thesis using loop_None [of ?c b] by (simp add: settled_def text_part_def)
qed

lemma loop_settled: "consume_loop b s = (ps, p) \<Longrightarrow> settled p"
proof (induction "length s" arbitrary: b s ps p rule: less_induct)
  case less
  show ?case
  proof (cases "strings_Index s (awaited_tag b)")
    case None
    then show ?thesis using less(2) loop_None held_settled by auto
  next
    case (Some i)
    obtain ps' p' where q: "consume_loop (\<not> b) (drop (i + length (awaited_tag b)) s) = (ps', p')" by fastforce
    have "length (drop (i + length (awaited_tag b)) s) < length s" using strings_Index_le [OF Some] awaited_tag_nonempty(2) [of b] by (simp only: length_drop)
    from less(1) [OF this q] loop_Some [OF Some q] less(2) show ?thesis by auto
  qed
qed

lemma consume_all_loop:
  assumes "settled p" "consume_all p ts = (ps, p')"
  shows "\<exists>qs. consume_loop (tp_inThink p) (tp_carry p @ concat ts) = (qs, p') \<and> contents qs = contents ps"
  using assms
proof (induction ts arbitrary: p ps)
  case Nil
  then show ?case by (simp add: settled_def)
next
  case (Cons t ts)
  obtain as p1 where c: "consume_loop (tp_inThink p) (tp_carry p @ t) = (as, p1)" by fastforce
  then have C: "Consume p t = (as, p1)" using Cons(2) by (auto simp: Consume_def settled_def)
  obtain bs where b: "consume_all p1 ts = (bs, p')" "ps = as @ bs" using Cons(3) C by (auto split: prod.splits)
  from Cons(1) [OF loop_settled [OF c] b(1)] obtain qs where
    q: "consume_loop (tp_inThink p1) (tp_carry p1 @ concat ts) = (qs, p')" "contents qs = contents bs" by auto
  from loop_append [OF c q(1)] q(2) b(2) show ?case by simp
qed

text \<open>
  C1. The reasoning and the text found in a response do not depend on how the provider cut it into chunks: they
  are those of the whole response at once, character by character, with the ends of the reasoning at the same places.
\<close>

theorem chunks_do_not_matter: "contents (response_parts ts) = contents (response_parts [concat ts])"
proof -
  let ?p = "\<lparr>tp_carry = [], tp_inThink = False\<rparr>"
  have s: "settled ?p" by (simp add: settled_def)
  obtain ps p where 1: "consume_all ?p ts = (ps, p)" by fastforce
  obtain qs q where 2: "consume_all ?p [concat ts] = (qs, q)" by fastforce
  from consume_all_loop [OF s 1] consume_all_loop [OF s 2] have "p = q" "contents ps = contents qs" by auto
  then show ?thesis unfolding response_parts_def 1 2 by simp
qed

end
