(* ===== verification/Tool_Call_Ids.thy ===== *)
theory Tool_Call_Ids
  imports Token_Estimate
begin

text \<open>
  The ids of tool calls (\<open>tool_call_id.go\<close>): an id of a provider is put into the namespace of its model call and
  kept short enough for every provider; ids of older versions are converted when they are replayed. SHA-256 in
  hexadecimal is a parameter.
\<close>

definition maxProviderToolCallIDLen :: nat where "maxProviderToolCallIDLen = 64"
definition toolCallNamespaceHashLen :: nat where "toolCallNamespaceHashLen = 12"
definition toolCallValueHashLen :: nat where "toolCallValueHashLen = 12"

definition strings_Cut :: "string \<Rightarrow> string \<Rightarrow> (string \<times> string) option" where
  "strings_Cut s sep = map_option (\<lambda>i. (take i s, drop (i + length sep) s)) (strings_Index s sep)"

definition shortToolCallHash :: "(string \<Rightarrow> string) \<Rightarrow> string \<Rightarrow> nat \<Rightarrow> string" where
  "shortToolCallHash sha v n =
     (let encoded = sha (TrimSpace v) in if n = 0 \<or> length encoded < n then encoded else take n encoded)"

definition splitLegacyToolCallID :: "string \<Rightarrow> (string \<times> string) option" where
  "splitLegacyToolCallID v =
     (case strings_Cut (TrimSpace v) ''::'' of
        None \<Rightarrow> None
      | Some (namespace, raw) \<Rightarrow>
          if TrimSpace namespace = [] \<or> TrimSpace raw = [] then None else Some (TrimSpace namespace, TrimSpace raw))"

definition buildProviderSafeToolCallID :: "(string \<Rightarrow> string) \<Rightarrow> string \<Rightarrow> string \<Rightarrow> string" where
  "buildProviderSafeToolCallID sha namespace raw =
     (let trimmedRaw = TrimSpace raw
      in if trimmedRaw = [] then []
         else if namespace = [] \<and> length trimmedRaw \<le> maxProviderToolCallIDLen \<and> \<not> strings_Contains trimmedRaw ''::'' then trimmedRaw
         else let prefix = ''tc'' @ (if namespace = [] then [] else ''_'' @ namespace);
                  candidate = prefix @ ''_'' @ trimmedRaw
              in if length candidate \<le> maxProviderToolCallIDLen then candidate
                 else let rawHash = shortToolCallHash sha trimmedRaw toolCallValueHashLen;
                          remaining = int maxProviderToolCallIDLen - int (length prefix) - int (length rawHash) - 2
                      in if remaining \<le> 0 then prefix @ ''_'' @ rawHash
                         else prefix @ ''_'' @ rawHash @ ''_'' @
                              (if remaining < int (length trimmedRaw) then drop (length trimmedRaw - nat remaining) trimmedRaw
                               else trimmedRaw))"

definition providerToolCallID :: "(string \<Rightarrow> string) \<Rightarrow> string \<Rightarrow> string" where
  "providerToolCallID sha toolCallID =
     (let trimmed = TrimSpace toolCallID
      in if trimmed = [] then []
         else case splitLegacyToolCallID trimmed of
                Some (namespace, raw) \<Rightarrow> buildProviderSafeToolCallID sha (shortToolCallHash sha namespace toolCallNamespaceHashLen) raw
              | None \<Rightarrow> if length trimmed \<le> maxProviderToolCallIDLen then trimmed else buildProviderSafeToolCallID sha [] trimmed)"

definition namespaceToolCallID :: "(string \<Rightarrow> string) \<Rightarrow> string \<Rightarrow> string \<Rightarrow> string" where
  "namespaceToolCallID sha modelCallID rawToolCallID =
     (let raw = TrimSpace rawToolCallID; model = TrimSpace modelCallID
      in if raw = [] then []
         else if strings_Contains raw ''::'' \<or> model = [] then providerToolCallID sha raw
         else buildProviderSafeToolCallID sha (shortToolCallHash sha model toolCallNamespaceHashLen) raw)"

record providerToolCallDescriptor =
  pd_ID :: string
  pd_Index :: int
  pd_Type :: string
  pd_Name :: string
  pd_Arguments :: string

definition normalizeToolCallDescriptors :: "(string \<Rightarrow> string) \<Rightarrow> ToolCallDescriptor list \<Rightarrow> providerToolCallDescriptor list" where
  "normalizeToolCallDescriptors sha = map (\<lambda>c. \<lparr>pd_ID = providerToolCallID sha (td_ID c), pd_Index = td_Index c, pd_Type = td_Type c,
     pd_Name = td_Name c, pd_Arguments = td_Arguments c\<rparr>)"

text \<open>The group of an id (\<open>projector.go\<close>): the calls of one model call belong together.\<close>

definition replayToolCallGroupID :: "string \<Rightarrow> string" where
  "replayToolCallGroupID toolCallID =
     (let trimmed = TrimSpace toolCallID
      in if trimmed = [] then []
         else case strings_Cut trimmed ''::'' of
                Some (namespace, _) \<Rightarrow> TrimSpace namespace
              | None \<Rightarrow>
                  if has_prefix trimmed ''tc_'' then
                    let part = (case strings_Cut (drop 3 trimmed) ''_'' of None \<Rightarrow> drop 3 trimmed | Some (a, _) \<Rightarrow> a)
                    in if TrimSpace part = [] then [] else ''tc_'' @ TrimSpace part
                  else [])"

subsection \<open>Ids are short\<close>

text \<open>What is relied on of the hash: 64 hexadecimal digits.\<close>

definition hex_digits :: "char list" where "hex_digits = ''0123456789abcdef''"

definition sha_ok :: "(string \<Rightarrow> string) \<Rightarrow> bool" where
  "sha_ok sha \<longleftrightarrow> (\<forall>s. length (sha s) = 64 \<and> set (sha s) \<subseteq> set hex_digits)"

lemma short_hash:
  assumes "sha_ok sha" "0 < n" "n \<le> 64"
  shows "length (shortToolCallHash sha v n) = n \<and> set (shortToolCallHash sha v n) \<subseteq> set hex_digits"
  using assms by (auto simp: shortToolCallHash_def sha_ok_def Let_def dest: in_set_takeD)

lemma built_id_short:
  assumes "sha_ok sha" "length namespace \<le> 12"
  shows "length (buildProviderSafeToolCallID sha namespace raw) \<le> 64"
proof -
  have "length (shortToolCallHash sha (TrimSpace raw) 12) = 12" using short_hash [OF assms(1)] by simp
  then show ?thesis using assms(2)
    by (auto simp: buildProviderSafeToolCallID_def maxProviderToolCallIDLen_def toolCallValueHashLen_def Let_def)
qed

lemma provider_id_short:
  assumes "sha_ok sha"
  shows "length (providerToolCallID sha i) \<le> 64"
  using built_id_short [OF assms] short_hash [OF assms, of 12]
  by (auto simp: providerToolCallID_def maxProviderToolCallIDLen_def toolCallNamespaceHashLen_def Let_def split: option.split)

end
