(* ===== verification/Replay_Messages.thy ===== *)
theory Replay_Messages
  imports Turn_Actor Tool_Call_Ids
begin

text \<open>
  The sequence of messages that is replayed to a provider (\<open>projector.go\<close>): consecutive tool calls of the assistant
  become one message, the calls of one model call that are interleaved with their results are gathered, tools that
  must not be replayed are left out, and so are calls without a result and results without a call. The copies that
  \<open>cloneReplayModelMessage\<close> makes are the values themselves here.
\<close>

subsection \<open>Merging\<close>

definition has_calls :: "Message \<Rightarrow> bool" where
  "has_calls m \<longleftrightarrow> TrimSpace (mg_Role m) = ''assistant'' \<and> mg_ToolCalls m \<noteq> []"

definition is_tool :: "Message \<Rightarrow> bool" where
  "is_tool m \<longleftrightarrow> TrimSpace (mg_Role m) = ''tool''"

definition mergeReplayReasoning :: "string \<Rightarrow> string \<Rightarrow> string" where
  "mergeReplayReasoning l r =
     (let left = TrimSpace l; right = TrimSpace r
      in if left = [] then right else if right = [] \<or> right = left then left else left @ [LF, LF] @ right)"

definition mergeReplayReasoningSignature :: "string \<Rightarrow> string \<Rightarrow> string" where
  "mergeReplayReasoningSignature l r =
     (let left = TrimSpace l; right = TrimSpace r
      in if left = [] then right else if right = [] \<or> right = left then left else [])"

definition mergeReplayReasoningSignatureSource :: "string \<Rightarrow> string \<Rightarrow> string" where
  "mergeReplayReasoningSignatureSource l r =
     (let left = TrimSpace l; right = TrimSpace r
      in if left = [] then right else if right = [] \<or> right = left then left else [])"

definition mergeReplayReasoningMetadata :: "Message \<Rightarrow> Message \<Rightarrow> Message" where
  "mergeReplayReasoningMetadata prev current =
     (let leftSignature = TrimSpace (mg_ReasoningSignature prev);
          rightSignature = TrimSpace (mg_ReasoningSignature current);
          mergedSignature = mergeReplayReasoningSignature leftSignature rightSignature;
          prev1 = prev\<lparr>mg_ReasoningSignature := mergedSignature\<rparr>
      in if mergedSignature = [] then
           prev1\<lparr>mg_ReasoningSignatureSource := [], mg_OpenAIResponsesReasoningID := [],
             mg_OpenAIResponsesReasoningStatus := [], mg_OpenAIResponsesReasoningSummary := []\<rparr>
         else if leftSignature = [] \<and> rightSignature \<noteq> [] then
           prev1\<lparr>mg_ReasoningSignatureSource := TrimSpace (mg_ReasoningSignatureSource current),
             mg_OpenAIResponsesReasoningID := mg_OpenAIResponsesReasoningID current,
             mg_OpenAIResponsesReasoningStatus := mg_OpenAIResponsesReasoningStatus current,
             mg_OpenAIResponsesReasoningSummary := mg_OpenAIResponsesReasoningSummary current\<rparr>
         else if leftSignature = rightSignature then
           prev1\<lparr>mg_ReasoningSignatureSource :=
               mergeReplayReasoningSignatureSource (mg_ReasoningSignatureSource prev) (mg_ReasoningSignatureSource current),
             mg_OpenAIResponsesReasoningID :=
               (if TrimSpace (mg_OpenAIResponsesReasoningID prev) = [] then mg_OpenAIResponsesReasoningID current
                else mg_OpenAIResponsesReasoningID prev),
             mg_OpenAIResponsesReasoningStatus :=
               (if TrimSpace (mg_OpenAIResponsesReasoningStatus prev) = [] then mg_OpenAIResponsesReasoningStatus current
                else mg_OpenAIResponsesReasoningStatus prev),
             mg_OpenAIResponsesReasoningSummary :=
               (if mg_OpenAIResponsesReasoningSummary prev = [] then mg_OpenAIResponsesReasoningSummary current
                else mg_OpenAIResponsesReasoningSummary prev)\<rparr>
         else prev1)"

definition canMergeReplayAssistantToolCalls :: "Message \<Rightarrow> Message \<Rightarrow> bool" where
  "canMergeReplayAssistantToolCalls prev current \<longleftrightarrow>
     TrimSpace (mg_Role prev) = ''assistant'' \<and> TrimSpace (mg_Role current) = ''assistant'' \<and>
     mg_ToolCalls prev \<noteq> [] \<and> mg_ToolCalls current \<noteq> [] \<and>
     TrimSpace (mg_ToolCallID prev) = [] \<and> TrimSpace (mg_Name prev) = [] \<and>
     TrimSpace (mg_ToolCallID current) = [] \<and> TrimSpace (mg_Name current) = [] \<and>
     TrimSpace (mg_Content current) = [] \<and> mg_ContentParts current = []"

fun reindex_calls :: "int \<Rightarrow> ToolCallDescriptor list \<Rightarrow> ToolCallDescriptor list" where
  "reindex_calls n [] = []"
| "reindex_calls n (c # cs) = c\<lparr>td_Index := n\<rparr> # reindex_calls (n + 1) cs"

definition merge_into :: "Message \<Rightarrow> Message \<Rightarrow> Message" where
  "merge_into prev m =
     mergeReplayReasoningMetadata
       (prev\<lparr>mg_ToolCalls := mg_ToolCalls prev @ reindex_calls (int (length (mg_ToolCalls prev))) (mg_ToolCalls m),
          mg_ReasoningContent := mergeReplayReasoning (mg_ReasoningContent prev) (mg_ReasoningContent m)\<rparr>) m"

definition mergeReplayAssistantToolCalls :: "Message list \<Rightarrow> Message \<Rightarrow> Message list option" where
  "mergeReplayAssistantToolCalls messages m =
     (if messages = [] then None
      else if \<not> canMergeReplayAssistantToolCalls (List.last messages) m then None
      else Some (butlast messages @ [merge_into (List.last messages) m]))"

definition merge_step :: "Message \<Rightarrow> Message list \<Rightarrow> Message list" where
  "merge_step m normalized =
     (case mergeReplayAssistantToolCalls normalized m of Some merged \<Rightarrow> merged | None \<Rightarrow> normalized @ [m])"

subsection \<open>Tools that are not replayed\<close>

definition isProviderPromptReplaySuppressedToolName :: "string \<Rightarrow> bool" where
  "isProviderPromptReplaySuppressedToolName toolName \<longleftrightarrow> TrimSpace toolName = ''GenerateImage''"

abbreviation call_id :: "ToolCallDescriptor \<Rightarrow> string" where "call_id c \<equiv> TrimSpace (td_ID c)"

definition nothing_else :: "Message \<Rightarrow> bool" where
  "nothing_else m \<longleftrightarrow> TrimSpace (mg_Content m) = [] \<and> mg_ContentParts m = [] \<and>
     \<not> hasReplayableReasoningPayload (mg_ReasoningContent m) (mg_ReasoningSignature m) (mg_ReasoningSignatureSource m)"

fun filter_suppressed :: "string list \<Rightarrow> Message list \<Rightarrow> Message list" where
  "filter_suppressed skipped [] = []"
| "filter_suppressed skipped (m # ms) =
     (if has_calls m then
        let suppressed = filter (\<lambda>c. isProviderPromptReplaySuppressedToolName (td_Name c)) (mg_ToolCalls m);
            skipped1 = skipped @ filter (\<lambda>i. i \<noteq> []) (map call_id suppressed);
            nextToolCalls = reindex_calls 0 (filter (\<lambda>c. \<not> isProviderPromptReplaySuppressedToolName (td_Name c)) (mg_ToolCalls m))
        in if nextToolCalls = [] \<and> nothing_else m then filter_suppressed skipped1 ms
           else m\<lparr>mg_ToolCalls := nextToolCalls\<rparr> # filter_suppressed skipped1 ms
      else if is_tool m \<and> (TrimSpace (mg_ToolCallID m) \<in> set skipped \<or> isProviderPromptReplaySuppressedToolName (mg_Name m))
      then filter_suppressed skipped ms
      else m # filter_suppressed skipped ms)"

definition filterProviderSuppressedToolReplayMessages :: "Message list \<Rightarrow> Message list" where
  "filterProviderSuppressedToolReplayMessages messages = filter_suppressed [] messages"

definition shouldPersistCheckpointReplayToolResultName :: "string \<Rightarrow> bool" where
  "shouldPersistCheckpointReplayToolResultName toolName \<longleftrightarrow>
     TrimSpace toolName \<in> {''PatchEdit'', ''PatchEditLines'', ''PatchEditSpan'', ''Edit'', ''Write'', ''GenerateImage''}"

fun filter_persistent :: "string list \<Rightarrow> Message list \<Rightarrow> Message list" where
  "filter_persistent skipped [] = []"
| "filter_persistent skipped (m # ms) =
     (if has_calls m then
        let dropped = filter (\<lambda>c. \<not> shouldPersistCheckpointReplayToolResultName (td_Name c)) (mg_ToolCalls m);
            skipped1 = skipped @ map call_id dropped;
            nextToolCalls = filter (\<lambda>c. shouldPersistCheckpointReplayToolResultName (td_Name c)) (mg_ToolCalls m)
        in if nextToolCalls = [] \<and> TrimSpace (mg_Content m) = [] \<and>
              \<not> hasReplayableReasoningPayload (mg_ReasoningContent m) (mg_ReasoningSignature m) (mg_ReasoningSignatureSource m)
           then filter_persistent skipped1 ms
           else m\<lparr>mg_ToolCalls := nextToolCalls\<rparr> # filter_persistent skipped1 ms
      else if is_tool m \<and> (TrimSpace (mg_ToolCallID m) \<in> set skipped \<or> \<not> shouldPersistCheckpointReplayToolResultName (mg_Name m))
      then filter_persistent skipped ms
      else m # filter_persistent skipped ms)"

definition filterCheckpointPersistentToolReplay :: "Message list \<Rightarrow> Message list" where
  "filterCheckpointPersistentToolReplay messages = filter_persistent [] messages"

subsection \<open>Batches\<close>

fun common_group :: "string \<Rightarrow> ToolCallDescriptor list \<Rightarrow> string" where
  "common_group groupID [] = groupID"
| "common_group groupID (c # cs) =
     (let nextGroupID = replayToolCallGroupID (td_ID c)
      in if nextGroupID = [] then []
         else if groupID = [] then common_group nextGroupID cs
         else if groupID \<noteq> nextGroupID then [] else common_group groupID cs)"

definition replayAssistantToolGroupID :: "Message \<Rightarrow> string" where
  "replayAssistantToolGroupID m = (if has_calls m then common_group [] (mg_ToolCalls m) else [])"

record tool_batch =
  tb_batch :: Message
  tb_results :: "string \<rightharpoonup> Message"
  tb_order :: "string list"
  tb_changed :: bool

fun collect_batch :: "string \<Rightarrow> tool_batch \<Rightarrow> Message list \<Rightarrow> tool_batch \<times> Message list" where
  "collect_batch g b [] = (b, [])"
| "collect_batch g b (m # ms) =
     (if is_tool m \<and> replayToolCallGroupID (mg_ToolCallID m) = g then
        let toolCallID = TrimSpace (mg_ToolCallID m)
        in collect_batch g (b\<lparr>tb_order := tb_order b @ (if toolCallID \<in> dom (tb_results b) then [] else [toolCallID]),
             tb_results := (tb_results b)(toolCallID \<mapsto> m), tb_changed := True\<rparr>) ms
      else if replayAssistantToolGroupID m = g \<and> canMergeReplayAssistantToolCalls (tb_batch b) m then
        collect_batch g (b\<lparr>tb_batch := merge_into (tb_batch b) m, tb_changed := True\<rparr>) ms
      else (b, m # ms))"

definition batch_messages :: "tool_batch \<Rightarrow> Message list" where
  "batch_messages b =
     (let ids = map call_id (mg_ToolCalls (tb_batch b))
      in tb_batch b # List.map_filter (tb_results b) ids @
         List.map_filter (\<lambda>i. if i \<in> set ids \<and> tb_results b i \<noteq> None then None else tb_results b i) (tb_order b))"

lemma collect_batch_length: "collect_batch g b ms = (b1, rest) \<Longrightarrow> length rest \<le> length ms"
  by (induction g b ms rule: collect_batch.induct) (auto simp: Let_def split: if_splits)

function coalesceInterleavedReplayToolBatches :: "Message list \<Rightarrow> Message list" where
  "coalesceInterleavedReplayToolBatches [] = []"
| "coalesceInterleavedReplayToolBatches (m # ms) =
     (let groupID = replayAssistantToolGroupID m
      in if groupID = [] then m # coalesceInterleavedReplayToolBatches ms
         else case collect_batch groupID \<lparr>tb_batch = m, tb_results = Map.empty, tb_order = [], tb_changed = False\<rparr> ms of
                (b, rest) \<Rightarrow>
                  if \<not> tb_changed b then m # coalesceInterleavedReplayToolBatches ms
                  else batch_messages b @ coalesceInterleavedReplayToolBatches rest)"
  by pat_completeness auto
termination
  by (relation "measure length") (auto dest: collect_batch_length [OF sym])

subsection \<open>Calls and results that belong together\<close>

definition replayToolResponseWindow :: "Message list \<Rightarrow> Message list" where
  "replayToolResponseWindow following = takeWhile (\<lambda>m. is_tool m \<or> TrimSpace (mg_Role m) = ''assistant'' \<and> mg_ToolCalls m = []) following"

definition responded :: "Message list \<Rightarrow> string list" where
  "responded following = filter (\<lambda>i. i \<noteq> []) (map (\<lambda>m. TrimSpace (mg_ToolCallID m)) (filter is_tool (replayToolResponseWindow following)))"

fun survivingToolCallIDs :: "Message list \<Rightarrow> string list" where
  "survivingToolCallIDs [] = []"
| "survivingToolCallIDs (m # ms) =
     (if has_calls m then filter (\<lambda>i. i \<noteq> [] \<and> i \<in> set (responded ms)) (map call_id (mg_ToolCalls m)) else []) @ survivingToolCallIDs ms"

definition trim_message :: "string set \<Rightarrow> Message \<Rightarrow> Message option" where
  "trim_message surviving m =
     (if has_calls m then
        let nextToolCalls = reindex_calls 0 (filter (\<lambda>c. call_id c \<in> surviving) (mg_ToolCalls m))
        in if nextToolCalls = [] \<and> nothing_else m then None else Some (m\<lparr>mg_ToolCalls := nextToolCalls\<rparr>)
      else if is_tool m \<and> TrimSpace (mg_ToolCallID m) \<noteq> [] \<and> TrimSpace (mg_ToolCallID m) \<notin> surviving then None
      else Some m)"

definition trimReplayDanglingAssistantToolCalls :: "Message list \<Rightarrow> Message list" where
  "trimReplayDanglingAssistantToolCalls messages = List.map_filter (trim_message (set (survivingToolCallIDs messages))) messages"

definition normalizeReplayMessageSequence :: "Message list \<Rightarrow> Message list" where
  "normalizeReplayMessageSequence messages =
     trimReplayDanglingAssistantToolCalls (coalesceInterleavedReplayToolBatches
       (filterProviderSuppressedToolReplayMessages (fold merge_step messages [])))"

subsection \<open>Adjacent messages of the user\<close>

text \<open>\<open>mergeAdjacentPlainUserMessages\<close> of \<open>compiler.go\<close>.\<close>

definition plainUserMessageText :: "Message \<Rightarrow> string option" where
  "plainUserMessageText m =
     (if TrimSpace (mg_Role m) \<noteq> ''user'' then None
      else if mg_ContentParts m \<noteq> [] \<or> mg_ToolCalls m \<noteq> [] then None
      else if TrimSpace (mg_ToolCallID m) \<noteq> [] \<or> TrimSpace (mg_Name m) \<noteq> [] then None
      else if TrimSpace (mg_ReasoningContent m) \<noteq> [] \<or> TrimSpace (mg_ReasoningSignature m) \<noteq> [] \<or>
         TrimSpace (mg_ReasoningSignatureSource m) \<noteq> [] \<or> TrimSpace (mg_OpenAIResponsesReasoningID m) \<noteq> [] \<or>
         TrimSpace (mg_OpenAIResponsesReasoningStatus m) \<noteq> [] \<or> mg_OpenAIResponsesReasoningSummary m \<noteq> [] then None
      else if TrimSpace (mg_Content m) = [] then None
      else Some (TrimSpace (mg_Content m)))"

definition merge_user_step :: "Message \<Rightarrow> Message list \<Rightarrow> Message list" where
  "merge_user_step m merged =
     (case plainUserMessageText m of
        None \<Rightarrow> merged @ [m]
      | Some t \<Rightarrow>
          let own = merged @ [m\<lparr>mg_Role := ''user'', mg_Content := t\<rparr>]
          in if merged = [] then own
             else case plainUserMessageText (List.last merged) of
                    Some lastText \<Rightarrow> butlast merged @
                      [(List.last merged)\<lparr>mg_Role := ''user'', mg_Content := lastText @ [LF, LF] @ t\<rparr>]
                  | None \<Rightarrow> own)"

definition mergeAdjacentPlainUserMessages :: "Message list \<Rightarrow> Message list" where
  "mergeAdjacentPlainUserMessages messages = fold merge_user_step messages []"


subsection \<open>The ids of the calls\<close>

definition replay_call_ids :: "Message list \<Rightarrow> string list" where
  "replay_call_ids ms = filter (\<lambda>i. i \<noteq> []) (concat (map (\<lambda>m. if has_calls m then map call_id (mg_ToolCalls m) else []) ms))"

lemma replay_call_ids_simps [simp]:
  "replay_call_ids [] = []"
  "replay_call_ids (m # ms) = (if has_calls m then filter (\<lambda>i. i \<noteq> []) (map call_id (mg_ToolCalls m)) else []) @ replay_call_ids ms"
  "replay_call_ids (ms @ ns) = replay_call_ids ms @ replay_call_ids ns"
  by (simp_all add: replay_call_ids_def)

lemma reindex_ids [simp]: "map call_id (reindex_calls n cs) = map call_id cs" "reindex_calls n cs = [] \<longleftrightarrow> cs = []"
  "map td_Name (reindex_calls n cs) = map td_Name cs"
  by (induction cs arbitrary: n) auto

lemma metadata_keeps [simp]: "mg_ToolCalls (mergeReplayReasoningMetadata p m) = mg_ToolCalls p"
  "mg_Role (mergeReplayReasoningMetadata p m) = mg_Role p"
  by (simp_all add: mergeReplayReasoningMetadata_def Let_def)

lemma merge_into_calls [simp]:
  "map call_id (mg_ToolCalls (merge_into p m)) = map call_id (mg_ToolCalls p) @ map call_id (mg_ToolCalls m)"
  "mg_Role (merge_into p m) = mg_Role p"
  by (simp_all add: merge_into_def)

lemma merge_into_has_calls:
  assumes "canMergeReplayAssistantToolCalls p m"
  shows "has_calls p" "has_calls m" "has_calls (merge_into p m)"
  using assms by (auto simp: canMergeReplayAssistantToolCalls_def has_calls_def merge_into_def)

lemma merge_step_ids: "replay_call_ids (merge_step m ms) = replay_call_ids ms @ replay_call_ids [m]"
proof (cases "mergeReplayAssistantToolCalls ms m")
  case None
  then show ?thesis by (simp add: merge_step_def)
next
  case (Some ms1)
  then have c: "canMergeReplayAssistantToolCalls (last ms) m" "ms \<noteq> []" "ms1 = butlast ms @ [merge_into (last ms) m]"
    by (auto simp: mergeReplayAssistantToolCalls_def split: if_splits)
  have "replay_call_ids ms = replay_call_ids (butlast ms @ [last ms])" using c(2) by simp
  with Some c show ?thesis by (simp add: merge_step_def merge_into_has_calls [OF c(1)] del: append_butlast_last_id)
qed

lemma merged_ids: "replay_call_ids (fold merge_step ms ns) = replay_call_ids ns @ replay_call_ids ms"
  by (induction ms arbitrary: ns) (simp_all add: merge_step_ids)

lemma filter_suppressed_ids: "set (replay_call_ids (filter_suppressed sk ms)) \<subseteq> set (replay_call_ids ms)"
proof (induction sk ms rule: filter_suppressed.induct)
  case (2 sk m ms)
  show ?case
  proof (cases "has_calls m")
    case True
    then show ?thesis using 2(1,2) [OF True refl refl refl] by (simp add: Let_def) blast
  next
    case False
    then show ?thesis using 2(3,4) by simp
  qed
qed simp

lemma distinct_filter_ids:
  "distinct (filter P (map f xs)) \<Longrightarrow> distinct (filter P (map f (filter Q xs)))"
  by (induction xs) auto

lemma filter_suppressed_distinct: "distinct (replay_call_ids ms) \<Longrightarrow> distinct (replay_call_ids (filter_suppressed sk ms))"
proof (induction sk ms rule: filter_suppressed.induct)
  case (2 sk m ms)
  have d: "distinct (replay_call_ids ms)" using 2(5) by (auto split: if_splits)
  note s = filter_suppressed_ids [of _ ms]
  show ?case
  proof (cases "has_calls m")
    case True
    then have m: "distinct (filter (\<lambda>i. i \<noteq> []) (map call_id (mg_ToolCalls m)))" using 2(5) by simp
    let ?n = "filter (\<lambda>c. \<not> isProviderPromptReplaySuppressedToolName (td_Name c)) (mg_ToolCalls m)"
    have n: "distinct (filter (\<lambda>i. i \<noteq> []) (map call_id ?n))" by (rule distinct_filter_ids [OF m])
    have "set (filter (\<lambda>i. i \<noteq> []) (map call_id ?n)) \<inter> set (replay_call_ids (filter_suppressed sk' ms)) = {}" for sk'
      using 2(5) True s [of sk'] by auto
    with n show ?thesis using 2(1,2) [OF True refl refl refl] True d by (simp add: Let_def)
  next
    case False
    then show ?thesis using 2(3,4) d by simp
  qed
qed simp

lemma collect_batch_ids:
  assumes "collect_batch g b ms = (b1, rest)" "has_calls (tb_batch b)" "\<forall>r \<in> ran (tb_results b). is_tool r"
  shows "replay_call_ids (tb_batch b1 # rest) = replay_call_ids (tb_batch b # ms) \<and> has_calls (tb_batch b1) \<and>
    (\<forall>r \<in> ran (tb_results b1). is_tool r)"
  using assms
proof (induction g b ms rule: collect_batch.induct)
  case (2 g b m ms)
  consider (tool) "is_tool m \<and> replayToolCallGroupID (mg_ToolCallID m) = g"
    | (call) "\<not> (is_tool m \<and> replayToolCallGroupID (mg_ToolCallID m) = g)"
        "replayAssistantToolGroupID m = g \<and> canMergeReplayAssistantToolCalls (tb_batch b) m"
    | (stop) "\<not> (is_tool m \<and> replayToolCallGroupID (mg_ToolCallID m) = g)"
        "\<not> (replayAssistantToolGroupID m = g \<and> canMergeReplayAssistantToolCalls (tb_batch b) m)" by blast
  then show ?case
  proof cases
    case tool
    then have n: "\<not> has_calls m" by (auto simp: has_calls_def is_tool_def)
    have r: "\<forall>r \<in> ran ((tb_results b)(TrimSpace (mg_ToolCallID m) \<mapsto> m)). is_tool r"
      using 2(5) tool by (auto simp: ran_def)
    show ?thesis using 2(1) [OF tool refl _ _] 2(3,4) tool r n by (simp add: Let_def fun_upd_def split: if_split_asm)
  next
    case call
    note mh = merge_into_has_calls [OF conjunct2 [OF call(2)]]
    show ?thesis using 2(2) [OF call] 2(3,4,5) call mh by (simp split: if_split_asm)
  next
    case stop
    then show ?thesis using 2(3,4,5) by auto
  qed
qed simp

lemma map_filter_results: "\<forall>r \<in> ran f. is_tool r \<Longrightarrow> replay_call_ids (List.map_filter f xs) = []"
proof (induction xs)
  case (Cons x xs)
  then show ?case by (auto simp: map_filter_simps has_calls_def is_tool_def ran_def split: option.split)
qed (simp add: map_filter_simps)

lemma batch_ids:
  assumes "\<forall>r \<in> ran (tb_results b). is_tool r"
  shows "replay_call_ids (batch_messages b) = replay_call_ids [tb_batch b]"
proof -
  let ?f = "\<lambda>i. if i \<in> set (map call_id (mg_ToolCalls (tb_batch b))) \<and> tb_results b i \<noteq> None then None else tb_results b i"
  have "\<forall>r \<in> ran ?f. is_tool r" using assms by (auto simp: ran_def split: if_splits)
  with assms show ?thesis unfolding batch_messages_def Let_def by (simp add: map_filter_results)
qed

lemma coalesced_ids: "replay_call_ids (coalesceInterleavedReplayToolBatches ms) = replay_call_ids ms"
proof (induction ms rule: coalesceInterleavedReplayToolBatches.induct)
  case (2 m ms)
  let ?g = "replayAssistantToolGroupID m" and ?b = "\<lparr>tb_batch = m, tb_results = Map.empty, tb_order = [], tb_changed = False\<rparr>"
  obtain b rest where c: "collect_batch ?g ?b ms = (b, rest)" by fastforce
  show ?case
  proof (cases "?g = [] \<or> \<not> tb_changed b")
    case True
    have "replay_call_ids (coalesceInterleavedReplayToolBatches ms) = replay_call_ids ms"
      using 2(1) [OF refl] 2(2) [OF refl _ c [symmetric]] True by auto
    then show ?thesis using True c by (auto simp: Let_def)
  next
    case False
    then have "has_calls m" by (auto simp: replayAssistantToolGroupID_def split: if_splits)
    with collect_batch_ids [OF c] have "replay_call_ids (tb_batch b # rest) = replay_call_ids (m # ms)" "\<forall>r \<in> ran (tb_results b). is_tool r"
      by auto
    moreover have "replay_call_ids (coalesceInterleavedReplayToolBatches rest) = replay_call_ids rest"
      using 2(3) [OF refl _ c [symmetric]] False by auto
    ultimately show ?thesis using False c batch_ids [of b] by (simp add: Let_def split: if_splits)
  qed
qed simp

subsection \<open>Calls and results after trimming\<close>

text \<open>A call is answered when a result with its id is in the window after its message.\<close>

fun calls_answered :: "Message list \<Rightarrow> bool" where
  "calls_answered [] = True"
| "calls_answered (m # ms) = ((has_calls m \<longrightarrow> (\<forall>c \<in> set (mg_ToolCalls m). call_id c \<in> set (responded ms))) \<and> calls_answered ms)"

text \<open>A call whose id survives has its answer, when no two calls share an id.\<close>

fun survivors_answered :: "string set \<Rightarrow> Message list \<Rightarrow> bool" where
  "survivors_answered S [] = True"
| "survivors_answered S (m # ms) = ((has_calls m \<longrightarrow> (\<forall>c \<in> set (mg_ToolCalls m). call_id c \<in> S \<longrightarrow> call_id c \<in> set (responded ms))) \<and>
     survivors_answered S ms)"

lemma surviving_ids: "set (survivingToolCallIDs ms) \<subseteq> set (replay_call_ids ms)"
  by (induction ms) auto

lemma survivors_cong: "(\<And>i. i \<in> set (replay_call_ids ms) \<Longrightarrow> i \<in> S \<longleftrightarrow> i \<in> T) \<Longrightarrow> [] \<notin> S \<Longrightarrow> [] \<notin> T \<Longrightarrow>
  survivors_answered S ms \<longleftrightarrow> survivors_answered T ms"
proof (induction ms)
  case (Cons m ms)
  have "call_id c \<in> S \<longleftrightarrow> call_id c \<in> T" if "has_calls m" "c \<in> set (mg_ToolCalls m)" for c
    using Cons(2) [of "call_id c"] Cons(3,4) that by (cases "call_id c = []") auto
  moreover have "survivors_answered S ms \<longleftrightarrow> survivors_answered T ms" using Cons by simp
  ultimately show ?case by auto
qed simp

lemma surviving_nonempty: "[] \<notin> set (survivingToolCallIDs ms)"
  by (induction ms) auto

lemma surviving_answered: "distinct (replay_call_ids ms) \<Longrightarrow> survivors_answered (set (survivingToolCallIDs ms)) ms"
proof (induction ms)
  case (Cons m ms)
  let ?S = "set (survivingToolCallIDs (m # ms))"
  have "distinct (replay_call_ids ms)" using Cons(2) by (auto split: if_splits)
  then have "survivors_answered (set (survivingToolCallIDs ms)) ms" by (rule Cons(1))
  moreover have "i \<in> ?S \<longleftrightarrow> i \<in> set (survivingToolCallIDs ms)" if "i \<in> set (replay_call_ids ms)" for i
    using that Cons(2) by auto
  ultimately have "survivors_answered ?S ms"
    using survivors_cong [of ms ?S "set (survivingToolCallIDs ms)"] surviving_nonempty [of "m # ms"] surviving_nonempty [of ms] by blast
  moreover have "call_id c \<in> set (responded ms)" if "has_calls m" "c \<in> set (mg_ToolCalls m)" "call_id c \<in> ?S" for c
  proof (rule ccontr)
    assume "call_id c \<notin> set (responded ms)"
    with that(3) have s: "call_id c \<in> set (survivingToolCallIDs ms)" by (auto split: if_splits)
    then have "call_id c \<in> set (replay_call_ids ms)" "call_id c \<noteq> []" using surviving_ids surviving_nonempty by (blast, metis)
    with that(1,2) Cons(2) show False by auto
  qed
  ultimately show ?case unfolding survivors_answered.simps by blast
qed simp

lemma responded_Cons:
  "responded (m # ms) =
     (if is_tool m then (if TrimSpace (mg_ToolCallID m) = [] then [] else [TrimSpace (mg_ToolCallID m)]) @ responded ms
      else if TrimSpace (mg_Role m) = ''assistant'' \<and> mg_ToolCalls m = [] then responded ms else [])"
  by (simp add: responded_def replayToolResponseWindow_def)

lemma trim_responded:
  assumes "i \<in> S" "i \<in> set (responded ms)"
  shows "i \<in> set (responded (List.map_filter (trim_message S) ms))"
  using assms(2)
proof (induction ms)
  case (Cons m ms)
  show ?case
  proof (cases "is_tool m \<or> TrimSpace (mg_Role m) = ''assistant'' \<and> mg_ToolCalls m = []")
    case True
    then have n: "\<not> has_calls m" by (auto simp: has_calls_def is_tool_def)
    then have "trim_message S m = Some m \<or> trim_message S m = None \<and> is_tool m \<and> TrimSpace (mg_ToolCallID m) \<notin> S"
      by (simp add: trim_message_def)
    then show ?thesis using Cons True assms(1) by (auto simp: responded_Cons map_filter_simps split: if_splits)
  next
    case False
    then show ?thesis using Cons(2) by (simp add: responded_Cons)
  qed
qed (simp add: map_filter_simps)

lemma reindex_set: "c \<in> set (reindex_calls n cs) \<Longrightarrow> call_id c \<in> call_id ` set cs"
  by (metis image_eqI list.set_map reindex_ids(1))

lemma trim_answered: "survivors_answered S ms \<Longrightarrow> calls_answered (List.map_filter (trim_message S) ms)"
proof (induction ms)
  case (Cons m ms)
  show ?case
  proof (cases "trim_message S m")
    case (Some m1)
    have "call_id c \<in> set (responded (List.map_filter (trim_message S) ms))" if "has_calls m1" "c \<in> set (mg_ToolCalls m1)" for c
    proof -
      have "has_calls m" using Some that(1) by (auto simp: trim_message_def Let_def split: if_splits)
      with Some that(2) have "call_id c \<in> call_id ` {c \<in> set (mg_ToolCalls m). call_id c \<in> S}"
        by (auto simp: trim_message_def Let_def split: if_splits dest!: reindex_set)
      then have "call_id c \<in> S" "call_id c \<in> set (responded ms)" using Cons(2) \<open>has_calls m\<close> by auto
      then show ?thesis by (rule trim_responded)
    qed
    with Some Cons show ?thesis by (simp add: map_filter_simps)
  qed (use Cons in \<open>simp add: map_filter_simps\<close>)
qed (simp add: map_filter_simps)

lemma trim_keeps_ids: "set (replay_call_ids (List.map_filter (trim_message S) ms)) = set (replay_call_ids ms) \<inter> S"
proof (induction ms)
  case (Cons m ms)
  have "set (replay_call_ids (List.map_filter (trim_message S) [m])) = set (replay_call_ids [m]) \<inter> S"
    by (auto simp: trim_message_def map_filter_simps Let_def has_calls_def filter_empty_conv)
  with Cons show ?case by (auto simp: map_filter_simps split: option.splits)
qed (simp add: map_filter_simps)

lemma trim_results:
  assumes "m \<in> set (List.map_filter (trim_message S) ms)" "is_tool m" "TrimSpace (mg_ToolCallID m) \<noteq> []"
  shows "TrimSpace (mg_ToolCallID m) \<in> S"
proof -
  from assms(1) obtain n where n: "n \<in> set ms" "trim_message S n = Some m" by (auto simp: List.map_filter_def)
  then have "\<not> has_calls n" using assms(2) by (auto simp: trim_message_def has_calls_def is_tool_def Let_def split: if_splits)
  with n(2) assms(2,3) show ?thesis by (auto simp: trim_message_def split: if_splits)
qed

text \<open>
  C1. What is replayed to a provider is complete: when the calls of the conversation have different ids, every call
  that is left has its result among the messages that follow its message (before any other call and any message of
  the user), and every result that is left names such a call.
\<close>

theorem replay_is_complete:
  assumes "distinct (replay_call_ids messages)"
  shows "calls_answered (normalizeReplayMessageSequence messages) \<and>
    (\<forall>m \<in> set (normalizeReplayMessageSequence messages). is_tool m \<and> TrimSpace (mg_ToolCallID m) \<noteq> [] \<longrightarrow>
       TrimSpace (mg_ToolCallID m) \<in> set (replay_call_ids (normalizeReplayMessageSequence messages)))"
proof -
  define ms where "ms = coalesceInterleavedReplayToolBatches (filterProviderSuppressedToolReplayMessages (fold merge_step messages []))"
  let ?S = "set (survivingToolCallIDs ms)"
  have n: "normalizeReplayMessageSequence messages = List.map_filter (trim_message ?S) ms"
    by (simp add: normalizeReplayMessageSequence_def trimReplayDanglingAssistantToolCalls_def ms_def)
  have "distinct (replay_call_ids ms)" unfolding ms_def filterProviderSuppressedToolReplayMessages_def coalesced_ids
    by (rule filter_suppressed_distinct) (simp add: merged_ids assms)
  then have "calls_answered (normalizeReplayMessageSequence messages)" unfolding n by (intro trim_answered surviving_answered)
  moreover have "\<forall>m \<in> set (normalizeReplayMessageSequence messages). is_tool m \<and> TrimSpace (mg_ToolCallID m) \<noteq> [] \<longrightarrow>
      TrimSpace (mg_ToolCallID m) \<in> set (replay_call_ids (normalizeReplayMessageSequence messages))"
    unfolding n trim_keeps_ids using trim_results [of _ ?S ms] surviving_ids [of ms] by blast
  ultimately show ?thesis by blast
qed

text \<open>A command that was answered, one that was not, and the text of the assistant between the call and its result.\<close>

definition demo_call :: "string \<Rightarrow> ToolCallDescriptor" where
  "demo_call i = \<lparr>td_ID = i, td_Index = 0, td_Type = ''function'', td_Name = ''Shell'', td_Arguments = ''x'',
     td_OpenAIResponsesID = [], td_OpenAIResponsesCallID = [], td_OpenAIResponsesStatus = []\<rparr>"

definition demo_message :: "string \<Rightarrow> string \<Rightarrow> ToolCallDescriptor list \<Rightarrow> string \<Rightarrow> Message" where
  "demo_message role content calls i = \<lparr>mg_Role = role, mg_Content = content, mg_ContentParts = [], mg_ReasoningContent = [],
     mg_ReasoningSignature = [], mg_ReasoningSignatureSource = [], mg_OpenAIResponsesReasoningID = [],
     mg_OpenAIResponsesReasoningStatus = [], mg_OpenAIResponsesReasoningSummary = [], mg_ToolCalls = calls, mg_ToolCallID = i, mg_Name = []\<rparr>"

definition demo_replay :: "Message list" where
  "demo_replay = [demo_message ''assistant'' [] [demo_call ''a''] [], demo_message ''assistant'' [] [demo_call ''b''] [],
     demo_message ''assistant'' ''text'' [] [], demo_message ''tool'' ''result'' [] ''a'']"

lemma demo_distinct: "distinct (replay_call_ids demo_replay)"
  by code_simp

theorem replay_is_complete_witness:
  "distinct (replay_call_ids demo_replay) \<and> calls_answered (normalizeReplayMessageSequence demo_replay)"
  using demo_distinct replay_is_complete [OF demo_distinct] by simp

lemma demo_replayed: "map (\<lambda>m. map td_ID (mg_ToolCalls m)) (normalizeReplayMessageSequence demo_replay) = [[''a''], [], []]"
  by code_simp

subsection \<open>Merged messages of the user\<close>

text \<open>No two plain messages of the user are left next to each other.\<close>

definition apart :: "Message \<Rightarrow> Message \<Rightarrow> bool" where
  "apart m n \<longleftrightarrow> plainUserMessageText m = None \<or> plainUserMessageText n = None"

lemma merge_user_step_apart: "successively apart merged \<Longrightarrow> successively apart (merge_user_step m merged)"
proof (cases "plainUserMessageText m")
  case None
  then show "successively apart merged \<Longrightarrow> ?thesis" by (simp add: merge_user_step_def apart_def successively_append_iff)
next
  case (Some t)
  assume s: "successively apart merged"
  show ?thesis
  proof (cases "merged = [] \<or> plainUserMessageText (last merged) = None")
    case True
    then show ?thesis using s Some by (auto simp: merge_user_step_def apart_def successively_append_iff Let_def)
  next
    case False
    then have l: "merged = butlast merged @ [last merged]" by simp
    have "successively apart (butlast merged @ [last merged])" using s False by simp
    then have b: "successively apart (butlast merged)" "butlast merged \<noteq> [] \<Longrightarrow> plainUserMessageText (last (butlast merged)) = None"
      using False by (auto simp: successively_append_iff apart_def)
    from False obtain u where "plainUserMessageText (last merged) = Some u" "merged \<noteq> []" by auto
    with Some show ?thesis using b by (auto simp: merge_user_step_def successively_append_iff apart_def Let_def)
  qed
qed

lemma merged_users_apart: "successively apart (mergeAdjacentPlainUserMessages messages)"
proof -
  have "successively apart merged \<Longrightarrow> successively apart (fold merge_user_step messages merged)" for merged
    by (induction messages arbitrary: merged) (simp_all add: merge_user_step_apart)
  then show ?thesis by (simp add: mergeAdjacentPlainUserMessages_def)
qed

end
