(* ===== verification/Spec2Isabelle.thy ===== *)
theory Spec2Isabelle
  imports Append_Seq Shell_Recovery Run_SSE Usage_Store History_Store Think_Tags Replay_Messages
begin

text \<open>Verification of the forwarder of cursor-byok.\<close>

end
